theory Spec2Isabelle
  imports Complex_Main "HOL-Library.Monad_Syntax"
begin

section \<open>The manipulation lattice of \<^verbatim>\<open>manip_lattice.cpp\<close>\<close>

text \<open>
  A shallow embedding of \<^verbatim>\<open>sbpl::manip::ManipLattice\<close>.

  \<^item> A \<^verbatim>\<open>double\<close> is a \<^typ>\<open>real\<close>: rounding is not modelled, so every statement
    about joint angles is a statement about the exact arithmetic the code approximates.
  \<^item> An \<^verbatim>\<open>int\<close> is an \<^typ>\<open>int\<close>; the one place where its width decides a result
    (the conversion of a \<^verbatim>\<open>double\<close> to \<^verbatim>\<open>int\<close>, and the sentinel
    \<^verbatim>\<open>std::numeric_limits<int>::max()\<close>) is written out.
  \<^item> Every function returns an \<^typ>\<open>'a option\<close>. \<open>None\<close> means that the call does not
    return: an \<^verbatim>\<open>assert\<close> of the source fails, or a \<^verbatim>\<open>std::vector\<close> is
    read outside its bounds. A C++ function that returns \<^verbatim>\<open>false\<close> returns
    \<open>Some\<close> of a value that says so.
  \<^item> A \<^verbatim>\<open>ManipLatticeState*\<close> is the index of the state in \<open>m_states\<close>: every
    state is allocated by \<open>createHashEntry\<close>, which appends it there, and none is freed
    or moved before the destructor runs.
  \<^item> Logging, visualisation and the stopwatches are left out, and with them the
    heuristic value that only the log statements refresh.
\<close>

subsection \<open>Checked reads and assertions\<close>

text \<open>
  \<open>nth_opt\<close> reads a vector at an index that may be outside it. Where the source reads
  several constant indices in a row, the model asserts once that the largest is inside
  the vector and reads with \<open>!\<close>.
\<close>

definition nth_opt :: "'a list \<Rightarrow> nat \<Rightarrow> 'a option" where
  "nth_opt xs i = (if i < length xs then Some (xs ! i) else None)"

definition assert_that :: "bool \<Rightarrow> unit option" where
  "assert_that b = (if b then Some () else None)"

text \<open>\<^verbatim>\<open>action.back()\<close>: the last waypoint; undefined on an empty vector.\<close>

definition vector_back :: "'a list \<Rightarrow> 'a option" where
  "vector_back xs = (if xs = [] then None else Some (last xs))"

definition INT_MAX :: int where
  "INT_MAX = 2147483647"

definition INT_MIN :: int where
  "INT_MIN = - 2147483648"

text \<open>
  The conversion \<^verbatim>\<open>(int)x\<close> of a \<^verbatim>\<open>double\<close>: truncation towards zero, undefined
  when the truncated value is not representable.
\<close>

definition cast_int :: "real \<Rightarrow> int option" where
  "cast_int x =
     (let t = (if 0 \<le> x then \<lfloor>x\<rfloor> else \<lceil>x\<rceil>)
      in if INT_MIN \<le> t \<and> t \<le> INT_MAX then Some t else None)"

subsection \<open>Angles\<close>

text \<open>
  Modelled from the spec: \<^verbatim>\<open>sbpl_arm_planner/angles.h\<close> is not among the sources.
  \<open>normalize_angle_positive\<close> wraps an angle into \<open>[0, 2\<pi>)\<close> (the spec's
  \<open>normalize_positive\<close>, whose coordinate "lies in \<open>[0, 2\<pi>/\<Delta> - 1]\<close>"), and
  \<open>normalize_angle\<close> wraps it into \<open>(-\<pi>, \<pi>]\<close>.
\<close>

definition normalize_angle_positive :: "real \<Rightarrow> real" where
  "normalize_angle_positive a = a - 2 * pi * of_int \<lfloor>a / (2 * pi)\<rfloor>"

definition normalize_angle :: "real \<Rightarrow> real" where
  "normalize_angle a =
     (let p = normalize_angle_positive a in if pi < p then p - 2 * pi else p)"

subsection \<open>Collaborators\<close>

type_synonym RobotState = "real list"
type_synonym Action = "RobotState list"

text \<open>
  The robot model, the collision checker, the occupancy grid, the action space and the
  planning parameters are interfaces whose implementations are outside this file; each is
  a record of the functions the lattice calls. A function that returns \<^verbatim>\<open>bool\<close>
  and fills an output argument returns an option or a pair. The per-joint arrays of
  \<^verbatim>\<open>PlanningParams\<close>, whose declaration is not among the sources, are functions of
  the joint index; their names drop the trailing underscore of the source. The field
  \<open>computePlanningLinkFK\<close> of the robot model is its forward-kinematics extension, which
  the constructor asks for with \<^verbatim>\<open>getExtension<ForwardKinematicsInterface>()\<close>: \<open>None\<close>
  when the model has none.
\<close>

record RobotModel =
  minPosLimit :: "nat \<Rightarrow> real"
  maxPosLimit :: "nat \<Rightarrow> real"
  hasPosLimit :: "nat \<Rightarrow> bool"
  checkJointLimits :: "RobotState \<Rightarrow> bool"
  computePlanningLinkFK :: "(RobotState \<Rightarrow> real list option) option"

record CollisionChecker =
  isStateValid :: "RobotState \<Rightarrow> bool \<times> real"
  isStateToStateValid :: "RobotState \<Rightarrow> RobotState \<Rightarrow> bool \<times> real"

record PlanningParams =
  num_joints :: nat
  coord_delta :: "nat \<Rightarrow> real"
  coord_vals :: "nat \<Rightarrow> int"
  cost_multiplier :: int

record OccupancyGrid =
  worldToGrid :: "real \<Rightarrow> real \<Rightarrow> real \<Rightarrow> int \<times> int \<times> int"

subsection \<open>Lattice states, the goal and the lattice\<close>

record ManipLatticeState =
  stateID :: int
  coord :: "int list"
  state :: RobotState
  xyz :: "int \<times> int \<times> int"
  dist_s :: real

text \<open>
  The goal types that the lattice names; \<open>INVALID_GOAL_TYPE\<close> stands for every other
  enumerator, the \<^verbatim>\<open>default\<close> branch of each \<^verbatim>\<open>switch\<close>.
\<close>

datatype GoalType = XYZ_GOAL | XYZ_RPY_GOAL | JOINT_STATE_GOAL | INVALID_GOAL_TYPE

text \<open>
  The fields of \<^verbatim>\<open>GoalConstraint\<close> that the lattice reads and writes. The arrays of
  fixed length 3 are triples.
\<close>

record GoalConstraint =
  goal_type :: GoalType
  pose :: "real list"
  tgt_off_pose :: "real list"
  xyz_offset :: "real \<times> real \<times> real"
  xyz_tolerance :: "real \<times> real \<times> real"
  rpy_tolerance :: "real \<times> real \<times> real"
  angles :: "real list"
  angle_tolerances :: "real list"
  goal_xyz :: "int \<times> int \<times> int"

text \<open>
  The base class \<^verbatim>\<open>RobotPlanningSpace\<close> holds the collaborators; the lattice extends
  it. \<open>m_state_to_id\<close> is the hash map from state pointers to IDs: a list of (key, value)
  pairs, a key compared by the coordinate of the state it points to.
\<close>

record RobotPlanningSpace =
  robot :: RobotModel
  collisionChecker :: CollisionChecker
  params :: PlanningParams
  actionSpace :: "(RobotState \<Rightarrow> Action list option) option"

record ManipLattice = RobotPlanningSpace +
  m_grid :: OccupancyGrid
  m_fk_iface :: "(RobotState \<Rightarrow> real list option) option"
  m_min_limits :: "real list"
  m_max_limits :: "real list"
  m_continuous :: "bool list"
  m_near_goal :: bool
  m_goal :: GoalConstraint
  m_goal_entry :: nat
  m_start_entry :: "nat option"
  m_states :: "ManipLatticeState list"
  m_state_to_id :: "(nat \<times> int) list"
  m_expanded_states :: "int list"

subsection \<open>Coordinates\<close>

text \<open>
  One iteration of the loop of \<^verbatim>\<open>anglesToCoord\<close>, for joint \<open>i\<close>. The division by
  a resolution of zero gives an infinity or a NaN, whose conversion to \<^verbatim>\<open>int\<close> is
  undefined: it does not return.
\<close>

definition anglesToCoord_joint :: "ManipLattice \<Rightarrow> nat \<Rightarrow> real \<Rightarrow> int option" where
  "anglesToCoord_joint L i a = do {
     cont \<leftarrow> nth_opt (m_continuous L) i;
     let delta = coord_delta (params L) i;
     assert_that (delta \<noteq> 0);
     if cont then do {
       let pos_angle = normalize_angle_positive a;
       c \<leftarrow> cast_int ((pos_angle + delta * 0.5) / delta);
       Some (if c = coord_vals (params L) i then 0 else c)
     } else do {
       mn \<leftarrow> nth_opt (m_min_limits L) i;
       cast_int (((a - mn) / delta) + 0.5)
     }
   }"

fun anglesToCoord_loop :: "ManipLattice \<Rightarrow> nat \<Rightarrow> real list \<Rightarrow> int list option" where
  "anglesToCoord_loop L i [] = Some []"
| "anglesToCoord_loop L i (a # as) = do {
     c \<leftarrow> anglesToCoord_joint L i a;
     cs \<leftarrow> anglesToCoord_loop L (Suc i) as;
     Some (c # cs)
   }"

definition anglesToCoord :: "ManipLattice \<Rightarrow> real list \<Rightarrow> int list option" where
  "anglesToCoord L angle = do {
     assert_that (length angle = num_joints (params L));
     anglesToCoord_loop L 0 angle
   }"

definition coordToAngles_joint :: "ManipLattice \<Rightarrow> nat \<Rightarrow> int \<Rightarrow> real option" where
  "coordToAngles_joint L i c = do {
     cont \<leftarrow> nth_opt (m_continuous L) i;
     if cont then Some (of_int c * coord_delta (params L) i)
     else do {
       mn \<leftarrow> nth_opt (m_min_limits L) i;
       Some (mn + of_int c * coord_delta (params L) i)
     }
   }"

fun coordToAngles_loop :: "ManipLattice \<Rightarrow> nat \<Rightarrow> int list \<Rightarrow> real list option" where
  "coordToAngles_loop L i [] = Some []"
| "coordToAngles_loop L i (c # cs) = do {
     a \<leftarrow> coordToAngles_joint L i c;
     as \<leftarrow> coordToAngles_loop L (Suc i) cs;
     Some (a # as)
   }"

definition coordToAngles :: "ManipLattice \<Rightarrow> int list \<Rightarrow> real list option" where
  "coordToAngles L c = coordToAngles_loop L 0 c"

subsection \<open>Rotations\<close>

text \<open>
  \<^verbatim>\<open>Eigen::AngleAxisd\<close> about a unit axis, applied to a vector, and as a unit
  quaternion \<open>(w, x, y, z)\<close>; the product of two angle-axis rotations is the Hamilton
  product of their quaternions.
\<close>

type_synonym vec3 = "real \<times> real \<times> real"
type_synonym quat = "real \<times> real \<times> real \<times> real"

fun rotX :: "real \<Rightarrow> vec3 \<Rightarrow> vec3" where
  "rotX r (x, y, z) = (x, cos r * y - sin r * z, sin r * y + cos r * z)"

fun rotY :: "real \<Rightarrow> vec3 \<Rightarrow> vec3" where
  "rotY p (x, y, z) = (cos p * x + sin p * z, y, - sin p * x + cos p * z)"

fun rotZ :: "real \<Rightarrow> vec3 \<Rightarrow> vec3" where
  "rotZ w (x, y, z) = (cos w * x - sin w * y, sin w * x + cos w * y, z)"

fun quat_mul :: "quat \<Rightarrow> quat \<Rightarrow> quat" where
  "quat_mul (a, b, c, d) (e, f, g, h) =
     (a * e - b * f - c * g - d * h,
      a * f + b * e + c * h - d * g,
      a * g - b * h + c * e + d * f,
      a * h + b * g - c * f + d * e)"

fun quat_dot :: "quat \<Rightarrow> quat \<Rightarrow> real" where
  "quat_dot (a, b, c, d) (e, f, g, h) = a * e + b * f + c * g + d * h"

text \<open>
  \<^verbatim>\<open>Quaterniond(AngleAxisd(yaw, UnitZ) * AngleAxisd(pitch, UnitY) * AngleAxisd(roll, UnitX))\<close>
\<close>

definition quat_of_rpy :: "real \<Rightarrow> real \<Rightarrow> real \<Rightarrow> quat" where
  "quat_of_rpy roll pitch yaw =
     quat_mul (quat_mul (cos (yaw / 2), 0, 0, sin (yaw / 2)) (cos (pitch / 2), 0, sin (pitch / 2), 0))
       (cos (roll / 2), sin (roll / 2), 0, 0)"

text \<open>
  The translation of
  \<^verbatim>\<open>Translation3d(p) * AngleAxisd(yaw, Z) * AngleAxisd(pitch, Y) * AngleAxisd(roll, X) * Translation3d(off)\<close>.
\<close>

definition tipoff_translation :: "vec3 \<Rightarrow> real \<Rightarrow> real \<Rightarrow> real \<Rightarrow> vec3 \<Rightarrow> vec3" where
  "tipoff_translation p roll pitch yaw off =
     (case (p, rotZ yaw (rotY pitch (rotX roll off))) of
        ((px, py, pz), (vx, vy, vz)) \<Rightarrow> (px + vx, py + vy, pz + vz))"

subsection \<open>Forward kinematics with the tip offset\<close>

definition getTargetOffsetPose :: "ManipLattice \<Rightarrow> real list \<Rightarrow> real list option" where
  "getTargetOffsetPose L tip_pose = do {
     assert_that (6 \<le> length tip_pose);
     case tipoff_translation (tip_pose ! 0, tip_pose ! 1, tip_pose ! 2)
            (tip_pose ! 3) (tip_pose ! 4) (tip_pose ! 5) (xyz_offset (m_goal L)) of
       (vx, vy, vz) \<Rightarrow> Some [vx, vy, vz, tip_pose ! 3, tip_pose ! 4, tip_pose ! 5]
   }"

text \<open>
  The result is \<open>Some None\<close> when the function returns \<^verbatim>\<open>false\<close> and
  \<open>Some (Some pose)\<close> when it returns \<^verbatim>\<open>true\<close>.
\<close>

definition computePlanningFrameFK :: "ManipLattice \<Rightarrow> RobotState \<Rightarrow> real list option option" where
  "computePlanningFrameFK L st = do {
     assert_that (length st = num_joints (params L));
     case m_fk_iface L of
       None \<Rightarrow> Some None
     | Some fk \<Rightarrow>
        (case fk st of
           None \<Rightarrow> Some None
         | Some ps \<Rightarrow> do {
             assert_that (6 \<le> length ps);
             case tipoff_translation (ps ! 0, ps ! 1, ps ! 2) (ps ! 3) (ps ! 4) (ps ! 5)
                    (xyz_offset (m_goal L)) of
               (vx, vy, vz) \<Rightarrow> do {
                 assert_that (length ps = 6);
                 Some (Some (ps[0 := vx, 1 := vy, 2 := vz]))
               }
           })
   }"

subsection \<open>The cost of an edge and the goal test\<close>

definition cost :: "ManipLattice \<Rightarrow> nat \<Rightarrow> nat \<Rightarrow> bool \<Rightarrow> int" where
  "cost L HashEntry1 HashEntry2 bState2IsGoal = cost_multiplier (params L)"

text \<open>The loop of the \<^verbatim>\<open>JOINT_STATE_GOAL\<close> case, from joint \<open>i\<close> on.\<close>

fun isGoal_joints :: "RobotState \<Rightarrow> real list \<Rightarrow> nat \<Rightarrow> real list \<Rightarrow> bool option" where
  "isGoal_joints st tols i [] = Some True"
| "isGoal_joints st tols i (g # gs) = do {
     s \<leftarrow> nth_opt st i;
     t \<leftarrow> nth_opt tols i;
     if \<bar>s - g\<bar> > t then Some False else isGoal_joints st tols (Suc i) gs
   }"

text \<open>
  \<open>isGoal\<close> returns its verdict and the lattice, whose "near goal" latch it sets the
  first time a pose is within the position tolerance (the log line it gates is left out).
\<close>

definition isGoal :: "ManipLattice \<Rightarrow> RobotState \<Rightarrow> real list \<Rightarrow> (bool \<times> ManipLattice) option" where
  "isGoal L st ps =
     (case goal_type (m_goal L) of
        JOINT_STATE_GOAL \<Rightarrow> do {
          b \<leftarrow> isGoal_joints st (angle_tolerances (m_goal L)) 0 (angles (m_goal L));
          Some (b, L)
        }
      | XYZ_RPY_GOAL \<Rightarrow> do {
          assert_that (3 \<le> length ps \<and> 3 \<le> length (tgt_off_pose (m_goal L)));
          let dx = \<bar>ps ! 0 - tgt_off_pose (m_goal L) ! 0\<bar>;
          let dy = \<bar>ps ! 1 - tgt_off_pose (m_goal L) ! 1\<bar>;
          let dz = \<bar>ps ! 2 - tgt_off_pose (m_goal L) ! 2\<bar>;
          case xyz_tolerance (m_goal L) of (tx, ty, tz) \<Rightarrow>
            if dx \<le> tx \<and> dy \<le> ty \<and> dz \<le> tz then do {
              let L' = L\<lparr>m_near_goal := True\<rparr>;
              assert_that (6 \<le> length ps \<and> 6 \<le> length (tgt_off_pose (m_goal L)));
              let qg = quat_of_rpy (tgt_off_pose (m_goal L) ! 3) (tgt_off_pose (m_goal L) ! 4)
                         (tgt_off_pose (m_goal L) ! 5);
              let q = quat_of_rpy (ps ! 3) (ps ! 4) (ps ! 5);
              let theta = normalize_angle (2.0 * arccos (quat_dot q qg));
              Some (theta < fst (rpy_tolerance (m_goal L)), L')
            } else Some (False, L)
        }
      | XYZ_GOAL \<Rightarrow> do {
          assert_that (3 \<le> length ps \<and> 3 \<le> length (tgt_off_pose (m_goal L)));
          case xyz_tolerance (m_goal L) of (tx, ty, tz) \<Rightarrow>
            Some (\<bar>ps ! 0 - tgt_off_pose (m_goal L) ! 0\<bar> \<le> tx \<and>
                  \<bar>ps ! 1 - tgt_off_pose (m_goal L) ! 1\<bar> \<le> ty \<and>
                  \<bar>ps ! 2 - tgt_off_pose (m_goal L) ! 2\<bar> \<le> tz, L)
        }
      | INVALID_GOAL_TYPE \<Rightarrow> Some (False, L))"

subsection \<open>Validation of an action\<close>

text \<open>The third loop of \<open>checkAction\<close>: the segments between consecutive waypoints.\<close>

fun checkAction_between :: "CollisionChecker \<Rightarrow> RobotState \<Rightarrow> Action \<Rightarrow> real \<Rightarrow> bool \<times> real" where
  "checkAction_between cc prev_istate [] d = (True, d)"
| "checkAction_between cc prev_istate (curr_istate # rest) d =
     (case isStateToStateValid cc prev_istate curr_istate of
        (ok, d') \<Rightarrow> if \<not> ok then (False, d') else checkAction_between cc curr_istate rest d')"

text \<open>The verdict and the value left in the output argument \<open>dist\<close>.\<close>

definition checkAction :: "ManipLattice \<Rightarrow> RobotState \<Rightarrow> Action \<Rightarrow> (bool \<times> real) option" where
  "checkAction L st action =
     (if \<not> list_all (checkJointLimits (robot L)) action then Some (False, 0)
      else do {
        a0 \<leftarrow> nth_opt action 0;
        case isStateToStateValid (collisionChecker L) st a0 of
          (ok, d) \<Rightarrow>
            if \<not> ok then Some (False, d)
            else Some (checkAction_between (collisionChecker L) a0 (tl action) d)
      })"

subsection \<open>The state table\<close>

text \<open>\<open>find\<close> on the hash map: the key whose state has the coordinate looked up.\<close>

definition getHashEntry :: "ManipLattice \<Rightarrow> int list \<Rightarrow> nat option" where
  "getHashEntry L c =
     map_option fst (find (\<lambda>(k, v). coord (m_states L ! k) = c) (m_state_to_id L))"

text \<open>
  \<^verbatim>\<open>m_state_to_id[entry] = id\<close>: the value of an equal key is replaced, and the pair is
  inserted when there is none.
\<close>

fun hash_map_assign ::
  "ManipLatticeState list \<Rightarrow> (nat \<times> int) list \<Rightarrow> nat \<Rightarrow> int \<Rightarrow> (nat \<times> int) list" where
  "hash_map_assign S [] p v = [(p, v)]"
| "hash_map_assign S ((k, w) # t) p v =
     (if coord (S ! k) = coord (S ! p) then (k, v) # t else (k, w) # hash_map_assign S t p v)"

definition createHashEntry ::
  "ManipLattice \<Rightarrow> int list \<Rightarrow> RobotState \<Rightarrow> real \<Rightarrow> int \<times> int \<times> int \<Rightarrow> nat \<times> ManipLattice" where
  "createHashEntry L c st d endeff =
     (let p = length (m_states L);
          entry = \<lparr>stateID = int (length (m_states L)), coord = c, state = st,
                   xyz = endeff, dist_s = d\<rparr>;
          S = m_states L @ [entry]
      in (p, L\<lparr>m_states := S,
               m_state_to_id := hash_map_assign S (m_state_to_id L) p (stateID entry)\<rparr>))"

definition getOrCreateState ::
  "ManipLattice \<Rightarrow> int list \<Rightarrow> RobotState \<Rightarrow> real \<Rightarrow> int \<times> int \<times> int \<Rightarrow> nat \<times> ManipLattice" where
  "getOrCreateState L c st d endeff =
     (case getHashEntry L c of
        None \<Rightarrow> createHashEntry L c st d endeff
      | Some entry \<Rightarrow> (entry, L))"

subsection \<open>Construction\<close>

text \<open>
  The constructor. \<open>g0\<close> is the default-constructed \<^verbatim>\<open>GoalConstraint\<close>, whose
  declaration is not among the sources. The action space is set later, by the base class.
\<close>

definition ManipLattice_ctor ::
  "RobotModel \<Rightarrow> CollisionChecker \<Rightarrow> PlanningParams \<Rightarrow> OccupancyGrid \<Rightarrow> GoalConstraint \<Rightarrow> ManipLattice" where
  "ManipLattice_ctor robot_model checker prms grid g0 =
     (let L0 = \<lparr>robot = robot_model, collisionChecker = checker, params = prms,
                actionSpace = None,
                m_grid = grid,
                m_fk_iface = computePlanningLinkFK robot_model,
                m_min_limits = map (minPosLimit robot_model) [0..<num_joints prms],
                m_max_limits = map (maxPosLimit robot_model) [0..<num_joints prms],
                m_continuous = map (\<lambda>jidx. \<not> hasPosLimit robot_model jidx) [0..<num_joints prms],
                m_near_goal = False,
                m_goal = g0,
                m_goal_entry = 0,
                m_start_entry = None,
                m_states = [],
                m_state_to_id = [],
                m_expanded_states = []\<rparr>
      in case createHashEntry L0 (replicate (num_joints prms) 0) [] 0 (0, 0, 0) of
           (entry, L1) \<Rightarrow> L1\<lparr>m_goal_entry := entry\<rparr>)"

definition setActionSpace :: "ManipLattice \<Rightarrow> (RobotState \<Rightarrow> Action list option) \<Rightarrow> ManipLattice" where
  "setActionSpace L as = L\<lparr>actionSpace := Some as\<rparr>"

definition getGoalStateID :: "ManipLattice \<Rightarrow> int" where
  "getGoalStateID L = stateID (m_states L ! m_goal_entry L)"

definition getStartStateID :: "ManipLattice \<Rightarrow> int" where
  "getStartStateID L =
     (case m_start_entry L of None \<Rightarrow> - 1 | Some s \<Rightarrow> stateID (m_states L ! s))"

subsection \<open>Successors\<close>

text \<open>
  The loop of \<open>GetSuccs\<close> over the actions. The accumulator is the successor list, the
  cost list and the lattice. \<open>parent_entry\<close> points to a state that no iteration
  changes, so its joint values are read once.
\<close>

fun GetSuccs_loop ::
  "nat \<Rightarrow> RobotState \<Rightarrow> Action list \<Rightarrow> int list \<times> int list \<times> ManipLattice
     \<Rightarrow> (int list \<times> int list \<times> ManipLattice) option" where
  "GetSuccs_loop parent_entry pst [] acc = Some acc"
| "GetSuccs_loop parent_entry pst (action # rest) (succs, costs, L) = do {
     (ok, d) \<leftarrow> checkAction L pst action;
     if \<not> ok then GetSuccs_loop parent_entry pst rest (succs, costs, L)
     else do {
       w \<leftarrow> vector_back action;
       succ_coord \<leftarrow> anglesToCoord L w;
       fk \<leftarrow> computePlanningFrameFK L w;
       case fk of
         None \<Rightarrow> GetSuccs_loop parent_entry pst rest (succs, costs, L)
       | Some off_pose \<Rightarrow> do {
           assert_that (3 \<le> length off_pose);
           let endeff = worldToGrid (m_grid L) (off_pose ! 0) (off_pose ! 1) (off_pose ! 2);
           (succ_entry, L1) \<leftarrow> Some (getOrCreateState L succ_coord w d endeff);
           (is_goal_succ, L2) \<leftarrow> isGoal L1 w off_pose;
           let sid = (if is_goal_succ then stateID (m_states L2 ! m_goal_entry L2)
                      else stateID (m_states L2 ! succ_entry));
           GetSuccs_loop parent_entry pst rest
             (succs @ [sid], costs @ [cost L2 parent_entry succ_entry is_goal_succ], L2)
         }
     }
   }"

definition GetSuccs :: "ManipLattice \<Rightarrow> int \<Rightarrow> (int list \<times> int list \<times> ManipLattice) option" where
  "GetSuccs L state_id = do {
     assert_that (0 \<le> state_id \<and> state_id < int (length (m_states L)));
     case actionSpace L of
       None \<Rightarrow> Some ([], [], L)
     | Some action_space \<Rightarrow>
         if state_id = stateID (m_states L ! m_goal_entry L) then Some ([], [], L)
         else do {
           let parent_entry = nat state_id;
           assert_that (length (coord (m_states L ! parent_entry)) \<ge> num_joints (params L));
           case action_space (state (m_states L ! parent_entry)) of
             None \<Rightarrow> Some ([], [], L)
           | Some actions \<Rightarrow> do {
               (succs, costs, L') \<leftarrow>
                 GetSuccs_loop parent_entry (state (m_states L ! parent_entry)) actions ([], [], L);
               Some (succs, costs, L'\<lparr>m_expanded_states := m_expanded_states L' @ [state_id]\<rparr>)
             }
         }
   }"

text \<open>
  The loop of \<open>GetLazySuccs\<close>: no \<open>checkAction\<close>, the distance \<open>0.0\<close> for a state
  it creates, and every cost marked as not true.
\<close>

fun GetLazySuccs_loop ::
  "nat \<Rightarrow> Action list \<Rightarrow> int list \<times> int list \<times> bool list \<times> ManipLattice
     \<Rightarrow> (int list \<times> int list \<times> bool list \<times> ManipLattice) option" where
  "GetLazySuccs_loop state_entry [] acc = Some acc"
| "GetLazySuccs_loop state_entry (action # rest) (SuccIDV, CostV, isTrueCost, L) = do {
     w \<leftarrow> vector_back action;
     succ_coord \<leftarrow> anglesToCoord L w;
     fk \<leftarrow> computePlanningFrameFK L w;
     case fk of
       None \<Rightarrow> GetLazySuccs_loop state_entry rest (SuccIDV, CostV, isTrueCost, L)
     | Some off_pose \<Rightarrow> do {
         assert_that (3 \<le> length off_pose);
         let endeff = worldToGrid (m_grid L) (off_pose ! 0) (off_pose ! 1) (off_pose ! 2);
         (succ_is_goal_state, L1) \<leftarrow> isGoal L w off_pose;
         (succ_entry, L2) \<leftarrow> Some (getOrCreateState L1 succ_coord w 0.0 endeff);
         let sid = (if succ_is_goal_state then stateID (m_states L2 ! m_goal_entry L2)
                    else stateID (m_states L2 ! succ_entry));
         GetLazySuccs_loop state_entry rest
           (SuccIDV @ [sid], CostV @ [cost L2 state_entry succ_entry succ_is_goal_state],
            isTrueCost @ [False], L2)
       }
   }"

definition GetLazySuccs ::
  "ManipLattice \<Rightarrow> int \<Rightarrow> (int list \<times> int list \<times> bool list \<times> ManipLattice) option" where
  "GetLazySuccs L SourceStateID = do {
     assert_that (0 \<le> SourceStateID \<and> SourceStateID < int (length (m_states L)));
     case actionSpace L of
       None \<Rightarrow> Some ([], [], [], L)
     | Some action_space \<Rightarrow>
         if SourceStateID = stateID (m_states L ! m_goal_entry L) then Some ([], [], [], L)
         else do {
           let state_entry = nat SourceStateID;
           assert_that (length (coord (m_states L ! state_entry)) \<ge> num_joints (params L));
           case action_space (state (m_states L ! state_entry)) of
             None \<Rightarrow> Some ([], [], [], L)
           | Some actions \<Rightarrow> do {
               (SuccIDV, CostV, isTrueCost, L') \<leftarrow>
                 GetLazySuccs_loop state_entry actions ([], [], [], L);
               Some (SuccIDV, CostV, isTrueCost,
                     L'\<lparr>m_expanded_states := m_expanded_states L' @ [SourceStateID]\<rparr>)
             }
         }
   }"

subsection \<open>The true cost of a transition\<close>

text \<open>The loop of \<open>GetTrueCost\<close>; the accumulator is \<open>best_cost\<close> and the lattice.\<close>

fun GetTrueCost_loop ::
  "nat \<Rightarrow> nat \<Rightarrow> RobotState \<Rightarrow> bool \<Rightarrow> Action list \<Rightarrow> int \<times> ManipLattice
     \<Rightarrow> (int \<times> ManipLattice) option" where
  "GetTrueCost_loop parent_entry child_entry parent_angles goal_edge [] acc = Some acc"
| "GetTrueCost_loop parent_entry child_entry parent_angles goal_edge (action # rest) (best_cost, L) = do {
     w \<leftarrow> vector_back action;
     succ_coord \<leftarrow> anglesToCoord L w;
     fk \<leftarrow> computePlanningFrameFK L w;
     case fk of
       None \<Rightarrow> GetTrueCost_loop parent_entry child_entry parent_angles goal_edge rest (best_cost, L)
     | Some off_pose \<Rightarrow> do {
         (reaches, L1) \<leftarrow>
           (if goal_edge then isGoal L w off_pose
            else Some (succ_coord = coord (m_states L ! child_entry), L));
         if \<not> reaches
         then GetTrueCost_loop parent_entry child_entry parent_angles goal_edge rest (best_cost, L1)
         else do {
           (ok, d) \<leftarrow> checkAction L1 parent_angles action;
           if \<not> ok
           then GetTrueCost_loop parent_entry child_entry parent_angles goal_edge rest (best_cost, L1)
           else do {
             succ_entry \<leftarrow> (if goal_edge then getHashEntry L1 succ_coord else Some child_entry);
             (is_goal, L2) \<leftarrow> isGoal L1 w off_pose;
             let edge_cost = cost L2 parent_entry succ_entry is_goal;
             GetTrueCost_loop parent_entry child_entry parent_angles goal_edge rest
               (if edge_cost < best_cost then edge_cost else best_cost, L2)
           }
         }
       }
   }"

definition GetTrueCost :: "ManipLattice \<Rightarrow> int \<Rightarrow> int \<Rightarrow> (int \<times> ManipLattice) option" where
  "GetTrueCost L parentID childID = do {
     assert_that (0 \<le> parentID \<and> parentID < int (length (m_states L)));
     assert_that (0 \<le> childID \<and> childID < int (length (m_states L)));
     let parent_entry = nat parentID;
     let child_entry = nat childID;
     assert_that (length (coord (m_states L ! parent_entry)) \<ge> num_joints (params L));
     assert_that (length (coord (m_states L ! child_entry)) \<ge> num_joints (params L));
     let parent_angles = state (m_states L ! parent_entry);
     case actionSpace L of
       None \<Rightarrow> Some (- 1, L)
     | Some action_space \<Rightarrow>
        (case action_space parent_angles of
           None \<Rightarrow> Some (- 1, L)
         | Some actions \<Rightarrow> do {
             let goal_edge = (child_entry = m_goal_entry L);
             (best_cost, L') \<leftarrow>
               GetTrueCost_loop parent_entry child_entry parent_angles goal_edge actions (INT_MAX, L);
             if best_cost \<noteq> INT_MAX then Some (best_cost, L') else Some (- 1, L')
           })
   }"

subsection \<open>Start and goal\<close>

text \<open>
  Each of these returns the \<^verbatim>\<open>bool\<close> of the source and the lattice. The
  notification of the base class's observers is left out.
\<close>

definition setStart :: "ManipLattice \<Rightarrow> RobotState \<Rightarrow> (bool \<times> ManipLattice) option" where
  "setStart L st =
     (if int (length st) < int (num_joints (params L)) then Some (False, L)
      else do {
        fk \<leftarrow> computePlanningFrameFK L st;
        case fk of
          None \<Rightarrow> Some (False, L)
        | Some ps \<Rightarrow>
            if \<not> checkJointLimits (robot L) st then Some (False, L)
            else (case isStateValid (collisionChecker L) st of
              (valid, d) \<Rightarrow>
                if \<not> valid then Some (False, L)
                else do {
                  start_coord \<leftarrow> anglesToCoord L st;
                  assert_that (3 \<le> length ps);
                  let endeff = worldToGrid (m_grid L) (ps ! 0) (ps ! 1) (ps ! 2);
                  (start_entry, L1) \<leftarrow> Some (getOrCreateState L start_coord st d endeff);
                  Some (True, L1\<lparr>m_start_entry := Some start_entry\<rparr>)
                })
      })"

text \<open>
  \<^verbatim>\<open>m_goal_entry->coord[i] = 0\<close> for every \<open>i\<close> below the number of joints: a write
  outside the vector does not return.
\<close>

definition zero_coord :: "nat \<Rightarrow> int list \<Rightarrow> int list option" where
  "zero_coord n c = do {
     assert_that (n \<le> length c);
     Some (replicate n 0 @ drop n c)
   }"

text \<open>
  \<open>gt_of_int\<close> is the cast \<^verbatim>\<open>(GoalType)(int)\<close>, fixed by the declaration of the
  enumeration, which is not among the sources.
\<close>

definition setGoalPosition ::
  "(int \<Rightarrow> GoalType) \<Rightarrow> ManipLattice \<Rightarrow> real list list \<Rightarrow> real list list \<Rightarrow> real list list
     \<Rightarrow> (bool \<times> ManipLattice) option" where
  "setGoalPosition gt_of_int L goals offsets tolerances =
     (if goals = [] then Some (False, L)
      else if \<not> list_all (\<lambda>goal. length goal = 7) goals then Some (False, L)
      else if length offsets \<noteq> length goals then Some (False, L)
      else if \<not> list_all (\<lambda>offset. length offset = 3) offsets then Some (False, L)
      else if length tolerances \<noteq> length goals then Some (False, L)
      else if \<not> list_all (\<lambda>tol. length tol = 6) tolerances then Some (False, L)
      else do {
        goals0 \<leftarrow> nth_opt goals 0;
        offsets0 \<leftarrow> nth_opt offsets 0;
        tolerances0 \<leftarrow> nth_opt tolerances 0;
        flag \<leftarrow> cast_int (goals0 ! 6);
        let G = (m_goal L)\<lparr>pose := goals0,
                  xyz_offset := (offsets0 ! 0, offsets0 ! 1, offsets0 ! 2),
                  xyz_tolerance := (tolerances0 ! 0, tolerances0 ! 1, tolerances0 ! 2),
                  rpy_tolerance := (tolerances0 ! 3, tolerances0 ! 4, tolerances0 ! 5),
                  goal_type := gt_of_int flag\<rparr>;
        let L1 = L\<lparr>m_goal := G\<rparr>;
        off_pose \<leftarrow> getTargetOffsetPose L1 (pose (m_goal L1));
        let G' = G\<lparr>tgt_off_pose := off_pose,
                   goal_xyz := worldToGrid (m_grid L) (off_pose ! 0) (off_pose ! 1) (off_pose ! 2)\<rparr>;
        goal_entry \<leftarrow> nth_opt (m_states L) (m_goal_entry L);
        zc \<leftarrow> zero_coord (num_joints (params L)) (coord goal_entry);
        Some (True, L\<lparr>m_goal := G', m_near_goal := False,
                      m_states := (m_states L)[m_goal_entry L := goal_entry\<lparr>coord := zc\<rparr>]\<rparr>)
      })"

definition setGoalConfiguration ::
  "(int \<Rightarrow> GoalType) \<Rightarrow> ManipLattice \<Rightarrow> real list \<Rightarrow> real list \<Rightarrow> (bool \<times> ManipLattice) option" where
  "setGoalConfiguration gt_of_int L goal goal_tolerances = do {
     fk \<leftarrow> computePlanningFrameFK L goal;
     case fk of
       None \<Rightarrow> Some (False, L)
     | Some ps \<Rightarrow> do {
         let goals_6dof = [ps];
         let offsets_6dof = replicate 1 (replicate 3 0.0);
         let tolerances_6dof = replicate 1 (replicate 6 0.05);
         (ok, L1) \<leftarrow> setGoalPosition gt_of_int L goals_6dof offsets_6dof tolerances_6dof;
         if \<not> ok then Some (False, L1)
         else Some (True, L1\<lparr>m_goal := (m_goal L1)\<lparr>angles := goal,
                                  angle_tolerances := goal_tolerances,
                                  goal_type := JOINT_STATE_GOAL\<rparr>\<rparr>)
       }
   }"

fun array3 :: "'a \<times> 'a \<times> 'a \<Rightarrow> 'a list" where
  "array3 (a, b, c) = [a, b, c]"

definition setGoal :: "(int \<Rightarrow> GoalType) \<Rightarrow> ManipLattice \<Rightarrow> GoalConstraint \<Rightarrow> (bool \<times> ManipLattice) option" where
  "setGoal gt_of_int L goal =
     (case goal_type goal of
        JOINT_STATE_GOAL \<Rightarrow> setGoalConfiguration gt_of_int L (angles goal) (angle_tolerances goal)
      | INVALID_GOAL_TYPE \<Rightarrow> Some (False, L)
      | _ \<Rightarrow> setGoalPosition gt_of_int L [pose goal] [tgt_off_pose goal]
               [array3 (xyz_tolerance goal) @ array3 (rpy_tolerance goal)])"

subsection \<open>Path extraction\<close>

text \<open>
  \<open>StateID2Angles\<close> checks its index itself: here \<open>None\<close> is the result
  \<^verbatim>\<open>false\<close>, and \<open>Some\<close> holds the joint values it returns.
\<close>

definition StateID2Angles :: "ManipLattice \<Rightarrow> int \<Rightarrow> RobotState option" where
  "StateID2Angles L sid =
     (if sid < 0 \<or> sid \<ge> int (length (m_states L)) then None
      else if sid = stateID (m_states L ! m_goal_entry L) then None
      else Some (state (m_states L ! nat sid)))"

text \<open>
  The inner loop of \<open>extractPath\<close> over the actions of the state before the goal; the
  accumulator is \<open>best_cost\<close>, \<open>best_goal_state\<close> and the lattice.
\<close>

fun extractPath_goal_loop ::
  "nat \<Rightarrow> RobotState \<Rightarrow> Action list \<Rightarrow> int \<times> nat option \<times> ManipLattice
     \<Rightarrow> (int \<times> nat option \<times> ManipLattice) option" where
  "extractPath_goal_loop prev_entry prev_state [] acc = Some acc"
| "extractPath_goal_loop prev_entry prev_state (action # rest) (best_cost, best_goal_state, L) = do {
     w \<leftarrow> vector_back action;
     fk \<leftarrow> computePlanningFrameFK L w;
     case fk of
       None \<Rightarrow> extractPath_goal_loop prev_entry prev_state rest (best_cost, best_goal_state, L)
     | Some off_pose \<Rightarrow> do {
         (g, L1) \<leftarrow> isGoal L w off_pose;
         if \<not> g
         then extractPath_goal_loop prev_entry prev_state rest (best_cost, best_goal_state, L1)
         else do {
           (ok, d) \<leftarrow> checkAction L1 prev_state action;
           if \<not> ok
           then extractPath_goal_loop prev_entry prev_state rest (best_cost, best_goal_state, L1)
           else do {
             succ_coord \<leftarrow> anglesToCoord L1 w;
             succ_entry \<leftarrow> getHashEntry L1 succ_coord;
             let edge_cost = cost L1 prev_entry succ_entry True;
             extractPath_goal_loop prev_entry prev_state rest
               (if edge_cost < best_cost then (edge_cost, Some succ_entry, L1)
                else (best_cost, best_goal_state, L1))
           }
         }
       }
   }"

text \<open>
  The outer loop, from position \<open>i \<ge> 1\<close> on: \<open>prev_id\<close> is \<open>idpath[i - 1]\<close> and the
  list is \<open>idpath[i..]\<close>. The result is the \<^verbatim>\<open>bool\<close>, the points pushed on
  \<open>opath\<close> and the lattice.
\<close>

fun extractPath_loop ::
  "(RobotState \<Rightarrow> Action list option) \<Rightarrow> int \<Rightarrow> int list \<Rightarrow> RobotState list \<times> ManipLattice
     \<Rightarrow> (bool \<times> RobotState list \<times> ManipLattice) option" where
  "extractPath_loop action_space prev_id [] (opath, L) = Some (True, opath, L)"
| "extractPath_loop action_space prev_id (curr_id # rest) (opath, L) =
     (if prev_id = getGoalStateID L then Some (False, opath, L)
      else if curr_id = getGoalStateID L then do {
        assert_that (0 \<le> prev_id \<and> prev_id < int (length (m_states L)));
        let prev_entry = nat prev_id;
        let prev_state = state (m_states L ! prev_entry);
        case action_space prev_state of
          None \<Rightarrow> Some (False, opath, L)
        | Some actions \<Rightarrow> do {
            (best_cost, best_goal_state, L') \<leftarrow>
              extractPath_goal_loop prev_entry prev_state actions (INT_MAX, None, L);
            case best_goal_state of
              None \<Rightarrow> Some (False, opath, L')
            | Some b \<Rightarrow>
                extractPath_loop action_space curr_id rest (opath @ [state (m_states L' ! b)], L')
          }
      }
      else (case StateID2Angles L curr_id of
              None \<Rightarrow> Some (False, opath, L)
            | Some curr_state \<Rightarrow>
                extractPath_loop action_space curr_id rest (opath @ [curr_state], L)))"

text \<open>
  \<open>path\<close> is the output argument: the source assigns it only at the end of the general
  case, so the result holds the caller's vector everywhere else.
\<close>

definition extractPath ::
  "ManipLattice \<Rightarrow> int list \<Rightarrow> RobotState list \<Rightarrow> (bool \<times> RobotState list \<times> ManipLattice) option" where
  "extractPath L idpath path =
     (if length idpath = 1 then
        (let state_id = idpath ! 0 in
         if state_id = getGoalStateID L then
           (case StateID2Angles L (getStartStateID L) of
              None \<Rightarrow> Some (False, path, L)
            | Some a \<Rightarrow> Some (True, path, L))
         else
           (case StateID2Angles L state_id of
              None \<Rightarrow> Some (False, path, L)
            | Some a \<Rightarrow> Some (True, path, L)))
      else do {
        id0 \<leftarrow> nth_opt idpath 0;
        if id0 = getGoalStateID L then Some (False, path, L)
        else (case StateID2Angles L id0 of
          None \<Rightarrow> Some (False, path, L)
        | Some a \<Rightarrow>
           (case actionSpace L of
              None \<Rightarrow> Some (False, path, L)
            | Some action_space \<Rightarrow> do {
                (ok, opath, L') \<leftarrow> extractPath_loop action_space id0 (tl idpath) ([a], L);
                if ok then Some (True, opath, L') else Some (False, path, L')
              }))
      })"

section \<open>The invariant of the state table\<close>

text \<open>
  Every state has its index as ID and is the entry that the table finds for its own
  coordinate; every key of the table is a live state, mapped to its ID; the reserved goal
  entry is a live state whose coordinate is all zeros; the start entry, once set, is a
  live state.
\<close>

definition lattice_inv :: "ManipLattice \<Rightarrow> bool" where
  "lattice_inv L \<longleftrightarrow>
     m_goal_entry L < length (m_states L) \<and>
     (\<forall>i < length (m_states L). stateID (m_states L ! i) = int i \<and>
        getHashEntry L (coord (m_states L ! i)) = Some i) \<and>
     (\<forall>(k, v) \<in> set (m_state_to_id L). k < length (m_states L) \<and> v = int k) \<and>
     coord (m_states L ! m_goal_entry L) = replicate (num_joints (params L)) 0 \<and>
     (\<forall>s. m_start_entry L = Some s \<longrightarrow> s < length (m_states L))"

text \<open>
  \<open>lattice_extends L L'\<close>: \<open>L'\<close> is \<open>L\<close> with more states, a table that still finds
  every state it found, and possibly other values of the latch and the expansion log.
\<close>

definition lattice_extends :: "ManipLattice \<Rightarrow> ManipLattice \<Rightarrow> bool" where
  "lattice_extends L L' \<longleftrightarrow>
     L' = L\<lparr>m_states := m_states L', m_state_to_id := m_state_to_id L',
            m_near_goal := m_near_goal L', m_expanded_states := m_expanded_states L'\<rparr> \<and>
     (\<exists>ext. m_states L' = m_states L @ ext) \<and>
     (\<forall>c q. getHashEntry L c = Some q \<longrightarrow> getHashEntry L' c = Some q)"

section \<open>Predicates of the statements\<close>

text \<open>
  \<open>discretization_ok\<close>: the per-joint arrays have one element per joint, every
  resolution is positive, the bins of a continuous joint cover the circle exactly
  (\<open>coord_vals * coord_delta = 2\<pi>\<close>, the spec's "number of bins \<open>2\<pi>/\<Delta>\<close>"), and the
  largest coordinate of every joint is an \<^verbatim>\<open>int\<close>. \<open>within_limits\<close>: every
  joint that has limits is within them. \<open>roundtrip_close\<close>: every component is within
  half a resolution of the original, modulo \<open>2\<pi>\<close> for a continuous joint.
\<close>

definition discretization_ok :: "ManipLattice \<Rightarrow> bool" where
  "discretization_ok L \<longleftrightarrow>
     length (m_continuous L) = num_joints (params L) \<and>
     length (m_min_limits L) = num_joints (params L) \<and>
     length (m_max_limits L) = num_joints (params L) \<and>
     (\<forall>i < num_joints (params L).
        0 < coord_delta (params L) i \<and>
        (if m_continuous L ! i
         then of_int (coord_vals (params L) i) * coord_delta (params L) i = 2 * pi \<and>
              coord_vals (params L) i \<le> INT_MAX
         else (m_max_limits L ! i - m_min_limits L ! i) / coord_delta (params L) i + 1 / 2
                < of_int INT_MAX + 1))"

definition within_limits :: "ManipLattice \<Rightarrow> RobotState \<Rightarrow> bool" where
  "within_limits L q \<longleftrightarrow>
     (\<forall>i < length q. \<not> m_continuous L ! i \<longrightarrow>
        m_min_limits L ! i \<le> q ! i \<and> q ! i \<le> m_max_limits L ! i)"

definition roundtrip_close :: "ManipLattice \<Rightarrow> RobotState \<Rightarrow> RobotState \<Rightarrow> bool" where
  "roundtrip_close L q q' \<longleftrightarrow>
     length q' = length q \<and>
     (\<forall>i < length q.
        if m_continuous L ! i
        then \<exists>k :: int. \<bar>q' ! i - q ! i + 2 * pi * of_int k\<bar> \<le> coord_delta (params L) i / 2
        else \<bar>q' ! i - q ! i\<bar> \<le> coord_delta (params L) i / 2)"

text \<open>
  \<open>enumerated_actions\<close>: the actions the action space returns for a configuration (none
  when it is absent or fails). \<open>edge_generated\<close>: the action passes \<open>checkAction\<close> from
  the source configuration and the forward kinematics of its last waypoint succeeds.
  \<open>edge_label L L' a sid\<close>: \<open>sid\<close> is the ID reported for the action \<open>a\<close>, where \<open>L\<close>
  is the lattice before the expansion and \<open>L'\<close> the lattice after it: when the last
  waypoint satisfies \<open>isGoal\<close>, the ID of the reserved goal entry, which differs from the
  ID of the state that the table holds for the waypoint's coordinate unless that state is
  the goal entry itself; otherwise the ID of the state of that coordinate.
\<close>

definition enumerated_actions :: "ManipLattice \<Rightarrow> RobotState \<Rightarrow> Action list" where
  "enumerated_actions L st =
     (case actionSpace L of
        None \<Rightarrow> []
      | Some action_space \<Rightarrow> (case action_space st of None \<Rightarrow> [] | Some actions \<Rightarrow> actions))"

definition edge_generated :: "ManipLattice \<Rightarrow> RobotState \<Rightarrow> Action \<Rightarrow> bool" where
  "edge_generated L pst a \<longleftrightarrow>
     (case checkAction L pst a of
        Some (ok, d) \<Rightarrow>
          ok \<and> (case vector_back a of
                  Some w \<Rightarrow> (case computePlanningFrameFK L w of Some (Some ps) \<Rightarrow> True | _ \<Rightarrow> False)
                | None \<Rightarrow> False)
      | None \<Rightarrow> False)"

definition edge_label :: "ManipLattice \<Rightarrow> ManipLattice \<Rightarrow> Action \<Rightarrow> int \<Rightarrow> bool" where
  "edge_label L L' a sid \<longleftrightarrow>
     (\<exists>w c ps b Lg e.
        vector_back a = Some w \<and> anglesToCoord L w = Some c \<and>
        computePlanningFrameFK L w = Some (Some ps) \<and> isGoal L w ps = Some (b, Lg) \<and>
        getHashEntry L' c = Some e \<and>
        (if b then sid = getGoalStateID L' \<and> (e \<noteq> m_goal_entry L' \<longrightarrow> sid \<noteq> stateID (m_states L' ! e))
         else sid = stateID (m_states L' ! e)))"

text \<open>
  \<open>transition_valid L pst child a\<close>: the forward kinematics of the last waypoint of \<open>a\<close>
  succeeds, the action reaches the child (its last waypoint satisfies \<open>isGoal\<close> when the
  child is the reserved goal entry, and has the child's coordinate otherwise), and the
  action passes \<open>checkAction\<close> from the parent's configuration \<open>pst\<close>.
\<close>

definition transition_valid :: "ManipLattice \<Rightarrow> RobotState \<Rightarrow> nat \<Rightarrow> Action \<Rightarrow> bool" where
  "transition_valid L pst child a \<longleftrightarrow>
     (case vector_back a of
        None \<Rightarrow> False
      | Some w \<Rightarrow>
         (case computePlanningFrameFK L w of
            Some (Some ps) \<Rightarrow>
              (if child = m_goal_entry L
               then (case isGoal L w ps of Some (b, Lg) \<Rightarrow> b | None \<Rightarrow> False)
               else anglesToCoord L w = Some (coord (m_states L ! child))) \<and>
              (case checkAction L pst a of Some (ok, d) \<Rightarrow> ok | None \<Rightarrow> False)
          | _ \<Rightarrow> False))"

text \<open>
  \<open>goal_resynthesis L prev_entry cfg\<close>: some enumerated action of the state
  \<open>prev_entry\<close> is a valid transition to the reserved goal entry, the cost multiplier is
  below \<^verbatim>\<open>INT_MAX\<close>, and \<open>cfg\<close> is the stored configuration of the state that the
  table holds for the destination coordinate of the first such action (every edge costs
  the cost multiplier, so the first one is the first of minimum cost).
\<close>

definition goal_resynthesis :: "ManipLattice \<Rightarrow> nat \<Rightarrow> RobotState \<Rightarrow> bool" where
  "goal_resynthesis L prev_entry cfg \<longleftrightarrow>
     (let Q = filter (transition_valid L (state (m_states L ! prev_entry)) (m_goal_entry L))
                (enumerated_actions L (state (m_states L ! prev_entry)))
      in Q \<noteq> [] \<and> cost_multiplier (params L) < INT_MAX \<and>
         (\<exists>w c e. vector_back (hd Q) = Some w \<and> anglesToCoord L w = Some c \<and>
            getHashEntry L c = Some e \<and> cfg = state (m_states L ! e)))"

text \<open>
  \<open>fk_pose_ok L q\<close>: the forward kinematics of \<open>q\<close>, when there is one, is a pose of 6
  elements. \<open>coord_defined L q\<close>: a configuration with one position per joint has a
  discrete coordinate (as it has under \<open>discretization_ok\<close> and \<open>within_limits\<close>).
\<close>

definition fk_pose_ok :: "ManipLattice \<Rightarrow> RobotState \<Rightarrow> bool" where
  "fk_pose_ok L q \<longleftrightarrow> (\<forall>fk ps. m_fk_iface L = Some fk \<longrightarrow> fk q = Some ps \<longrightarrow> length ps = 6)"

definition coord_defined :: "ManipLattice \<Rightarrow> RobotState \<Rightarrow> bool" where
  "coord_defined L q \<longleftrightarrow> (length q = num_joints (params L) \<longrightarrow> anglesToCoord L q \<noteq> None)"

text \<open>
  The rotation error in the spec's words, \<open>normalize(2 acos |q . q_goal|)\<close>, for a pose
  and a goal pose \<open>[x, y, z, roll, pitch, yaw]\<close>: the definition to compare \<open>isGoal\<close>
  with.
\<close>

definition rotation_error_spec :: "real list \<Rightarrow> real list \<Rightarrow> real" where
  "rotation_error_spec ps g =
     normalize_angle (2 * arccos \<bar>quat_dot (quat_of_rpy (ps ! 3) (ps ! 4) (ps ! 5))
                                        (quat_of_rpy (g ! 3) (g ! 4) (g ! 5))\<bar>)"

text \<open>
  When the calls return. \<open>goal_defined\<close>: the goal has the elements that \<open>isGoal\<close>
  reads (a pose goal its offset pose, a joint goal no more angles than there are joints
  and tolerances). \<open>action_defined L a\<close>: the action has a last waypoint with one
  position per joint, which has a discrete coordinate and, when its forward kinematics
  succeeds, a pose of 6 elements. \<open>goal_successors_defined L s\<close>: every enumerated action
  of the state \<open>s\<close> is defined, and the table holds a state for the destination of each
  one that is a valid transition to the reserved goal entry (as after \<open>GetSuccs\<close> on
  \<open>s\<close>). \<open>expansion_defined\<close>, \<open>true_cost_defined\<close> and \<open>extraction_defined\<close> are
  the conditions under which \<open>GetSuccs\<close> and \<open>GetLazySuccs\<close>, \<open>GetTrueCost\<close> and
  \<open>extractPath\<close> pass every assertion and read inside every vector.
\<close>

definition goal_defined :: "ManipLattice \<Rightarrow> bool" where
  "goal_defined L \<longleftrightarrow>
     (case goal_type (m_goal L) of
        JOINT_STATE_GOAL \<Rightarrow>
          length (angles (m_goal L)) \<le> num_joints (params L) \<and>
          length (angles (m_goal L)) \<le> length (angle_tolerances (m_goal L))
      | XYZ_RPY_GOAL \<Rightarrow> 6 \<le> length (tgt_off_pose (m_goal L))
      | XYZ_GOAL \<Rightarrow> 3 \<le> length (tgt_off_pose (m_goal L))
      | INVALID_GOAL_TYPE \<Rightarrow> True)"

definition action_defined :: "ManipLattice \<Rightarrow> Action \<Rightarrow> bool" where
  "action_defined L a \<longleftrightarrow>
     a \<noteq> [] \<and> length (last a) = num_joints (params L) \<and> anglesToCoord L (last a) \<noteq> None \<and>
     fk_pose_ok L (last a)"

definition goal_successors_defined :: "ManipLattice \<Rightarrow> nat \<Rightarrow> bool" where
  "goal_successors_defined L s \<longleftrightarrow>
     (\<forall>a \<in> set (enumerated_actions L (state (m_states L ! s))).
        action_defined L a \<and>
        (transition_valid L (state (m_states L ! s)) (m_goal_entry L) a \<longrightarrow>
           (\<exists>c e. anglesToCoord L (last a) = Some c \<and> getHashEntry L c = Some e)))"

fun path_defined :: "ManipLattice \<Rightarrow> int list \<Rightarrow> bool" where
  "path_defined L (p # c # rest) \<longleftrightarrow>
     (c = getGoalStateID L \<and> p \<noteq> getGoalStateID L \<longrightarrow> goal_successors_defined L (nat p)) \<and>
     path_defined L (c # rest)"
| "path_defined L [p] \<longleftrightarrow> True"
| "path_defined L [] \<longleftrightarrow> True"

definition expansion_defined :: "ManipLattice \<Rightarrow> int \<Rightarrow> bool" where
  "expansion_defined L state_id \<longleftrightarrow>
     0 \<le> state_id \<and> state_id < int (length (m_states L)) \<and>
     num_joints (params L) \<le> length (coord (m_states L ! nat state_id)) \<and>
     goal_defined L \<and>
     (\<forall>a \<in> set (enumerated_actions L (state (m_states L ! nat state_id))). action_defined L a)"

definition true_cost_defined :: "ManipLattice \<Rightarrow> int \<Rightarrow> int \<Rightarrow> bool" where
  "true_cost_defined L parentID childID \<longleftrightarrow>
     0 \<le> parentID \<and> parentID < int (length (m_states L)) \<and>
     0 \<le> childID \<and> childID < int (length (m_states L)) \<and>
     num_joints (params L) \<le> length (coord (m_states L ! nat parentID)) \<and>
     num_joints (params L) \<le> length (coord (m_states L ! nat childID)) \<and>
     goal_defined L \<and>
     (\<forall>a \<in> set (enumerated_actions L (state (m_states L ! nat parentID))).
        action_defined L a \<and>
        (nat childID = m_goal_entry L \<and>
         transition_valid L (state (m_states L ! nat parentID)) (m_goal_entry L) a \<longrightarrow>
           (\<exists>c e. anglesToCoord L (last a) = Some c \<and> getHashEntry L c = Some e)))"

definition extraction_defined :: "ManipLattice \<Rightarrow> int list \<Rightarrow> bool" where
  "extraction_defined L idpath \<longleftrightarrow> idpath \<noteq> [] \<and> goal_defined L \<and> path_defined L idpath"

section \<open>Example collaborators\<close>

text \<open>
  A two-joint arm in the style of the spec's scenarios, with rational numbers: both joints
  have the limits \<open>[-4, 4]\<close> and the resolution 1, forward kinematics returns the joint
  values as the position, nothing collides, and the one action advances joint 0 by 1.
  The limits and the resolution of this arm and the joint values used with it are dyadic
  rationals of a few bits, on which the \<^verbatim>\<open>double\<close> operations of
  \<open>anglesToCoord\<close> are exact.
\<close>

definition ex_robot :: RobotModel where
  "ex_robot = \<lparr>minPosLimit = (\<lambda>j. - 4), maxPosLimit = (\<lambda>j. 4), hasPosLimit = (\<lambda>j. True),
     checkJointLimits = list_all (\<lambda>x. - 4 \<le> x \<and> x \<le> 4),
     computePlanningLinkFK = Some (\<lambda>q. Some [q ! 0, q ! 1, 0, 0, 0, 0])\<rparr>"

definition ex_checker :: CollisionChecker where
  "ex_checker = \<lparr>isStateValid = (\<lambda>q. (True, 1)), isStateToStateValid = (\<lambda>a b. (True, 1))\<rparr>"

definition ex_params :: PlanningParams where
  "ex_params = \<lparr>num_joints = 2, coord_delta = (\<lambda>j. 1), coord_vals = (\<lambda>j. 8),
     cost_multiplier = 1000\<rparr>"

definition ex_grid :: OccupancyGrid where
  "ex_grid = \<lparr>worldToGrid = (\<lambda>x y z. (\<lfloor>x\<rfloor>, \<lfloor>y\<rfloor>, \<lfloor>z\<rfloor>))\<rparr>"

definition ex_goal0 :: GoalConstraint where
  "ex_goal0 = \<lparr>goal_type = INVALID_GOAL_TYPE, pose = [], tgt_off_pose = [],
     xyz_offset = (0, 0, 0), xyz_tolerance = (0, 0, 0), rpy_tolerance = (0, 0, 0),
     angles = [], angle_tolerances = [], goal_xyz = (0, 0, 0)\<rparr>"

definition ex_actions :: "RobotState \<Rightarrow> Action list option" where
  "ex_actions q = Some [[[q ! 0 + 1, q ! 1]]]"

definition ex_lattice :: ManipLattice where
  "ex_lattice = setActionSpace (ManipLattice_ctor ex_robot ex_checker ex_params ex_grid ex_goal0) ex_actions"

text \<open>
  The same arm with joint 1 continuous, at the resolution \<open>\<pi>/4\<close> (8 bins), for the exact
  arithmetic of the round trip only.
\<close>

definition ex_robot_c :: RobotModel where
  "ex_robot_c = ex_robot\<lparr>hasPosLimit := (\<lambda>j. j = 0)\<rparr>"

definition ex_params_c :: PlanningParams where
  "ex_params_c = ex_params\<lparr>coord_delta := (\<lambda>j. if j = 0 then 1 else pi / 4)\<rparr>"

definition ex_lattice_c :: ManipLattice where
  "ex_lattice_c = ManipLattice_ctor ex_robot_c ex_checker ex_params_c ex_grid ex_goal0"

text \<open>
  The cast to \<^verbatim>\<open>GoalType\<close> for the enumerator order \<^verbatim>\<open>XYZ_GOAL\<close>,
  \<^verbatim>\<open>XYZ_RPY_GOAL\<close>, \<^verbatim>\<open>JOINT_STATE_GOAL\<close>, and a joint goal in the style of the
  spec's scenario 6.
\<close>

definition ex_gt_of_int :: "int \<Rightarrow> GoalType" where
  "ex_gt_of_int i =
     (if i = 0 then XYZ_GOAL else if i = 1 then XYZ_RPY_GOAL
      else if i = 2 then JOINT_STATE_GOAL else INVALID_GOAL_TYPE)"

definition ex_joint_goal :: GoalConstraint where
  "ex_joint_goal = ex_goal0\<lparr>goal_type := JOINT_STATE_GOAL, angles := [1, 0],
     angle_tolerances := [0.01, 0.01]\<rparr>"

text \<open>
  A position goal at \<open>(1, 0, 0)\<close> with tolerance \<open>0.01\<close>, and the lattices after
  \<open>setGoal\<close> with it, after \<open>setStart\<close> at \<open>[0, 0]\<close>, and after the expansion of the
  start state.
\<close>

definition ex_xyz_goal :: GoalConstraint where
  "ex_xyz_goal = ex_goal0\<lparr>goal_type := XYZ_GOAL, pose := [1, 0, 0, 0, 0, 0, 0],
     tgt_off_pose := [0, 0, 0], xyz_tolerance := (1 / 100, 1 / 100, 1 / 100),
     rpy_tolerance := (1 / 100, 1 / 100, 1 / 100)\<rparr>"

definition ex_lattice_g :: ManipLattice where
  "ex_lattice_g = ex_lattice\<lparr>m_goal :=
     \<lparr>goal_type = XYZ_GOAL, pose = [1, 0, 0, 0, 0, 0, 0], tgt_off_pose = [1, 0, 0, 0, 0, 0],
      xyz_offset = (0, 0, 0), xyz_tolerance = (1 / 100, 1 / 100, 1 / 100),
      rpy_tolerance = (1 / 100, 1 / 100, 1 / 100), angles = [], angle_tolerances = [],
      goal_xyz = (1, 0, 0)\<rparr>\<rparr>"

definition ex_lattice_s :: ManipLattice where
  "ex_lattice_s = ex_lattice_g\<lparr>m_start_entry := Some 1,
     m_states := [\<lparr>stateID = 0, coord = [0, 0], state = [], xyz = (0, 0, 0), dist_s = 0\<rparr>,
                  \<lparr>stateID = 1, coord = [4, 4], state = [0, 0], xyz = (0, 0, 0), dist_s = 1\<rparr>],
     m_state_to_id := [(0, 0), (1, 1)]\<rparr>"

definition ex_lattice_x :: ManipLattice where
  "ex_lattice_x = ex_lattice_s\<lparr>
     m_states := [\<lparr>stateID = 0, coord = [0, 0], state = [], xyz = (0, 0, 0), dist_s = 0\<rparr>,
                  \<lparr>stateID = 1, coord = [4, 4], state = [0, 0], xyz = (0, 0, 0), dist_s = 1\<rparr>,
                  \<lparr>stateID = 2, coord = [5, 4], state = [1, 0], xyz = (1, 0, 0), dist_s = 1\<rparr>],
     m_state_to_id := [(0, 0), (1, 1), (2, 2)],
     m_expanded_states := [1]\<rparr>"

text \<open>
  A robot whose forward kinematics fails beyond joint 0 = 0, an action that advances
  joint 0 by a quarter of the resolution, and the lattice with them before and after
  \<open>setStart\<close> at \<open>[0, 0]\<close>.
\<close>

definition ex_robot_p :: RobotModel where
  "ex_robot_p = ex_robot\<lparr>computePlanningLinkFK :=
     Some (\<lambda>q. if q ! 0 \<le> 0 then Some [q ! 0, q ! 1, 0, 0, 0, 0] else None)\<rparr>"

definition ex_actions_q :: "RobotState \<Rightarrow> Action list option" where
  "ex_actions_q q = Some [[[q ! 0 + 1 / 4, q ! 1]]]"

definition ex_lattice_p0 :: ManipLattice where
  "ex_lattice_p0 =
     setActionSpace (ManipLattice_ctor ex_robot_p ex_checker ex_params ex_grid ex_goal0) ex_actions_q"

definition ex_lattice_p :: ManipLattice where
  "ex_lattice_p = ex_lattice_p0\<lparr>m_start_entry := Some 1,
     m_states := [\<lparr>stateID = 0, coord = [0, 0], state = [], xyz = (0, 0, 0), dist_s = 0\<rparr>,
                  \<lparr>stateID = 1, coord = [4, 4], state = [0, 0], xyz = (0, 0, 0), dist_s = 1\<rparr>],
     m_state_to_id := [(0, 0), (1, 1)]\<rparr>"

text \<open>
  A position goal at \<open>(1/4, 0, 0)\<close>, and the lattice with the quarter-step action after
  \<open>setGoal\<close> with it and \<open>setStart\<close> at \<open>[0, 0]\<close>, before and after the expansion of
  the start state: the destination \<open>[1/4, 0]\<close> lies in the bin of the start state.
\<close>

definition ex_xyz_goal_q :: GoalConstraint where
  "ex_xyz_goal_q = ex_xyz_goal\<lparr>pose := [1 / 4, 0, 0, 0, 0, 0, 0]\<rparr>"

definition ex_lattice_q0 :: ManipLattice where
  "ex_lattice_q0 = ex_lattice\<lparr>actionSpace := Some ex_actions_q,
     m_goal :=
       \<lparr>goal_type = XYZ_GOAL, pose = [1 / 4, 0, 0, 0, 0, 0, 0], tgt_off_pose = [1 / 4, 0, 0, 0, 0, 0],
        xyz_offset = (0, 0, 0), xyz_tolerance = (1 / 100, 1 / 100, 1 / 100),
        rpy_tolerance = (1 / 100, 1 / 100, 1 / 100), angles = [], angle_tolerances = [],
        goal_xyz = (0, 0, 0)\<rparr>,
     m_start_entry := Some 1,
     m_states := [\<lparr>stateID = 0, coord = [0, 0], state = [], xyz = (0, 0, 0), dist_s = 0\<rparr>,
                  \<lparr>stateID = 1, coord = [4, 4], state = [0, 0], xyz = (0, 0, 0), dist_s = 1\<rparr>],
     m_state_to_id := [(0, 0), (1, 1)]\<rparr>"

definition ex_lattice_q :: ManipLattice where
  "ex_lattice_q = ex_lattice_q0\<lparr>m_expanded_states := [1]\<rparr>"

text \<open>The lattice after the lazy expansion of the start state of \<open>ex_lattice_s\<close>.\<close>

definition ex_lattice_lz :: ManipLattice where
  "ex_lattice_lz = ex_lattice_s\<lparr>
     m_states := [\<lparr>stateID = 0, coord = [0, 0], state = [], xyz = (0, 0, 0), dist_s = 0\<rparr>,
                  \<lparr>stateID = 1, coord = [4, 4], state = [0, 0], xyz = (0, 0, 0), dist_s = 1\<rparr>,
                  \<lparr>stateID = 2, coord = [5, 4], state = [1, 0], xyz = (1, 0, 0), dist_s = 0\<rparr>],
     m_state_to_id := [(0, 0), (1, 1), (2, 2)],
     m_expanded_states := [1]\<rparr>"

text \<open>
  A pose goal at the origin with yaw \<open>-2\<pi>/3\<close>, position tolerance \<open>0.01\<close> and rotation
  tolerance \<open>0.05\<close>, and the lattice after \<open>setGoal\<close> with it.
\<close>

definition ex_rpy_goal :: GoalConstraint where
  "ex_rpy_goal = ex_goal0\<lparr>goal_type := XYZ_RPY_GOAL, pose := [0, 0, 0, 0, 0, - (2 * pi / 3), 1],
     tgt_off_pose := [0, 0, 0], xyz_tolerance := (1 / 100, 1 / 100, 1 / 100),
     rpy_tolerance := (1 / 20, 1 / 20, 1 / 20)\<rparr>"

definition ex_lattice_r :: ManipLattice where
  "ex_lattice_r = ex_lattice\<lparr>m_goal :=
     \<lparr>goal_type = XYZ_RPY_GOAL, pose = [0, 0, 0, 0, 0, - (2 * pi / 3), 1],
      tgt_off_pose = [0, 0, 0, 0, 0, - (2 * pi / 3)],
      xyz_offset = (0, 0, 0), xyz_tolerance = (1 / 100, 1 / 100, 1 / 100),
      rpy_tolerance = (1 / 20, 1 / 20, 1 / 20), angles = [], angle_tolerances = [],
      goal_xyz = (0, 0, 0)\<rparr>\<rparr>"

text \<open>
  An action to the configuration \<open>[-4, -4]\<close>, whose coordinate is all zeros, and the
  lattices with it: as constructed, after \<open>setGoal\<close> at \<open>(1, 0, 0)\<close> and after
  \<open>setStart\<close> at \<open>[0, 0]\<close>; and the same with the goal at \<open>(-4, -4, 0)\<close>.
\<close>

definition ex_actions_z :: "RobotState \<Rightarrow> Action list option" where
  "ex_actions_z q = Some [[[- 4, - 4]]]"

definition ex_lattice_z0 :: ManipLattice where
  "ex_lattice_z0 =
     setActionSpace (ManipLattice_ctor ex_robot ex_checker ex_params ex_grid ex_goal0) ex_actions_z"

definition ex_lattice_zg :: ManipLattice where
  "ex_lattice_zg = ex_lattice_g\<lparr>actionSpace := Some ex_actions_z\<rparr>"

definition ex_lattice_z :: ManipLattice where
  "ex_lattice_z = ex_lattice_s\<lparr>actionSpace := Some ex_actions_z\<rparr>"

definition ex_xyz_goal_w :: GoalConstraint where
  "ex_xyz_goal_w = ex_xyz_goal\<lparr>pose := [- 4, - 4, 0, 0, 0, 0, 0]\<rparr>"

definition ex_lattice_wg :: ManipLattice where
  "ex_lattice_wg = ex_lattice_zg\<lparr>m_goal :=
     \<lparr>goal_type = XYZ_GOAL, pose = [- 4, - 4, 0, 0, 0, 0, 0], tgt_off_pose = [- 4, - 4, 0, 0, 0, 0],
      xyz_offset = (0, 0, 0), xyz_tolerance = (1 / 100, 1 / 100, 1 / 100),
      rpy_tolerance = (1 / 100, 1 / 100, 1 / 100), angles = [], angle_tolerances = [],
      goal_xyz = (- 4, - 4, 0)\<rparr>\<rparr>"

definition ex_lattice_w :: ManipLattice where
  "ex_lattice_w = ex_lattice_wg\<lparr>m_start_entry := Some 1,
     m_states := [\<lparr>stateID = 0, coord = [0, 0], state = [], xyz = (0, 0, 0), dist_s = 0\<rparr>,
                  \<lparr>stateID = 1, coord = [4, 4], state = [0, 0], xyz = (0, 0, 0), dist_s = 1\<rparr>],
     m_state_to_id := [(0, 0), (1, 1)]\<rparr>"

section \<open>Lemmas\<close>

subsection \<open>Arithmetic of the discretisation\<close>

lemma cast_int_nonneg:
  "0 \<le> x \<Longrightarrow> x < of_int INT_MAX + 1 \<Longrightarrow> cast_int x = Some \<lfloor>x\<rfloor>"
proof -
  assume a: "0 \<le> x" and b: "x < of_int INT_MAX + 1"
  have "0 \<le> \<lfloor>x\<rfloor>" using a by simp
  moreover have "\<lfloor>x\<rfloor> \<le> INT_MAX" using b by (simp add: floor_le_iff)
  ultimately show ?thesis using a by (simp add: cast_int_def INT_MIN_def INT_MAX_def)
qed

lemma floor_scaled_bounds:
  fixes y d :: real
  assumes d: "0 < d"
  shows "of_int \<lfloor>y / d\<rfloor> * d \<le> y" and "y < of_int \<lfloor>y / d\<rfloor> * d + d"
proof -
  have l: "of_int \<lfloor>y / d\<rfloor> \<le> y / d" by (rule of_int_floor_le)
  have u: "y / d < of_int \<lfloor>y / d\<rfloor> + 1" by (rule floor_correct [THEN conjunct2, simplified] | linarith)
  show "of_int \<lfloor>y / d\<rfloor> * d \<le> y"
    using l d pos_le_divide_eq [of d "of_int \<lfloor>y / d\<rfloor>" y] by blast
  have "y < (of_int \<lfloor>y / d\<rfloor> + 1) * d"
    using u d pos_divide_less_eq [of d y "of_int \<lfloor>y / d\<rfloor> + 1"] by blast
  then show "y < of_int \<lfloor>y / d\<rfloor> * d + d" by (simp add: distrib_right)
qed

lemma floor_half_bound:
  fixes a m d :: real
  assumes d: "0 < d"
  shows "\<bar>m + of_int \<lfloor>(a - m) / d + 0.5\<rfloor> * d - a\<bar> \<le> d / 2"
proof -
  have e: "(a - m) / d + 0.5 = (a - m + d / 2) / d" using d by (simp add: field_simps)
  show ?thesis
    unfolding e using floor_scaled_bounds [OF d, of "a - m + d / 2"] by linarith
qed

lemma normalize_angle_positive_range:
  "0 \<le> normalize_angle_positive a" "normalize_angle_positive a < 2 * pi"
  using floor_scaled_bounds [of "2 * pi" a]
  by (simp_all add: normalize_angle_positive_def mult.commute)

subsection \<open>The state table\<close>

lemma getHashEntry_None_iff:
  "getHashEntry L c = None \<longleftrightarrow> (\<forall>(k, v) \<in> set (m_state_to_id L). coord (m_states L ! k) \<noteq> c)"
  by (auto simp: getHashEntry_def find_None_iff)

lemma hash_map_assign_absent:
  "\<forall>(k, v) \<in> set t. coord (S ! k) \<noteq> coord (S ! p) \<Longrightarrow> hash_map_assign S t p v = t @ [(p, v)]"
  by (induction t) auto

lemma find_append_key:
  "find P (xs @ ys) = (case find P xs of None \<Rightarrow> find P ys | Some x \<Rightarrow> Some x)"
  by (induction xs) auto

lemma createHashEntry_absent:
  assumes inv: "\<forall>(k, v) \<in> set (m_state_to_id L). k < length (m_states L)"
    and abs: "getHashEntry L c = None"
  shows "createHashEntry L c st d e =
           (length (m_states L),
            L\<lparr>m_states := m_states L @ [\<lparr>stateID = int (length (m_states L)), coord = c, state = st,
                                         xyz = e, dist_s = d\<rparr>],
              m_state_to_id := m_state_to_id L @ [(length (m_states L), int (length (m_states L)))]\<rparr>)"
proof -
  let ?S = "m_states L @ [\<lparr>stateID = int (length (m_states L)), coord = c, state = st, xyz = e, dist_s = d\<rparr>]"
  have "\<forall>(k, v) \<in> set (m_state_to_id L). coord (?S ! k) \<noteq> coord (?S ! length (m_states L))"
    using inv abs by (fastforce simp: getHashEntry_None_iff nth_append)
  then show ?thesis
    by (simp add: createHashEntry_def Let_def hash_map_assign_absent)
qed

lemma ctor_inv: "lattice_inv (ManipLattice_ctor r c p g g0)"
  by (simp add: ManipLattice_ctor_def createHashEntry_def lattice_inv_def getHashEntry_def Let_def)

lemma find_Some_member: "find P xs = Some x \<Longrightarrow> x \<in> set xs \<and> P x"
  by (induction xs) (auto split: if_splits)

lemma getHashEntry_Some_D:
  assumes "getHashEntry L c = Some p"
  shows "\<exists>v. (p, v) \<in> set (m_state_to_id L) \<and> coord (m_states L ! p) = c"
proof -
  from assms obtain x where f: "find (\<lambda>(k, v). coord (m_states L ! k) = c) (m_state_to_id L) = Some x"
    and p: "p = fst x" by (auto simp: getHashEntry_def)
  from find_Some_member [OF f] show ?thesis using p by (cases x) auto
qed

lemma getHashEntry_extend:
  assumes keys: "\<forall>(k, v) \<in> set (m_state_to_id L). k < length (m_states L)"
  shows "getHashEntry (L\<lparr>m_states := m_states L @ [e],
                         m_state_to_id := m_state_to_id L @ [(length (m_states L), v)]\<rparr>) c' =
           (case getHashEntry L c' of
              Some q \<Rightarrow> Some q
            | None \<Rightarrow> if coord e = c' then Some (length (m_states L)) else None)"
proof -
  have eq: "find (\<lambda>(k, v). coord ((m_states L @ [e]) ! k) = c') (m_state_to_id L) =
            find (\<lambda>(k, v). coord (m_states L ! k) = c') (m_state_to_id L)"
    using keys by (intro find_cong) (auto simp: nth_append)
  show ?thesis
    by (simp add: getHashEntry_def find_append_key eq split: option.splits)
qed

lemma lattice_extends_refl: "lattice_extends L L"
  by (simp add: lattice_extends_def)

lemma lattice_extends_trans:
  assumes "lattice_extends L L'" "lattice_extends L' L''"
  shows "lattice_extends L L''"
proof -
  from assms(1) have a: "L' = L\<lparr>m_states := m_states L', m_state_to_id := m_state_to_id L',
            m_near_goal := m_near_goal L', m_expanded_states := m_expanded_states L'\<rparr>"
    by (simp add: lattice_extends_def)
  from assms(2) have b: "L'' = L'\<lparr>m_states := m_states L'', m_state_to_id := m_state_to_id L'',
            m_near_goal := m_near_goal L'', m_expanded_states := m_expanded_states L''\<rparr>"
    by (simp add: lattice_extends_def)
  have c: "L'' = L\<lparr>m_states := m_states L'', m_state_to_id := m_state_to_id L'',
            m_near_goal := m_near_goal L'', m_expanded_states := m_expanded_states L''\<rparr>"
    by (subst b, subst a) simp
  from assms obtain e1 e2 where "m_states L' = m_states L @ e1" "m_states L'' = m_states L' @ e2"
    by (auto simp: lattice_extends_def)
  then have d: "\<exists>ext. m_states L'' = m_states L @ ext" by simp
  show ?thesis
    unfolding lattice_extends_def using c d assms by (auto simp: lattice_extends_def)
qed

lemma getOrCreateState_props:
  assumes inv: "lattice_inv L" and r: "getOrCreateState L c st d e = (p, L')"
  shows "lattice_inv L' \<and> p < length (m_states L') \<and> coord (m_states L' ! p) = c \<and>
       getHashEntry L' c = Some p \<and>
       (\<exists>ext. m_states L' = m_states L @ ext \<and> (\<forall>x \<in> set ext. dist_s x = d)) \<and>
       lattice_extends L L'"
proof -
  have keys: "\<forall>(k, v) \<in> set (m_state_to_id L). k < length (m_states L)"
    using inv by (auto simp: lattice_inv_def)
  show ?thesis
  proof (cases "getHashEntry L c")
    case (Some q)
    then have e: "p = q" "L' = L" using r by (simp_all add: getOrCreateState_def)
    obtain v where "(q, v) \<in> set (m_state_to_id L)" "coord (m_states L ! q) = c"
      using getHashEntry_Some_D [OF Some] by blast
    then show ?thesis
      using inv keys Some e by (auto simp: lattice_extends_refl)
  next
    case None
    let ?n = "length (m_states L)"
    let ?e = "\<lparr>stateID = int ?n, coord = c, state = st, xyz = e, dist_s = d\<rparr>"
    have cr: "createHashEntry L c st d e = (p, L')"
      using r None by (simp add: getOrCreateState_def)
    have "(p, L') = (?n, L\<lparr>m_states := m_states L @ [?e],
                               m_state_to_id := m_state_to_id L @ [(?n, int ?n)]\<rparr>)"
      unfolding cr [symmetric] by (rule createHashEntry_absent [OF keys None])
    then have e: "p = ?n"
      "L' = L\<lparr>m_states := m_states L @ [?e], m_state_to_id := m_state_to_id L @ [(?n, int ?n)]\<rparr>"
      by simp_all
    have look: "\<And>c'. getHashEntry L' c' =
           (case getHashEntry L c' of Some q \<Rightarrow> Some q
            | None \<Rightarrow> if c = c' then Some ?n else None)"
      unfolding e using getHashEntry_extend [OF keys, where e = ?e and v = "int ?n"] by simp
    have inv': "lattice_inv L'"
      unfolding lattice_inv_def
    proof (intro conjI allI impI)
      show "m_goal_entry L' < length (m_states L')" using inv by (simp add: e lattice_inv_def)
      show "coord (m_states L' ! m_goal_entry L') = replicate (num_joints (params L')) 0"
        using inv by (simp add: e lattice_inv_def nth_append)
      show "\<forall>(k, v)\<in>set (m_state_to_id L'). k < length (m_states L') \<and> v = int k"
        using inv by (auto simp: e lattice_inv_def)
      show "s < length (m_states L')" if "m_start_entry L' = Some s" for s
        using inv that by (auto simp: e lattice_inv_def)
      show "stateID (m_states L' ! i) = int i" if "i < length (m_states L')" for i
        using inv that by (auto simp: e lattice_inv_def nth_append)
      show "getHashEntry L' (coord (m_states L' ! i)) = Some i" if "i < length (m_states L')" for i
      proof (cases "i < ?n")
        case True
        then have "getHashEntry L (coord (m_states L ! i)) = Some i" using inv by (simp add: lattice_inv_def)
        then show ?thesis using True by (simp add: look) (simp add: e nth_append)
      next
        case False
        then have "i = ?n" using that by (simp add: e)
        then show ?thesis using None by (simp add: look) (simp add: e)
      qed
    qed
    have ext: "lattice_extends L L'"
      unfolding lattice_extends_def by (simp add: look) (simp add: e)
    show ?thesis
      using inv' None ext by (simp add: look) (simp add: e)
  qed
qed

lemma setActionSpace_inv: "lattice_inv L \<Longrightarrow> lattice_inv (setActionSpace L f)"
  by (simp add: lattice_inv_def setActionSpace_def getHashEntry_def)

lemma goal_entry_lookup_inv:
  "lattice_inv L \<Longrightarrow> getHashEntry L (replicate (num_joints (params L)) 0) = Some (m_goal_entry L)"
  by (metis lattice_inv_def)

subsection \<open>The example lattice\<close>

lemma ex_lattice_inv: "lattice_inv ex_lattice"
  unfolding ex_lattice_def by (rule setActionSpace_inv [OF ctor_inv])

lemma ex_fields:
  "params ex_lattice = ex_params" "robot ex_lattice = ex_robot"
  "collisionChecker ex_lattice = ex_checker" "m_grid ex_lattice = ex_grid"
  "actionSpace ex_lattice = Some ex_actions"
  "m_fk_iface ex_lattice = Some (\<lambda>q. Some [q ! 0, q ! 1, 0, 0, 0, 0])"
  "m_min_limits ex_lattice = [- 4, - 4]" "m_max_limits ex_lattice = [4, 4]"
  "m_continuous ex_lattice = [False, False]"
  "m_goal ex_lattice = ex_goal0" "m_goal_entry ex_lattice = 0" "m_start_entry ex_lattice = None"
  "m_near_goal ex_lattice = False" "m_expanded_states ex_lattice = []"
  "m_states ex_lattice = [\<lparr>stateID = 0, coord = [0, 0], state = [], xyz = (0, 0, 0), dist_s = 0\<rparr>]"
  "m_state_to_id ex_lattice = [(0, 0)]"
  by (simp_all add: ex_lattice_def setActionSpace_def ManipLattice_ctor_def createHashEntry_def
      Let_def ex_params_def ex_robot_def numeral_2_eq_2)

lemma ex_params_fields:
  "num_joints ex_params = 2" "coord_delta ex_params j = 1" "coord_vals ex_params j = 8"
  "cost_multiplier ex_params = 1000"
  by (simp_all add: ex_params_def)

subsection \<open>The coordinate round trip\<close>

lemma anglesToCoord_loop_Some:
  "anglesToCoord_loop L i as = Some cs \<longleftrightarrow>
     length cs = length as \<and> (\<forall>k < length as. anglesToCoord_joint L (i + k) (as ! k) = Some (cs ! k))"
proof (induction as arbitrary: i cs)
  case Nil
  then show ?case by auto
next
  case (Cons a as)
  show ?case
  proof (cases cs)
    case Nil
    then show ?thesis by (auto split: Option.bind_splits)
  next
    case (Cons c cs')
    then show ?thesis
      using Cons.IH [of "Suc i" cs']
      by (auto simp: less_Suc_eq_0_disj split: Option.bind_splits)
  qed
qed

lemma coordToAngles_loop_Some:
  "coordToAngles_loop L i cs = Some as \<longleftrightarrow>
     length as = length cs \<and> (\<forall>k < length cs. coordToAngles_joint L (i + k) (cs ! k) = Some (as ! k))"
proof (induction cs arbitrary: i as)
  case Nil
  then show ?case by auto
next
  case (Cons c cs)
  show ?case
  proof (cases as)
    case Nil
    then show ?thesis by (auto split: Option.bind_splits)
  next
    case (Cons a as')
    then show ?thesis
      using Cons.IH [of "Suc i" as']
      by (auto simp: less_Suc_eq_0_disj split: Option.bind_splits)
  qed
qed

lemma joint_roundtrip_limited:
  assumes ok: "discretization_ok L" and i: "i < num_joints (params L)"
    and nc: "\<not> m_continuous L ! i"
    and lim: "m_min_limits L ! i \<le> a" "a \<le> m_max_limits L ! i"
  shows "\<exists>c a'. anglesToCoord_joint L i a = Some c \<and> coordToAngles_joint L i c = Some a' \<and>
           \<bar>a' - a\<bar> \<le> coord_delta (params L) i / 2"
proof -
  let ?d = "coord_delta (params L) i" and ?m = "m_min_limits L ! i" and ?M = "m_max_limits L ! i"
  let ?x = "(a - ?m) / ?d + 0.5"
  from ok i have d: "0 < ?d" and r: "(?M - ?m) / ?d + 1 / 2 < of_int INT_MAX + 1"
    and len: "i < length (m_continuous L)" "i < length (m_min_limits L)"
    using nc by (auto simp: discretization_ok_def)
  have x0: "0 \<le> ?x" using d lim by simp
  have "(a - ?m) / ?d \<le> (?M - ?m) / ?d" using d lim by (simp add: divide_right_mono)
  then have x1: "?x < of_int INT_MAX + 1" using r by simp
  have c: "cast_int ?x = Some \<lfloor>?x\<rfloor>" by (rule cast_int_nonneg [OF x0 x1])
  have a2c: "anglesToCoord_joint L i a = Some \<lfloor>?x\<rfloor>"
    using len nc d c by (simp add: anglesToCoord_joint_def nth_opt_def assert_that_def)
  have c2a: "coordToAngles_joint L i \<lfloor>?x\<rfloor> = Some (?m + of_int \<lfloor>?x\<rfloor> * ?d)"
    using len nc by (simp add: coordToAngles_joint_def nth_opt_def)
  show ?thesis using a2c c2a floor_half_bound [OF d, of ?m a] by simp
qed

lemma joint_roundtrip_continuous:
  assumes ok: "discretization_ok L" and i: "i < num_joints (params L)"
    and co: "m_continuous L ! i"
  shows "\<exists>c a'. anglesToCoord_joint L i a = Some c \<and> coordToAngles_joint L i c = Some a' \<and>
           (\<exists>k :: int. \<bar>a' - a + 2 * pi * of_int k\<bar> \<le> coord_delta (params L) i / 2)"
proof -
  define d where "d = coord_delta (params L) i"
  define v where "v = coord_vals (params L) i"
  define p where "p = normalize_angle_positive a"
  define k0 where "k0 = \<lfloor>a / (2 * pi)\<rfloor>"
  define z where "z = 2 * pi * of_int k0"
  define x where "x = (p + d * 0.5) / d"
  define t where "t = of_int \<lfloor>x\<rfloor> * d"
  from ok i co have d: "0 < d" and v: "of_int v * d = 2 * pi" "v \<le> INT_MAX"
    and len: "i < length (m_continuous L)"
    by (auto simp: discretization_ok_def d_def v_def)
  have p: "0 \<le> p" "p < 2 * pi" unfolding p_def by (rule normalize_angle_positive_range)+
  have pk: "p = a - z" by (simp add: normalize_angle_positive_def p_def z_def k0_def)
  have x0: "0 \<le> x" using d p by (simp add: x_def)
  have "p + d * 0.5 < (of_int v + 1 / 2) * d" using p v by (simp add: algebra_simps)
  then have "x < of_int v + 1 / 2" unfolding x_def using d by (simp add: pos_divide_less_eq)
  moreover have "(of_int v :: real) \<le> of_int INT_MAX" using v by simp
  ultimately have x1: "x < of_int INT_MAX + 1" by linarith
  have c: "cast_int x = Some \<lfloor>x\<rfloor>" by (rule cast_int_nonneg [OF x0 x1])
  have fl: "t \<le> p + d / 2" "p + d / 2 < t + d"
    using floor_scaled_bounds [OF d, of "p + d * 0.5"] by (simp_all add: t_def x_def)
  have cast: "cast_int ((normalize_angle_positive a + coord_delta (params L) i * 0.5) /
                 coord_delta (params L) i) = Some \<lfloor>x\<rfloor>"
    using c by (simp add: x_def p_def d_def)
  have dn: "coord_delta (params L) i \<noteq> 0" using d by (simp add: d_def)
  show ?thesis
  proof (cases "\<lfloor>x\<rfloor> = v")
    case True
    have a2c: "anglesToCoord_joint L i a = Some 0"
      using len co dn cast True
      by (simp add: anglesToCoord_joint_def nth_opt_def assert_that_def Let_def v_def)
    have c2a: "coordToAngles_joint L i 0 = Some 0"
      using len co by (simp add: coordToAngles_joint_def nth_opt_def)
    have "t = 2 * pi" using True v by (simp add: t_def)
    then have "\<bar>0 - a + (z + 2 * pi)\<bar> \<le> d / 2"
      using p pk fl by linarith
    moreover have "z + 2 * pi = 2 * pi * of_int (k0 + 1)" by (simp add: z_def algebra_simps)
    ultimately have "\<bar>0 - a + 2 * pi * of_int (k0 + 1)\<bar> \<le> coord_delta (params L) i / 2"
      by (simp add: d_def)
    then show ?thesis using a2c c2a by blast
  next
    case False
    have a2c: "anglesToCoord_joint L i a = Some \<lfloor>x\<rfloor>"
      using len co dn cast False
      by (simp add: anglesToCoord_joint_def nth_opt_def assert_that_def Let_def v_def)
    have c2a: "coordToAngles_joint L i \<lfloor>x\<rfloor> = Some t"
      using len co by (simp add: coordToAngles_joint_def nth_opt_def t_def d_def)
    have "\<bar>t - a + z\<bar> \<le> d / 2"
      using fl pk by linarith
    then have "\<bar>t - a + 2 * pi * of_int k0\<bar> \<le> coord_delta (params L) i / 2"
      by (simp add: z_def d_def)
    then show ?thesis using a2c c2a by blast
  qed
qed


lemma ex_c_fields:
  "num_joints (params ex_lattice_c) = 2"
  "coord_delta (params ex_lattice_c) = (\<lambda>j. if j = 0 then 1 else pi / 4)"
  "coord_vals (params ex_lattice_c) = (\<lambda>j. 8)"
  "m_min_limits ex_lattice_c = [- 4, - 4]" "m_max_limits ex_lattice_c = [4, 4]"
  "m_continuous ex_lattice_c = [False, True]"
  by (simp_all add: ex_lattice_c_def ManipLattice_ctor_def createHashEntry_def
      Let_def ex_params_c_def ex_params_def ex_robot_c_def ex_robot_def numeral_2_eq_2)

lemma ex_c_discretization_ok: "discretization_ok ex_lattice_c"
  by (simp add: discretization_ok_def ex_c_fields numeral_2_eq_2 less_Suc_eq INT_MAX_def)

lemma ex_c_within: "within_limits ex_lattice_c [0, 7]"
  by (simp add: within_limits_def ex_c_fields numeral_2_eq_2 less_Suc_eq)

subsection \<open>Forward kinematics\<close>

lemma computePlanningFrameFK_Some:
  assumes "computePlanningFrameFK L st = Some (Some ps)"
  shows "length ps = 6 \<and> length st = num_joints (params L)"
  using assms
  by (auto simp: computePlanningFrameFK_def assert_that_def
      split: Option.bind_splits option.splits if_splits prod.splits)


lemma ex_fk: "computePlanningFrameFK ex_lattice [a, b] = Some (Some [a, b, 0, 0, 0, 0])"
  by (simp add: ex_fields ex_params_fields ex_goal0_def computePlanningFrameFK_def nth_opt_def
      assert_that_def tipoff_translation_def)

subsection \<open>Frames: what an operation leaves unchanged\<close>

lemma lattice_extends_fields:
  assumes "lattice_extends L L'"
  shows "params L' = params L" "robot L' = robot L" "collisionChecker L' = collisionChecker L"
    "actionSpace L' = actionSpace L" "m_grid L' = m_grid L" "m_fk_iface L' = m_fk_iface L"
    "m_min_limits L' = m_min_limits L" "m_max_limits L' = m_max_limits L"
    "m_continuous L' = m_continuous L" "m_goal L' = m_goal L" "m_goal_entry L' = m_goal_entry L"
    "m_start_entry L' = m_start_entry L"
proof -
  from assms have e: "L' = L\<lparr>m_states := m_states L', m_state_to_id := m_state_to_id L',
            m_near_goal := m_near_goal L', m_expanded_states := m_expanded_states L'\<rparr>"
    by (simp add: lattice_extends_def)
  show "params L' = params L" by (subst e) simp
  show "robot L' = robot L" by (subst e) simp
  show "collisionChecker L' = collisionChecker L" by (subst e) simp
  show "actionSpace L' = actionSpace L" by (subst e) simp
  show "m_grid L' = m_grid L" by (subst e) simp
  show "m_fk_iface L' = m_fk_iface L" by (subst e) simp
  show "m_min_limits L' = m_min_limits L" by (subst e) simp
  show "m_max_limits L' = m_max_limits L" by (subst e) simp
  show "m_continuous L' = m_continuous L" by (subst e) simp
  show "m_goal L' = m_goal L" by (subst e) simp
  show "m_goal_entry L' = m_goal_entry L" by (subst e) simp
  show "m_start_entry L' = m_start_entry L" by (subst e) simp
qed

lemma lattice_extends_nth:
  "lattice_extends L L' \<Longrightarrow> i < length (m_states L) \<Longrightarrow> m_states L' ! i = m_states L ! i"
  by (auto simp: lattice_extends_def nth_append)

lemma lattice_extends_length:
  "lattice_extends L L' \<Longrightarrow> length (m_states L) \<le> length (m_states L')"
  by (auto simp: lattice_extends_def)

lemma anglesToCoord_joint_cong:
  assumes "params L' = params L" "m_continuous L' = m_continuous L" "m_min_limits L' = m_min_limits L"
  shows "anglesToCoord_joint L' i a = anglesToCoord_joint L i a"
  unfolding anglesToCoord_joint_def assms by (rule refl)

lemma anglesToCoord_loop_cong:
  assumes "params L' = params L" "m_continuous L' = m_continuous L" "m_min_limits L' = m_min_limits L"
  shows "anglesToCoord_loop L' i as = anglesToCoord_loop L i as"
  by (induction as arbitrary: i) (simp_all add: anglesToCoord_joint_cong [OF assms])

lemma anglesToCoord_extends:
  assumes "lattice_extends L L'"
  shows "anglesToCoord L' q = anglesToCoord L q"
  unfolding anglesToCoord_def
    anglesToCoord_loop_cong [OF lattice_extends_fields(1,9,7) [OF assms]]
    lattice_extends_fields(1) [OF assms]
  by (rule refl)

lemma computePlanningFrameFK_extends:
  assumes "lattice_extends L L'"
  shows "computePlanningFrameFK L' q = computePlanningFrameFK L q"
  unfolding computePlanningFrameFK_def lattice_extends_fields [OF assms] by (rule refl)

lemma checkAction_extends:
  assumes "lattice_extends L L'"
  shows "checkAction L' q a = checkAction L q a"
  unfolding checkAction_def lattice_extends_fields [OF assms] by (rule refl)

lemma cost_extends:
  assumes "lattice_extends L L'"
  shows "cost L' a b c = cost L a b c"
  unfolding cost_def lattice_extends_fields(1) [OF assms] by (rule refl)

lemma isGoal_cases:
  assumes "isGoal L st ps = Some (b, L')"
  shows "L' = L \<or> L' = L\<lparr>m_near_goal := True\<rparr>"
proof (cases "goal_type (m_goal L)")
  case XYZ_GOAL
  then show ?thesis using assms
    by (auto simp: isGoal_def assert_that_def split: prod.splits if_splits)
next
  case XYZ_RPY_GOAL
  then show ?thesis using assms
    by (auto simp: isGoal_def assert_that_def Let_def split: prod.splits if_splits)
next
  case JOINT_STATE_GOAL
  then show ?thesis using assms
    by (auto simp: isGoal_def split: Option.bind_splits)
next
  case INVALID_GOAL_TYPE
  then show ?thesis using assms by (simp add: isGoal_def)
qed

lemma isGoal_verdict_cong:
  assumes g: "m_goal L' = m_goal L"
  shows "map_option fst (isGoal L' st ps) = map_option fst (isGoal L st ps)"
proof (cases "goal_type (m_goal L)")
  case XYZ_GOAL
  then show ?thesis
    by (simp add: isGoal_def g assert_that_def split: prod.splits)
next
  case XYZ_RPY_GOAL
  then show ?thesis
    by (auto simp: isGoal_def g assert_that_def Let_def split: prod.splits)
next
  case JOINT_STATE_GOAL
  then show ?thesis
    by (simp add: isGoal_def g split: Option.bind_split)
next
  case INVALID_GOAL_TYPE
  then show ?thesis by (simp add: isGoal_def g)
qed

lemma isGoal_extends:
  assumes "isGoal L st ps = Some (b, L')"
  shows "lattice_extends L L'" "m_states L' = m_states L" "m_state_to_id L' = m_state_to_id L"
    "lattice_inv L \<Longrightarrow> lattice_inv L'"
  using isGoal_cases [OF assms]
  by (auto simp: lattice_extends_def lattice_inv_def getHashEntry_def)

lemma isGoal_transfer:
  assumes e: "lattice_extends L L1" and r: "isGoal L1 st ps = Some (b, L2)"
  shows "\<exists>Lg. isGoal L st ps = Some (b, Lg)"
proof -
  have "map_option fst (isGoal L st ps) = Some b"
    using isGoal_verdict_cong [of L1 L st ps] lattice_extends_fields(10) [OF e] r by simp
  then show ?thesis by auto
qed

lemma GetSuccs_loop_Cons_cases:
  assumes "GetSuccs_loop pe pst (a # rest) (s0, c0, L1) = Some r"
  obtains (rejected) d where "checkAction L1 pst a = Some (False, d)"
      "GetSuccs_loop pe pst rest (s0, c0, L1) = Some r"
  | (nofk) d w sc where "checkAction L1 pst a = Some (True, d)" "vector_back a = Some w"
      "anglesToCoord L1 w = Some sc" "computePlanningFrameFK L1 w = Some None"
      "GetSuccs_loop pe pst rest (s0, c0, L1) = Some r"
  | (edge) d w sc ps e L1a b L2 where "checkAction L1 pst a = Some (True, d)"
      "vector_back a = Some w" "anglesToCoord L1 w = Some sc"
      "computePlanningFrameFK L1 w = Some (Some ps)"
      "getOrCreateState L1 sc w d (worldToGrid (m_grid L1) (ps ! 0) (ps ! 1) (ps ! 2)) = (e, L1a)"
      "isGoal L1a w ps = Some (b, L2)"
      "GetSuccs_loop pe pst rest
         (s0 @ [if b then stateID (m_states L2 ! m_goal_entry L2) else stateID (m_states L2 ! e)],
          c0 @ [cost L2 pe e b], L2) = Some r"
proof (cases "checkAction L1 pst a")
  case None
  then show ?thesis using assms by simp
next
  case (Some okd)
  obtain ok d where okd: "okd = (ok, d)" by (cases okd)
  note ca = Some [unfolded okd]
  show ?thesis
  proof (cases ok)
    case False
    then show ?thesis using assms ca rejected by simp
  next
    case True
    note ca = ca [unfolded True [THEN eqTrueI]]
    show ?thesis
    proof (cases "vector_back a")
      case None
      then show ?thesis using assms ca by simp
    next
      case (Some w)
      note vb = Some
      show ?thesis
      proof (cases "anglesToCoord L1 w")
        case None
        then show ?thesis using assms ca vb by simp
      next
        case (Some sc)
        note ac = Some
        show ?thesis
        proof (cases "computePlanningFrameFK L1 w")
          case None
          then show ?thesis using assms ca vb ac by simp
        next
          case (Some fk)
          show ?thesis
          proof (cases fk)
            case None
            then show ?thesis using assms ca vb ac Some nofk by simp
          next
            case (Some ps)
            note fk = \<open>computePlanningFrameFK L1 w = Some fk\<close> [unfolded Some]
            obtain e L1a where
              gc: "getOrCreateState L1 sc w d (worldToGrid (m_grid L1) (ps ! 0) (ps ! 1) (ps ! 2)) = (e, L1a)"
              by (cases "getOrCreateState L1 sc w d (worldToGrid (m_grid L1) (ps ! 0) (ps ! 1) (ps ! 2))")
            have len: "3 \<le> length ps"
              using assms ca vb ac fk by (simp add: assert_that_def split: if_splits)
            show ?thesis
            proof (cases "isGoal L1a w ps")
              case None
              then show ?thesis using assms ca vb ac fk gc len by (simp add: assert_that_def)
            next
              case (Some bl)
              obtain b L2 where bl: "bl = (b, L2)" by (cases bl)
              show ?thesis
                using assms ca vb ac fk gc len Some [unfolded bl]
                by (intro edge [of d w sc ps e L1a b L2]) (simp_all add: assert_that_def)
            qed
          qed
        qed
      qed
    qed
  qed
qed

lemma inv_key_bound:
  "lattice_inv L \<Longrightarrow> getHashEntry L c = Some e \<Longrightarrow> e < length (m_states L)"
  using getHashEntry_Some_D [of L c e] by (auto simp: lattice_inv_def)

lemma inv_stateID:
  "lattice_inv L \<Longrightarrow> i < length (m_states L) \<Longrightarrow> stateID (m_states L ! i) = int i"
  by (simp add: lattice_inv_def)

lemma inv_goal_id: "lattice_inv L \<Longrightarrow> getGoalStateID L = int (m_goal_entry L)"
  by (simp add: getGoalStateID_def lattice_inv_def)

lemma lattice_extends_lookup:
  "lattice_extends L L' \<Longrightarrow> getHashEntry L c = Some e \<Longrightarrow> getHashEntry L' c = Some e"
  by (simp add: lattice_extends_def)

lemma edge_label_mono:
  assumes lab: "edge_label L L2 a sid" and inv: "lattice_inv L2" and ext: "lattice_extends L2 L'"
  shows "edge_label L L' a sid"
proof -
  from lab obtain w c ps b Lg e where
    h: "vector_back a = Some w" "anglesToCoord L w = Some c"
       "computePlanningFrameFK L w = Some (Some ps)" "isGoal L w ps = Some (b, Lg)"
       "getHashEntry L2 c = Some e"
    and l: "if b then sid = getGoalStateID L2 \<and> (e \<noteq> m_goal_entry L2 \<longrightarrow> sid \<noteq> stateID (m_states L2 ! e))
         else sid = stateID (m_states L2 ! e)"
    unfolding edge_label_def by blast
  have e: "e < length (m_states L2)" by (rule inv_key_bound [OF inv h(5)])
  have g: "m_goal_entry L2 < length (m_states L2)" using inv by (simp add: lattice_inv_def)
  have 1: "getHashEntry L' c = Some e" by (rule lattice_extends_lookup [OF ext h(5)])
  have 2: "m_states L' ! e = m_states L2 ! e" by (rule lattice_extends_nth [OF ext e])
  have 3: "m_goal_entry L' = m_goal_entry L2" by (rule lattice_extends_fields(11) [OF ext])
  have 4: "getGoalStateID L' = getGoalStateID L2"
    using lattice_extends_nth [OF ext g] by (simp add: getGoalStateID_def 3)
  show ?thesis
    unfolding edge_label_def using h(1-4) 1 l by (auto simp: 2 3 4)
qed

lemma GetSuccs_loop_spec:
  assumes "lattice_inv L1" "lattice_extends L L1"
    "GetSuccs_loop pe pst acts (s0, c0, L1) = Some (s, c, L')"
  shows "lattice_inv L' \<and> lattice_extends L1 L' \<and>
         (\<exists>s1 c1. s = s0 @ s1 \<and> c = c0 @ c1 \<and> length c1 = length s1 \<and>
            list_all2 (edge_label L L') (filter (edge_generated L pst) acts) s1)"
  using assms
proof (induction acts arbitrary: s0 c0 L1)
  case Nil
  then show ?case by (simp add: lattice_extends_refl)
next
  case (Cons a rest)
  from Cons.prems(3) show ?case
  proof (cases rule: GetSuccs_loop_Cons_cases)
    case (rejected d)
    have "checkAction L pst a = Some (False, d)"
      using rejected(1) checkAction_extends [OF Cons.prems(2)] by simp
    then have "\<not> edge_generated L pst a" by (simp add: edge_generated_def)
    then show ?thesis using Cons.IH [OF Cons.prems(1,2) rejected(2)] by simp
  next
    case (nofk d w sc)
    have "computePlanningFrameFK L w = Some None"
      using nofk(4) computePlanningFrameFK_extends [OF Cons.prems(2)] by simp
    then have "\<not> edge_generated L pst a" using nofk(2) by (simp add: edge_generated_def split: option.splits)
    then show ?thesis using Cons.IH [OF Cons.prems(1,2) nofk(5)] by simp
  next
    case (edge d w sc ps e L1a b L2)
    let ?sid = "if b then stateID (m_states L2 ! m_goal_entry L2) else stateID (m_states L2 ! e)"
    note gp = getOrCreateState_props [OF Cons.prems(1) edge(5)]
    have inv1a: "lattice_inv L1a" and ext1a: "lattice_extends L1 L1a"
      and look1a: "getHashEntry L1a sc = Some e" and e1a: "e < length (m_states L1a)"
      using gp by simp_all
    note ig = isGoal_extends [OF edge(6)]
    have inv2: "lattice_inv L2" by (rule ig(4) [OF inv1a])
    have ext2: "lattice_extends L1 L2" by (rule lattice_extends_trans [OF ext1a ig(1)])
    have extL2: "lattice_extends L L2" by (rule lattice_extends_trans [OF Cons.prems(2) ext2])
    have look2: "getHashEntry L2 sc = Some e"
      by (rule lattice_extends_lookup [OF ig(1) look1a])
    have e2: "e < length (m_states L2)" using e1a ig(2) by simp
    have g2: "m_goal_entry L2 < length (m_states L2)" using inv2 by (simp add: lattice_inv_def)
    from isGoal_transfer [OF lattice_extends_trans [OF Cons.prems(2) ext1a] edge(6)]
    obtain Lg where isg: "isGoal L w ps = Some (b, Lg)" by blast
    have gen: "edge_generated L pst a"
      using edge(1,2,4) checkAction_extends [OF Cons.prems(2)]
        computePlanningFrameFK_extends [OF Cons.prems(2)]
      by (simp add: edge_generated_def)
    have lab2: "edge_label L L2 a ?sid"
      unfolding edge_label_def
      using edge(2,3,4) anglesToCoord_extends [OF Cons.prems(2)]
        computePlanningFrameFK_extends [OF Cons.prems(2)] isg look2
        inv_stateID [OF inv2 e2] inv_stateID [OF inv2 g2]
      by (auto simp: getGoalStateID_def)
    from Cons.IH [OF inv2 extL2 edge(7)]
    obtain s1 c1 where ih: "lattice_inv L'" "lattice_extends L2 L'"
      "s = (s0 @ [?sid]) @ s1" "c = (c0 @ [cost L2 pe e b]) @ c1" "length c1 = length s1"
      "list_all2 (edge_label L L') (filter (edge_generated L pst) rest) s1"
      by blast
    have lab: "edge_label L L' a ?sid" by (rule edge_label_mono [OF lab2 inv2 ih(2)])
    have "list_all2 (edge_label L L') (filter (edge_generated L pst) (a # rest)) (?sid # s1)"
      using gen lab ih(6) by simp
    moreover have "s = s0 @ (?sid # s1)" "c = c0 @ (cost L2 pe e b # c1)" using ih(3,4) by simp_all
    moreover have "length (cost L2 pe e b # c1) = length (?sid # s1)" using ih(5) by simp
    ultimately show ?thesis
      using ih(1) lattice_extends_trans [OF ext2 ih(2)] by blast
  qed
qed

lemma ex_lattice_explicit:
  "ex_lattice = \<lparr>robot = ex_robot, collisionChecker = ex_checker, params = ex_params,
      actionSpace = Some ex_actions, m_grid = ex_grid,
      m_fk_iface = Some (\<lambda>q. Some [q ! 0, q ! 1, 0, 0, 0, 0]),
      m_min_limits = [- 4, - 4], m_max_limits = [4, 4], m_continuous = [False, False],
      m_near_goal = False, m_goal = ex_goal0, m_goal_entry = 0, m_start_entry = None,
      m_states = [\<lparr>stateID = 0, coord = [0, 0], state = [], xyz = (0, 0, 0), dist_s = 0\<rparr>],
      m_state_to_id = [(0, 0)], m_expanded_states = []\<rparr>"
  by (simp add: ex_lattice_def setActionSpace_def ManipLattice_ctor_def createHashEntry_def
      Let_def ex_params_def ex_robot_def numeral_2_eq_2)

lemmas ex_eval = anglesToCoord_def anglesToCoord_joint_def nth_opt_def assert_that_def
  cast_int_def INT_MIN_def INT_MAX_def computePlanningFrameFK_def tipoff_translation_def
  vector_back_def checkAction_def getOrCreateState_def getHashEntry_def createHashEntry_def
  cost_def isGoal_def Let_def ex_robot_def ex_checker_def ex_params_def ex_grid_def ex_actions_def
  ex_goal0_def

lemma replicate_2: "replicate 2 x = [x, x]"
  by (simp add: numeral_2_eq_2)

lemma ex_setGoal: "setGoal ex_gt_of_int ex_lattice ex_xyz_goal = Some (True, ex_lattice_g)"
  by (simp add: setGoal_def setGoalPosition_def ex_xyz_goal_def ex_lattice_g_def ex_lattice_explicit
      getTargetOffsetPose_def zero_coord_def ex_gt_of_int_def replicate_2 ex_eval)

lemma ex_setStart: "setStart ex_lattice_g [0, 0] = Some (True, ex_lattice_s)"
  by (simp add: setStart_def ex_lattice_s_def ex_lattice_g_def ex_lattice_explicit ex_eval)

lemma ex_GetSuccs: "GetSuccs ex_lattice_s 1 = Some ([0], [1000], ex_lattice_x)"
  by (simp add: GetSuccs_def ex_lattice_x_def ex_lattice_s_def ex_lattice_g_def ex_lattice_explicit ex_eval)

lemma ex_lattice_s_inv: "lattice_inv ex_lattice_s"
  by (simp add: lattice_inv_def ex_lattice_s_def ex_lattice_g_def ex_lattice_explicit
      getHashEntry_def less_Suc_eq replicate_2 ex_params_def)

lemma ex_lattice_x_inv: "lattice_inv ex_lattice_x"
  by (simp add: lattice_inv_def ex_lattice_x_def ex_lattice_s_def ex_lattice_g_def ex_lattice_explicit
      getHashEntry_def less_Suc_eq replicate_2 ex_params_def)

subsection \<open>The loop of the true cost\<close>

lemma GetTrueCost_loop_Cons_cases:
  assumes "GetTrueCost_loop pe ce pst ge (a # rest) (bc, L1) = Some r"
  obtains (nofk) w sc where "vector_back a = Some w" "anglesToCoord L1 w = Some sc"
      "computePlanningFrameFK L1 w = Some None"
      "GetTrueCost_loop pe ce pst ge rest (bc, L1) = Some r"
  | (noreach) w sc ps L1a where "vector_back a = Some w" "anglesToCoord L1 w = Some sc"
      "computePlanningFrameFK L1 w = Some (Some ps)"
      "(if ge then isGoal L1 w ps else Some (sc = coord (m_states L1 ! ce), L1)) = Some (False, L1a)"
      "GetTrueCost_loop pe ce pst ge rest (bc, L1a) = Some r"
  | (invalid) w sc ps L1a d where "vector_back a = Some w" "anglesToCoord L1 w = Some sc"
      "computePlanningFrameFK L1 w = Some (Some ps)"
      "(if ge then isGoal L1 w ps else Some (sc = coord (m_states L1 ! ce), L1)) = Some (True, L1a)"
      "checkAction L1a pst a = Some (False, d)"
      "GetTrueCost_loop pe ce pst ge rest (bc, L1a) = Some r"
  | (valid) w sc ps L1a d se b L2 where "vector_back a = Some w" "anglesToCoord L1 w = Some sc"
      "computePlanningFrameFK L1 w = Some (Some ps)"
      "(if ge then isGoal L1 w ps else Some (sc = coord (m_states L1 ! ce), L1)) = Some (True, L1a)"
      "checkAction L1a pst a = Some (True, d)"
      "(if ge then getHashEntry L1a sc else Some ce) = Some se"
      "isGoal L1a w ps = Some (b, L2)"
      "GetTrueCost_loop pe ce pst ge rest
         (if cost L2 pe se b < bc then cost L2 pe se b else bc, L2) = Some r"
proof (cases "vector_back a")
  case None
  then show ?thesis using assms by simp
next
  case (Some w)
  note vb = Some
  show ?thesis
  proof (cases "anglesToCoord L1 w")
    case None
    then show ?thesis using assms vb by simp
  next
    case (Some sc)
    note ac = Some
    show ?thesis
    proof (cases "computePlanningFrameFK L1 w")
      case None
      then show ?thesis using assms vb ac by simp
    next
      case (Some fk)
      show ?thesis
      proof (cases fk)
        case None
        then show ?thesis using assms vb ac Some nofk by simp
      next
        case (Some ps)
        note fk = \<open>computePlanningFrameFK L1 w = Some fk\<close> [unfolded Some]
        let ?reach = "if ge then isGoal L1 w ps else Some (sc = coord (m_states L1 ! ce), L1)"
        show ?thesis
        proof (cases ?reach)
          case None
          then show ?thesis using assms vb ac fk by simp
        next
          case (Some rl)
          obtain reaches L1a where rl: "rl = (reaches, L1a)" by (cases rl)
          note re = Some [unfolded rl]
          show ?thesis
          proof (cases reaches)
            case False
            then show ?thesis using assms vb ac fk re noreach [of w sc ps L1a] by simp
          next
            case True
            note re = re [unfolded True [THEN eqTrueI]]
            show ?thesis
            proof (cases "checkAction L1a pst a")
              case None
              then show ?thesis using assms vb ac fk re by simp
            next
              case (Some okd)
              obtain ok d where okd: "okd = (ok, d)" by (cases okd)
              note ca = Some [unfolded okd]
              show ?thesis
              proof (cases ok)
                case False
                then show ?thesis using assms vb ac fk re ca invalid [of w sc ps L1a d] by simp
              next
                case True
                note ca = ca [unfolded True [THEN eqTrueI]]
                show ?thesis
                proof (cases "if ge then getHashEntry L1a sc else Some ce")
                  case None
                  then show ?thesis using assms vb ac fk re ca by simp
                next
                  case (Some se)
                  note se = Some
                  show ?thesis
                  proof (cases "isGoal L1a w ps")
                    case None
                    then show ?thesis using assms vb ac fk re ca se by simp
                  next
                    case (Some bl)
                    obtain b L2 where bl: "bl = (b, L2)" by (cases bl)
                    show ?thesis
                      using assms vb ac fk re ca se Some [unfolded bl]
                      by (intro valid [of w sc ps L1a d se b L2]) (simp_all add: Let_def)
                  qed
                qed
              qed
            qed
          qed
        qed
      qed
    qed
  qed
qed

lemma reach_step:
  assumes ext: "lattice_extends L L1" and st: "m_states L1 = m_states L"
    and ac: "anglesToCoord L1 w = Some sc"
    and re: "(if ge then isGoal L1 w ps else Some (sc = coord (m_states L1 ! ce), L1)) = Some (reaches, L1a)"
    and ge: "ge = (ce = m_goal_entry L)"
  shows "lattice_extends L L1a \<and> lattice_extends L1 L1a \<and> m_states L1a = m_states L \<and>
         m_state_to_id L1a = m_state_to_id L1 \<and>
         reaches = (if ce = m_goal_entry L
                    then (case isGoal L w ps of Some (b, Lg) \<Rightarrow> b | None \<Rightarrow> False)
                    else anglesToCoord L w = Some (coord (m_states L ! ce)))"
proof (cases ge)
  case True
  then have ig: "isGoal L1 w ps = Some (reaches, L1a)" using re by simp
  obtain Lg where "isGoal L w ps = Some (reaches, Lg)" using isGoal_transfer [OF ext ig] by blast
  then show ?thesis
    using isGoal_extends [OF ig] lattice_extends_trans [OF ext isGoal_extends(1) [OF ig]] st True ge
    by simp
next
  case False
  then have "reaches = (sc = coord (m_states L1 ! ce))" "L1a = L1" using re by auto
  then show ?thesis
    using ext st False ge ac anglesToCoord_extends [OF ext, of w]
    by (auto simp: lattice_extends_refl)
qed

lemma GetTrueCost_loop_spec:
  assumes "lattice_extends L L1" "m_states L1 = m_states L" "ge = (ce = m_goal_entry L)"
    "GetTrueCost_loop pe ce pst ge acts (bc, L1) = Some (r, L')"
  shows "lattice_extends L1 L' \<and> m_states L' = m_states L \<and> m_state_to_id L' = m_state_to_id L1 \<and>
         r = (if filter (transition_valid L pst ce) acts = [] then bc
              else min bc (cost_multiplier (params L)))"
  using assms
proof (induction acts arbitrary: bc L1)
  case Nil
  then show ?case by (simp add: lattice_extends_refl)
next
  case (Cons a rest)
  note ext = Cons.prems(1) and st = Cons.prems(2) and ge = Cons.prems(3)
  from Cons.prems(4) show ?case
  proof (cases rule: GetTrueCost_loop_Cons_cases)
    case (nofk w sc)
    have "computePlanningFrameFK L w = Some None"
      using nofk(3) computePlanningFrameFK_extends [OF ext] by simp
    then have "\<not> transition_valid L pst ce a" using nofk(1) by (simp add: transition_valid_def)
    then show ?thesis using Cons.IH [OF ext st ge nofk(4)] by simp
  next
    case (noreach w sc ps L1a)
    note rs = reach_step [OF ext st noreach(2,4) ge]
    have "computePlanningFrameFK L w = Some (Some ps)"
      using noreach(3) computePlanningFrameFK_extends [OF ext] by simp
    then have nv: "\<not> transition_valid L pst ce a"
      using noreach(1) rs by (auto simp: transition_valid_def)
    have e1: "lattice_extends L L1a" and e2: "lattice_extends L1 L1a"
      and s1: "m_states L1a = m_states L" and t1: "m_state_to_id L1a = m_state_to_id L1"
      using rs by simp_all
    from Cons.IH [OF e1 s1 ge noreach(5)] nv t1 lattice_extends_trans [OF e2]
    show ?thesis by auto
  next
    case (invalid w sc ps L1a d)
    note rs = reach_step [OF ext st invalid(2,4) ge]
    have e1: "lattice_extends L L1a" and e2: "lattice_extends L1 L1a"
      and s1: "m_states L1a = m_states L" and t1: "m_state_to_id L1a = m_state_to_id L1"
      using rs by simp_all
    have "checkAction L pst a = Some (False, d)"
      using invalid(5) checkAction_extends [OF e1] by simp
    then have nv: "\<not> transition_valid L pst ce a"
      using invalid(1) by (auto simp: transition_valid_def split: option.splits)
    from Cons.IH [OF e1 s1 ge invalid(6)] nv t1 lattice_extends_trans [OF e2]
    show ?thesis by auto
  next
    case (valid w sc ps L1a d se b L2)
    note rs = reach_step [OF ext st valid(2,4) ge]
    have e1: "lattice_extends L L1a" and e2: "lattice_extends L1 L1a"
      and s1: "m_states L1a = m_states L" and t1: "m_state_to_id L1a = m_state_to_id L1"
      using rs by simp_all
    note ig = isGoal_extends [OF valid(7)]
    have e3: "lattice_extends L L2" by (rule lattice_extends_trans [OF e1 ig(1)])
    have e4: "lattice_extends L1 L2" by (rule lattice_extends_trans [OF e2 ig(1)])
    have s2: "m_states L2 = m_states L" using ig(2) s1 by simp
    have t2: "m_state_to_id L2 = m_state_to_id L1" using ig(3) t1 by simp
    have fk: "computePlanningFrameFK L w = Some (Some ps)"
      using valid(3) computePlanningFrameFK_extends [OF ext] by simp
    have ca: "checkAction L pst a = Some (True, d)"
      using valid(5) checkAction_extends [OF e1] by simp
    have v: "transition_valid L pst ce a"
      using valid(1) fk ca rs by (auto simp: transition_valid_def)
    have c: "cost L2 pe se b = cost_multiplier (params L)"
      using lattice_extends_fields(1) [OF e3] by (simp add: cost_def)
    from Cons.IH [OF e3 s2 ge valid(8)] v t2 lattice_extends_trans [OF e4]
    show ?thesis by (auto simp: c min_def)
  qed
qed

lemma ex_lattice_p0_explicit:
  "ex_lattice_p0 = \<lparr>robot = ex_robot_p, collisionChecker = ex_checker, params = ex_params,
      actionSpace = Some ex_actions_q, m_grid = ex_grid,
      m_fk_iface = Some (\<lambda>q. if q ! 0 \<le> 0 then Some [q ! 0, q ! 1, 0, 0, 0, 0] else None),
      m_min_limits = [- 4, - 4], m_max_limits = [4, 4], m_continuous = [False, False],
      m_near_goal = False, m_goal = ex_goal0, m_goal_entry = 0, m_start_entry = None,
      m_states = [\<lparr>stateID = 0, coord = [0, 0], state = [], xyz = (0, 0, 0), dist_s = 0\<rparr>],
      m_state_to_id = [(0, 0)], m_expanded_states = []\<rparr>"
  by (simp add: ex_lattice_p0_def setActionSpace_def ManipLattice_ctor_def createHashEntry_def
      Let_def ex_params_def ex_robot_p_def ex_robot_def numeral_2_eq_2)

lemmas ex_p_eval = ex_lattice_p_def ex_lattice_p0_explicit ex_robot_p_def ex_actions_q_def ex_eval

lemma ex_p_setStart: "setStart ex_lattice_p0 [0, 0] = Some (True, ex_lattice_p)"
  by (simp add: setStart_def ex_p_eval)

subsection \<open>The loops of the path extraction\<close>

lemma extractPath_goal_loop_Cons_cases:
  assumes "extractPath_goal_loop pe pst (a # rest) (bc, bg, L1) = Some r"
  obtains (nofk) w where "vector_back a = Some w" "computePlanningFrameFK L1 w = Some None"
      "extractPath_goal_loop pe pst rest (bc, bg, L1) = Some r"
  | (nogoal) w ps L1a where "vector_back a = Some w"
      "computePlanningFrameFK L1 w = Some (Some ps)" "isGoal L1 w ps = Some (False, L1a)"
      "extractPath_goal_loop pe pst rest (bc, bg, L1a) = Some r"
  | (invalid) w ps L1a d where "vector_back a = Some w"
      "computePlanningFrameFK L1 w = Some (Some ps)" "isGoal L1 w ps = Some (True, L1a)"
      "checkAction L1a pst a = Some (False, d)"
      "extractPath_goal_loop pe pst rest (bc, bg, L1a) = Some r"
  | (valid) w ps L1a d sc se where "vector_back a = Some w"
      "computePlanningFrameFK L1 w = Some (Some ps)" "isGoal L1 w ps = Some (True, L1a)"
      "checkAction L1a pst a = Some (True, d)" "anglesToCoord L1a w = Some sc"
      "getHashEntry L1a sc = Some se"
      "extractPath_goal_loop pe pst rest
         (if cost L1a pe se True < bc then (cost L1a pe se True, Some se, L1a)
          else (bc, bg, L1a)) = Some r"
proof (cases "vector_back a")
  case None
  then show ?thesis using assms by simp
next
  case (Some w)
  note vb = Some
  show ?thesis
  proof (cases "computePlanningFrameFK L1 w")
    case None
    then show ?thesis using assms vb by simp
  next
    case (Some fk)
    show ?thesis
    proof (cases fk)
      case None
      then show ?thesis using assms vb Some nofk by simp
    next
      case (Some ps)
      note fk = \<open>computePlanningFrameFK L1 w = Some fk\<close> [unfolded Some]
      show ?thesis
      proof (cases "isGoal L1 w ps")
        case None
        then show ?thesis using assms vb fk by simp
      next
        case (Some gl)
        obtain g L1a where gl: "gl = (g, L1a)" by (cases gl)
        note ig = Some [unfolded gl]
        show ?thesis
        proof (cases g)
          case False
          then show ?thesis using assms vb fk ig nogoal [of w ps L1a] by simp
        next
          case True
          note ig = ig [unfolded True [THEN eqTrueI]]
          show ?thesis
          proof (cases "checkAction L1a pst a")
            case None
            then show ?thesis using assms vb fk ig by simp
          next
            case (Some okd)
            obtain ok d where okd: "okd = (ok, d)" by (cases okd)
            note ca = Some [unfolded okd]
            show ?thesis
            proof (cases ok)
              case False
              then show ?thesis using assms vb fk ig ca invalid [of w ps L1a d] by simp
            next
              case True
              note ca = ca [unfolded True [THEN eqTrueI]]
              show ?thesis
              proof (cases "anglesToCoord L1a w")
                case None
                then show ?thesis using assms vb fk ig ca by simp
              next
                case (Some sc)
                note ac = Some
                show ?thesis
                proof (cases "getHashEntry L1a sc")
                  case None
                  then show ?thesis using assms vb fk ig ca ac by simp
                next
                  case (Some se)
                  show ?thesis
                    using assms vb fk ig ca ac Some
                    by (intro valid [of w ps L1a d sc se]) (simp_all add: Let_def)
                qed
              qed
            qed
          qed
        qed
      qed
    qed
  qed
qed

lemma getHashEntry_same:
  "m_states L' = m_states L \<Longrightarrow> m_state_to_id L' = m_state_to_id L \<Longrightarrow>
   getHashEntry L' c = getHashEntry L c"
  by (simp add: getHashEntry_def)

lemma extractPath_goal_loop_spec:
  assumes "lattice_extends L L1" "m_states L1 = m_states L" "m_state_to_id L1 = m_state_to_id L"
    "extractPath_goal_loop pe pst acts (bc, bg, L1) = Some (bc', bg', L')"
  shows "lattice_extends L1 L' \<and> m_states L' = m_states L \<and> m_state_to_id L' = m_state_to_id L \<and>
         (if filter (transition_valid L pst (m_goal_entry L)) acts = [] \<or>
             \<not> cost_multiplier (params L) < bc
          then bc' = bc \<and> bg' = bg
          else bc' = cost_multiplier (params L) \<and>
               (\<exists>w c e. vector_back (hd (filter (transition_valid L pst (m_goal_entry L)) acts)) = Some w \<and>
                  anglesToCoord L w = Some c \<and> getHashEntry L c = Some e \<and> bg' = Some e))"
  using assms
proof (induction acts arbitrary: bc bg L1)
  case Nil
  then show ?case by (simp add: lattice_extends_refl)
next
  case (Cons a rest)
  note ext = Cons.prems(1) and st = Cons.prems(2) and tb = Cons.prems(3)
  from Cons.prems(4) show ?case
  proof (cases rule: extractPath_goal_loop_Cons_cases)
    case (nofk w)
    have "computePlanningFrameFK L w = Some None"
      using nofk(2) computePlanningFrameFK_extends [OF ext] by simp
    then have "\<not> transition_valid L pst (m_goal_entry L) a"
      using nofk(1) by (simp add: transition_valid_def)
    then show ?thesis using Cons.IH [OF ext st tb nofk(3)] by (auto split: if_splits)
  next
    case (nogoal w ps L1a)
    note ig = isGoal_extends [OF nogoal(3)]
    obtain Lg where "isGoal L w ps = Some (False, Lg)"
      using isGoal_transfer [OF ext nogoal(3)] by blast
    moreover have "computePlanningFrameFK L w = Some (Some ps)"
      using nogoal(2) computePlanningFrameFK_extends [OF ext] by simp
    ultimately have nv: "\<not> transition_valid L pst (m_goal_entry L) a"
      using nogoal(1) by (simp add: transition_valid_def)
    have e1: "lattice_extends L L1a" by (rule lattice_extends_trans [OF ext ig(1)])
    have s1: "m_states L1a = m_states L" and t1: "m_state_to_id L1a = m_state_to_id L"
      using ig st tb by simp_all
    from Cons.IH [OF e1 s1 t1 nogoal(4)] nv lattice_extends_trans [OF ig(1)]
    show ?thesis by auto
  next
    case (invalid w ps L1a d)
    note ig = isGoal_extends [OF invalid(3)]
    have e1: "lattice_extends L L1a" by (rule lattice_extends_trans [OF ext ig(1)])
    have s1: "m_states L1a = m_states L" and t1: "m_state_to_id L1a = m_state_to_id L"
      using ig st tb by simp_all
    have "checkAction L pst a = Some (False, d)"
      using invalid(4) checkAction_extends [OF e1] by simp
    then have nv: "\<not> transition_valid L pst (m_goal_entry L) a"
      using invalid(1) by (auto simp: transition_valid_def split: option.splits)
    from Cons.IH [OF e1 s1 t1 invalid(5)] nv lattice_extends_trans [OF ig(1)]
    show ?thesis by auto
  next
    case (valid w ps L1a d sc se)
    note ig = isGoal_extends [OF valid(3)]
    have e1: "lattice_extends L L1a" by (rule lattice_extends_trans [OF ext ig(1)])
    have s1: "m_states L1a = m_states L" and t1: "m_state_to_id L1a = m_state_to_id L"
      using ig st tb by simp_all
    obtain Lg where isg: "isGoal L w ps = Some (True, Lg)"
      using isGoal_transfer [OF ext valid(3)] by blast
    have fk: "computePlanningFrameFK L w = Some (Some ps)"
      using valid(2) computePlanningFrameFK_extends [OF ext] by simp
    have ca: "checkAction L pst a = Some (True, d)"
      using valid(4) checkAction_extends [OF e1] by simp
    have v: "transition_valid L pst (m_goal_entry L) a"
      using valid(1) fk ca isg by (simp add: transition_valid_def)
    have ac: "anglesToCoord L w = Some sc"
      using valid(5) anglesToCoord_extends [OF e1] by simp
    have he: "getHashEntry L sc = Some se"
      using valid(6) getHashEntry_same [OF s1 t1] by simp
    have c: "cost L1a pe se True = cost_multiplier (params L)"
      using lattice_extends_fields(1) [OF e1] by (simp add: cost_def)
    show ?thesis
    proof (cases "cost_multiplier (params L) < bc")
      case True
      then have "extractPath_goal_loop pe pst rest (cost_multiplier (params L), Some se, L1a)
                   = Some (bc', bg', L')"
        using valid(7) c by simp
      from Cons.IH [OF e1 s1 t1 this] v True valid(1) ac he lattice_extends_trans [OF ig(1)]
      show ?thesis by auto
    next
      case False
      then have "extractPath_goal_loop pe pst rest (bc, bg, L1a) = Some (bc', bg', L')"
        using valid(7) c by simp
      from Cons.IH [OF e1 s1 t1 this] False lattice_extends_trans [OF ig(1)]
      show ?thesis by auto
    qed
  qed
qed

lemma getGoalStateID_same:
  "lattice_extends L L1 \<Longrightarrow> m_states L1 = m_states L \<Longrightarrow> getGoalStateID L1 = getGoalStateID L"
  by (simp add: getGoalStateID_def lattice_extends_fields(11))

lemma take_Suc_snoc:
  assumes "take (Suc (length ys)) xs = ys @ [x]"
  shows "take (length ys) xs = ys"
proof -
  have "take (length ys) (take (Suc (length ys)) xs) = take (length ys) (ys @ [x])"
    by (simp only: assms)
  then show ?thesis by simp
qed

lemma extractPath_loop_spec:
  assumes "lattice_extends L L1" "m_states L1 = m_states L" "m_state_to_id L1 = m_state_to_id L"
    and "actionSpace L = Some ap"
    and "extractPath_loop ap prev ids (opath, L1) = Some (True, path, L')"
  shows "length path = length opath + length ids \<and> take (length opath) path = opath \<and>
         (\<forall>j < length ids. ids ! j = getGoalStateID L \<longrightarrow>
            goal_resynthesis L (nat ((prev # ids) ! j)) (path ! (length opath + j)))"
  using assms
proof (induction ids arbitrary: prev opath L1)
  case Nil
  then show ?case by simp
next
  case (Cons cur rest)
  note ext = Cons.prems(1) and st = Cons.prems(2) and tb = Cons.prems(3) and ap = Cons.prems(4)
  note loop = Cons.prems(5)
  have gid: "getGoalStateID L1 = getGoalStateID L" by (rule getGoalStateID_same [OF ext st])
  have pg: "prev \<noteq> getGoalStateID L" using loop gid by (auto split: if_splits)
  show ?case
  proof (cases "cur = getGoalStateID L")
    case True
    let ?pe = "nat prev"
    let ?pst = "state (m_states L ! ?pe)"
    from loop pg True gid have rng: "0 \<le> prev" "prev < int (length (m_states L))"
      by (auto simp: assert_that_def st split: if_splits)
    from loop pg True gid rng obtain acts where acts: "ap ?pst = Some acts"
      by (cases "ap ?pst") (auto simp: assert_that_def st Let_def)
    from loop pg True gid rng acts obtain bc bg Lx where
      gl: "extractPath_goal_loop ?pe ?pst acts (INT_MAX, None, L1) = Some (bc, bg, Lx)"
      by (cases "extractPath_goal_loop ?pe ?pst acts (INT_MAX, None, L1)")
         (auto simp: assert_that_def st Let_def)
    from loop pg True gid rng acts gl obtain b where b: "bg = Some b"
      and rec: "extractPath_loop ap cur rest (opath @ [state (m_states Lx ! b)], Lx) = Some (True, path, L')"
      by (cases bg) (auto simp: assert_that_def st Let_def)
    note sp = extractPath_goal_loop_spec [OF ext st tb gl]
    have ex: "lattice_extends L Lx" using lattice_extends_trans [OF ext] sp by blast
    have sx: "m_states Lx = m_states L" and tx: "m_state_to_id Lx = m_state_to_id L"
      using sp by simp_all
    let ?Q = "filter (transition_valid L ?pst (m_goal_entry L)) acts"
    have q: "?Q \<noteq> []" "cost_multiplier (params L) < INT_MAX" using sp b by (auto split: if_splits)
    then obtain w c e where wce: "vector_back (hd ?Q) = Some w" "anglesToCoord L w = Some c"
      "getHashEntry L c = Some e" "b = e"
      using sp b by (auto split: if_splits)
    have en: "enumerated_actions L ?pst = acts" using ap acts by (simp add: enumerated_actions_def)
    have res: "goal_resynthesis L ?pe (state (m_states L ! b))"
      unfolding goal_resynthesis_def en using q wce by (auto simp: Let_def)
    note ih = Cons.IH [OF ex sx tx ap rec]
    have len: "length path = length opath + length (cur # rest)" using ih by simp
    have tk: "take (Suc (length opath)) path = opath @ [state (m_states L ! b)]"
      using ih by (simp add: sx)
    have tk0: "take (length opath) path = opath" by (rule take_Suc_snoc [OF tk])
    have "path ! length opath = take (Suc (length opath)) path ! length opath" by simp
    then have el: "path ! length opath = state (m_states L ! b)" by (simp only: tk nth_append_length)
    have "goal_resynthesis L (nat ((prev # cur # rest) ! j)) (path ! (length opath + j))"
      if "j < length (cur # rest)" "(cur # rest) ! j = getGoalStateID L" for j
    proof (cases j)
      case 0
      then show ?thesis using res el by simp
    next
      case (Suc k)
      then show ?thesis using ih that by simp
    qed
    then show ?thesis using len tk0 by blast
  next
    case False
    from loop pg False gid obtain cs where cs: "StateID2Angles L1 cur = Some cs"
      and rec: "extractPath_loop ap cur rest (opath @ [cs], L1) = Some (True, path, L')"
      by (cases "StateID2Angles L1 cur") auto
    note ih = Cons.IH [OF ext st tb ap rec]
    have len: "length path = length opath + length (cur # rest)" using ih by simp
    have tk: "take (Suc (length opath)) path = opath @ [cs]" using ih by simp
    have tk0: "take (length opath) path = opath" by (rule take_Suc_snoc [OF tk])
    have "goal_resynthesis L (nat ((prev # cur # rest) ! j)) (path ! (length opath + j))"
      if "j < length (cur # rest)" "(cur # rest) ! j = getGoalStateID L" for j
    proof (cases j)
      case 0
      then show ?thesis using that False by simp
    next
      case (Suc k)
      then show ?thesis using ih that by simp
    qed
    then show ?thesis using len tk0 by blast
  qed
qed

lemma ex_q_reached:
  "setGoal ex_gt_of_int (setActionSpace ex_lattice ex_actions_q) ex_xyz_goal_q
     = Some (True, ex_lattice_q0\<lparr>m_start_entry := None, m_states := m_states ex_lattice,
                                 m_state_to_id := m_state_to_id ex_lattice\<rparr>)"
  "setStart (ex_lattice_q0\<lparr>m_start_entry := None, m_states := m_states ex_lattice,
                            m_state_to_id := m_state_to_id ex_lattice\<rparr>) [0, 0]
     = Some (True, ex_lattice_q0)"
  by (simp_all add: setGoal_def setGoalPosition_def setStart_def setActionSpace_def
      ex_xyz_goal_q_def ex_xyz_goal_def ex_lattice_q0_def ex_lattice_explicit
      getTargetOffsetPose_def zero_coord_def ex_gt_of_int_def replicate_2 ex_actions_q_def ex_eval)

lemma getGoalStateID_inv: "lattice_inv L \<Longrightarrow> getGoalStateID L = int (m_goal_entry L)"
  by (simp add: getGoalStateID_def lattice_inv_def)

subsection \<open>The loop of the lazy successors\<close>

lemma GetLazySuccs_loop_Cons_cases:
  assumes "GetLazySuccs_loop se (a # rest) (s0, c0, t0, L1) = Some r"
  obtains (nofk) w sc where "vector_back a = Some w" "anglesToCoord L1 w = Some sc"
      "computePlanningFrameFK L1 w = Some None"
      "GetLazySuccs_loop se rest (s0, c0, t0, L1) = Some r"
  | (edge) w sc ps b L1a e L2 where "vector_back a = Some w" "anglesToCoord L1 w = Some sc"
      "computePlanningFrameFK L1 w = Some (Some ps)" "isGoal L1 w ps = Some (b, L1a)"
      "getOrCreateState L1a sc w 0 (worldToGrid (m_grid L1) (ps ! 0) (ps ! 1) (ps ! 2)) = (e, L2)"
      "GetLazySuccs_loop se rest
         (s0 @ [if b then stateID (m_states L2 ! m_goal_entry L2) else stateID (m_states L2 ! e)],
          c0 @ [cost L2 se e b], t0 @ [False], L2) = Some r"
proof (cases "vector_back a")
  case None
  then show ?thesis using assms by simp
next
  case (Some w)
  note vb = Some
  show ?thesis
  proof (cases "anglesToCoord L1 w")
    case None
    then show ?thesis using assms vb by simp
  next
    case (Some sc)
    note ac = Some
    show ?thesis
    proof (cases "computePlanningFrameFK L1 w")
      case None
      then show ?thesis using assms vb ac by simp
    next
      case (Some fk)
      show ?thesis
      proof (cases fk)
        case None
        then show ?thesis using assms vb ac Some nofk by simp
      next
        case (Some ps)
        note fk = \<open>computePlanningFrameFK L1 w = Some fk\<close> [unfolded Some]
        have len: "3 \<le> length ps"
          using assms vb ac fk by (simp add: assert_that_def split: if_splits)
        show ?thesis
        proof (cases "isGoal L1 w ps")
          case None
          then show ?thesis using assms vb ac fk len by (simp add: assert_that_def)
        next
          case (Some bl)
          obtain b L1a where bl: "bl = (b, L1a)" by (cases bl)
          obtain e L2 where
            gc: "getOrCreateState L1a sc w 0 (worldToGrid (m_grid L1) (ps ! 0) (ps ! 1) (ps ! 2)) = (e, L2)"
            by (cases "getOrCreateState L1a sc w 0 (worldToGrid (m_grid L1) (ps ! 0) (ps ! 1) (ps ! 2))")
          show ?thesis
            using assms vb ac fk len Some [unfolded bl] gc
            by (intro edge [of w sc ps b L1a e L2]) (simp_all add: assert_that_def)
        qed
      qed
    qed
  qed
qed

lemma GetLazySuccs_loop_spec:
  assumes "lattice_inv L1" "GetLazySuccs_loop se acts (s0, c0, t0, L1) = Some (s, c, t, L')"
  shows "lattice_inv L' \<and> lattice_extends L1 L' \<and>
         (\<exists>ext. m_states L' = m_states L1 @ ext \<and> (\<forall>x \<in> set ext. dist_s x = 0))"
  using assms
proof (induction acts arbitrary: s0 c0 t0 L1)
  case Nil
  then show ?case by (simp add: lattice_extends_refl)
next
  case (Cons a rest)
  from Cons.prems(2) show ?case
  proof (cases rule: GetLazySuccs_loop_Cons_cases)
    case (nofk w sc)
    then show ?thesis using Cons.IH [OF Cons.prems(1)] by blast
  next
    case (edge w sc ps b L1a e L2)
    note ig = isGoal_extends [OF edge(4)]
    have inv1a: "lattice_inv L1a" by (rule ig(4) [OF Cons.prems(1)])
    note gp = getOrCreateState_props [OF inv1a edge(5)]
    obtain ext1 where x1: "m_states L2 = m_states L1 @ ext1" "\<forall>x \<in> set ext1. dist_s x = 0"
      using gp ig(2) by auto
    have inv2: "lattice_inv L2" and e12: "lattice_extends L1 L2"
      using gp lattice_extends_trans [OF ig(1)] by blast+
    from Cons.IH [OF inv2 edge(6)] obtain ext2 where
      ih: "lattice_inv L'" "lattice_extends L2 L'" "m_states L' = m_states L2 @ ext2"
        "\<forall>x \<in> set ext2. dist_s x = 0"
      by blast
    have "m_states L' = m_states L1 @ (ext1 @ ext2)" "\<forall>x \<in> set (ext1 @ ext2). dist_s x = 0"
      using x1 ih(3,4) by auto
    then show ?thesis using ih(1) lattice_extends_trans [OF e12 ih(2)] by blast
  qed
qed

lemma GetTrueCost_states:
  assumes "GetTrueCost L parentID childID = Some (r, L')"
  shows "m_states L' = m_states L \<and> m_state_to_id L' = m_state_to_id L \<and> lattice_extends L L'"
proof (cases "actionSpace L")
  case None
  then show ?thesis using assms
    by (auto simp: GetTrueCost_def assert_that_def Let_def lattice_extends_refl split: if_splits)
next
  case (Some ap)
  show ?thesis
  proof (cases "ap (state (m_states L ! nat parentID))")
    case None
    then show ?thesis using assms Some
      by (auto simp: GetTrueCost_def assert_that_def Let_def lattice_extends_refl split: if_splits)
  next
    case acts: (Some acts)
    from assms Some acts obtain best Lx where
      loop: "GetTrueCost_loop (nat parentID) (nat childID) (state (m_states L ! nat parentID))
               (nat childID = m_goal_entry L) acts (INT_MAX, L) = Some (best, Lx)"
      and res: "L' = Lx"
      by (auto simp: GetTrueCost_def assert_that_def bind_eq_Some_conv Let_def split: if_splits)
    from GetTrueCost_loop_spec [OF lattice_extends_refl refl refl loop] res
    show ?thesis by simp
  qed
qed

lemma ex_GetLazySuccs: "GetLazySuccs ex_lattice_s 1 = Some ([0], [1000], [False], ex_lattice_lz)"
  by (simp add: GetLazySuccs_def ex_lattice_lz_def ex_lattice_s_def ex_lattice_g_def
      ex_lattice_explicit ex_eval)

subsection \<open>The start state\<close>

lemma start_entry_inv:
  "lattice_inv L \<Longrightarrow> e < length (m_states L) \<Longrightarrow> lattice_inv (L\<lparr>m_start_entry := Some e\<rparr>)"
  by (simp add: lattice_inv_def getHashEntry_def)

lemma createHashEntry_entry:
  assumes inv: "lattice_inv L" and abs: "getHashEntry L c = None"
    and r: "getOrCreateState L c st d cell = (e, L')"
  shows "state (m_states L' ! e) = st \<and> xyz (m_states L' ! e) = cell \<and> dist_s (m_states L' ! e) = d"
proof -
  have keys: "\<forall>(k, v) \<in> set (m_state_to_id L). k < length (m_states L)"
    using inv by (auto simp: lattice_inv_def)
  have "createHashEntry L c st d cell = (e, L')" using r abs by (simp add: getOrCreateState_def)
  then show ?thesis
    unfolding createHashEntry_absent [OF keys abs] by auto
qed

lemma ex_lattice_g_inv: "lattice_inv ex_lattice_g"
  by (simp add: lattice_inv_def ex_lattice_g_def ex_lattice_explicit
      getHashEntry_def replicate_2 ex_params_def)

subsection \<open>The rotation error at two yaw angles\<close>

lemma ex_r_setGoal: "setGoal ex_gt_of_int ex_lattice ex_rpy_goal = Some (True, ex_lattice_r)"
  by (simp add: setGoal_def setGoalPosition_def ex_rpy_goal_def ex_lattice_r_def ex_lattice_explicit
      getTargetOffsetPose_def zero_coord_def ex_gt_of_int_def replicate_2 ex_eval)

lemma quat_yaw: "quat_of_rpy 0 0 y = (cos (y / 2), 0, 0, sin (y / 2))"
  by (simp add: quat_of_rpy_def)

lemma ex_dot:
  "quat_dot (quat_of_rpy 0 0 (2 * pi / 3)) (quat_of_rpy 0 0 (- (2 * pi / 3))) = - (1 / 2)"
proof -
  have a: "2 * pi / 3 / 2 = pi / 3" "- (2 * pi / 3) / 2 = - (pi / 3)" by simp_all
  have s: "sqrt 3 * sqrt 3 = 3" by simp
  have "quat_dot (quat_of_rpy 0 0 (2 * pi / 3)) (quat_of_rpy 0 0 (- (2 * pi / 3)))
      = 1 / 2 * (1 / 2) + sqrt 3 / 2 * (- (sqrt 3 / 2))"
    unfolding quat_yaw a by (simp add: cos_60 sin_60)
  also have "\<dots> = 1 / 4 - (sqrt 3 * sqrt 3) / 4" by (simp add: field_simps)
  also have "\<dots> = - (1 / 2)" unfolding s by simp
  finally show ?thesis .
qed

lemma normalize_angle_positive_id:
  "0 \<le> a \<Longrightarrow> a < 2 * pi \<Longrightarrow> normalize_angle_positive a = a"
proof -
  assume a: "0 \<le> a" "a < 2 * pi"
  have "\<lfloor>a / (2 * pi)\<rfloor> = 0" using a by (simp add: floor_eq_iff)
  then show ?thesis by (simp add: normalize_angle_positive_def)
qed

lemma normalize_angle_upper:
  "pi < a \<Longrightarrow> a < 2 * pi \<Longrightarrow> normalize_angle a = a - 2 * pi"
  using normalize_angle_positive_id [of a] pi_gt_zero
  by (simp add: normalize_angle_def Let_def del: pi_gt_zero)

lemma normalize_angle_id:
  "0 \<le> a \<Longrightarrow> a \<le> pi \<Longrightarrow> normalize_angle a = a"
  using normalize_angle_positive_id [of a] pi_gt_zero
  by (simp add: normalize_angle_def Let_def del: pi_gt_zero)

lemma ex_theta_code: "normalize_angle (4 * pi / 3) = - (2 * pi / 3)"
proof -
  have "normalize_angle (4 * pi / 3) = 4 * pi / 3 - 2 * pi"
    by (rule normalize_angle_upper) simp_all
  then show ?thesis by simp
qed

lemma ex_theta_spec: "normalize_angle (2 * pi / 3) = 2 * pi / 3"
  by (rule normalize_angle_id) simp_all

subsection \<open>When the calls return\<close>

lemma checkAction_defined: "a \<noteq> [] \<Longrightarrow> \<exists>ok d. checkAction L st a = Some (ok, d)"
  by (cases "isStateToStateValid (collisionChecker L) st (a ! 0)")
     (auto simp: checkAction_def nth_opt_def split: prod.splits)

lemma computePlanningFrameFK_defined:
  assumes "length w = num_joints (params L)" "fk_pose_ok L w"
  shows "computePlanningFrameFK L w = Some None \<or>
         (\<exists>ps. computePlanningFrameFK L w = Some (Some ps) \<and> length ps = 6)"
proof (cases "m_fk_iface L")
  case None
  then show ?thesis using assms by (simp add: computePlanningFrameFK_def assert_that_def)
next
  case (Some fk)
  show ?thesis
  proof (cases "fk w")
    case None
    then show ?thesis using assms Some by (simp add: computePlanningFrameFK_def assert_that_def)
  next
    case ps: (Some ps)
    then have "length ps = 6" using assms(2) Some by (auto simp: fk_pose_ok_def)
    then show ?thesis using assms Some ps
      by (auto simp: computePlanningFrameFK_def assert_that_def split: prod.splits)
  qed
qed

lemma isGoal_joints_defined:
  "i + length gs \<le> length st \<Longrightarrow> i + length gs \<le> length tols \<Longrightarrow>
   \<exists>b. isGoal_joints st tols i gs = Some b"
  by (induction gs arbitrary: i) (auto simp: nth_opt_def)

lemma isGoal_defined:
  assumes "goal_defined L" "length w = num_joints (params L)" "length ps = 6"
  shows "\<exists>b L'. isGoal L w ps = Some (b, L')"
proof (cases "goal_type (m_goal L)")
  case XYZ_GOAL
  then show ?thesis using assms
    by (auto simp: isGoal_def goal_defined_def assert_that_def split: prod.splits)
next
  case XYZ_RPY_GOAL
  then show ?thesis using assms
    by (auto simp: isGoal_def goal_defined_def assert_that_def Let_def split: prod.splits)
next
  case JOINT_STATE_GOAL
  then have "\<exists>b. isGoal_joints w (angle_tolerances (m_goal L)) 0 (angles (m_goal L)) = Some b"
    using assms by (intro isGoal_joints_defined) (auto simp: goal_defined_def)
  then show ?thesis using JOINT_STATE_GOAL by (auto simp: isGoal_def)
next
  case INVALID_GOAL_TYPE
  then show ?thesis by (auto simp: isGoal_def)
qed

lemma goal_defined_extends:
  assumes "lattice_extends L L'"
  shows "goal_defined L' = goal_defined L"
  unfolding goal_defined_def lattice_extends_fields [OF assms] by (rule refl)

lemma action_defined_extends:
  assumes "lattice_extends L L'"
  shows "action_defined L' a = action_defined L a"
  unfolding action_defined_def fk_pose_ok_def lattice_extends_fields [OF assms]
    anglesToCoord_extends [OF assms]
  by (rule refl)

lemma GetSuccs_loop_defined:
  assumes "lattice_inv L1" "goal_defined L1" "\<forall>a \<in> set acts. action_defined L1 a"
  shows "\<exists>r. GetSuccs_loop pe pst acts (s0, c0, L1) = Some r"
  using assms
proof (induction acts arbitrary: s0 c0 L1)
  case Nil
  then show ?case by simp
next
  case (Cons a rest)
  have ad: "a \<noteq> []" "length (last a) = num_joints (params L1)" "fk_pose_ok L1 (last a)"
    and rd: "\<forall>a \<in> set rest. action_defined L1 a"
    using Cons.prems(3) by (auto simp: action_defined_def)
  obtain sc where sc: "anglesToCoord L1 (last a) = Some sc"
    using Cons.prems(3) by (auto simp: action_defined_def)
  have vb: "vector_back a = Some (last a)" using ad by (simp add: vector_back_def)
  obtain ok d where ca: "checkAction L1 pst a = Some (ok, d)"
    using checkAction_defined [OF ad(1)] by blast
  note ih = Cons.IH [OF Cons.prems(1,2) rd]
  show ?case
  proof (cases ok)
    case False
    then show ?thesis using ca ih by simp
  next
    case True
    from computePlanningFrameFK_defined [OF ad(2,3)] show ?thesis
    proof
      assume "computePlanningFrameFK L1 (last a) = Some None"
      then show ?thesis using ca True vb sc ih by simp
    next
      assume "\<exists>ps. computePlanningFrameFK L1 (last a) = Some (Some ps) \<and> length ps = 6"
      then obtain ps where ps: "computePlanningFrameFK L1 (last a) = Some (Some ps)" "length ps = 6"
        by blast
      obtain e L1a where
        g: "getOrCreateState L1 sc (last a) d (worldToGrid (m_grid L1) (ps ! 0) (ps ! 1) (ps ! 2)) = (e, L1a)"
        by (cases "getOrCreateState L1 sc (last a) d (worldToGrid (m_grid L1) (ps ! 0) (ps ! 1) (ps ! 2))")
      note gp = getOrCreateState_props [OF Cons.prems(1) g]
      have e1: "lattice_extends L1 L1a" and i1: "lattice_inv L1a" using gp by simp_all
      have "goal_defined L1a" "length (last a) = num_joints (params L1a)"
        using Cons.prems(2) ad(2) goal_defined_extends [OF e1] lattice_extends_fields(1) [OF e1]
        by simp_all
      from isGoal_defined [OF this ps(2)] obtain b L2 where ig: "isGoal L1a (last a) ps = Some (b, L2)"
        by blast
      note ie = isGoal_extends [OF ig]
      have e2: "lattice_extends L1 L2" by (rule lattice_extends_trans [OF e1 ie(1)])
      have "lattice_inv L2" "goal_defined L2" "\<forall>a \<in> set rest. action_defined L2 a"
        using ie(4) [OF i1] Cons.prems(2) rd goal_defined_extends [OF e2]
          action_defined_extends [OF e2]
        by simp_all
      from Cons.IH [OF this] show ?thesis
        using ca True vb sc ps g ig by (simp add: assert_that_def)
    qed
  qed
qed

lemma GetLazySuccs_loop_defined:
  assumes "lattice_inv L1" "goal_defined L1" "\<forall>a \<in> set acts. action_defined L1 a"
  shows "\<exists>r. GetLazySuccs_loop pe acts (s0, c0, t0, L1) = Some r"
  using assms
proof (induction acts arbitrary: s0 c0 t0 L1)
  case Nil
  then show ?case by simp
next
  case (Cons a rest)
  have ad: "a \<noteq> []" "length (last a) = num_joints (params L1)" "fk_pose_ok L1 (last a)"
    and rd: "\<forall>a \<in> set rest. action_defined L1 a"
    using Cons.prems(3) by (auto simp: action_defined_def)
  obtain sc where sc: "anglesToCoord L1 (last a) = Some sc"
    using Cons.prems(3) by (auto simp: action_defined_def)
  have vb: "vector_back a = Some (last a)" using ad by (simp add: vector_back_def)
  note ih = Cons.IH [OF Cons.prems(1,2) rd]
  from computePlanningFrameFK_defined [OF ad(2,3)] show ?case
  proof
    assume "computePlanningFrameFK L1 (last a) = Some None"
    then show ?thesis using vb sc ih by simp
  next
    assume "\<exists>ps. computePlanningFrameFK L1 (last a) = Some (Some ps) \<and> length ps = 6"
    then obtain ps where ps: "computePlanningFrameFK L1 (last a) = Some (Some ps)" "length ps = 6"
      by blast
    from isGoal_defined [OF Cons.prems(2) ad(2) ps(2)] obtain b L1a where
      ig: "isGoal L1 (last a) ps = Some (b, L1a)"
      by blast
    note ie = isGoal_extends [OF ig]
    have i1: "lattice_inv L1a" by (rule ie(4) [OF Cons.prems(1)])
    obtain e L2 where
      g: "getOrCreateState L1a sc (last a) 0 (worldToGrid (m_grid L1) (ps ! 0) (ps ! 1) (ps ! 2)) = (e, L2)"
      by (cases "getOrCreateState L1a sc (last a) 0 (worldToGrid (m_grid L1) (ps ! 0) (ps ! 1) (ps ! 2))")
    note gp = getOrCreateState_props [OF i1 g]
    have e1: "lattice_extends L1a L2" and i2: "lattice_inv L2" using gp by simp_all
    have e2: "lattice_extends L1 L2" by (rule lattice_extends_trans [OF ie(1) e1])
    have "lattice_inv L2" "goal_defined L2" "\<forall>a \<in> set rest. action_defined L2 a"
      using i2 Cons.prems(2) rd goal_defined_extends [OF e2] action_defined_extends [OF e2]
      by simp_all
    from Cons.IH [OF this] show ?thesis
      using vb sc ps g ig by (simp add: assert_that_def)
  qed
qed

lemma GetTrueCost_loop_defined:
  assumes "lattice_extends L L1" "m_states L1 = m_states L" "m_state_to_id L1 = m_state_to_id L"
    and "ge = (ce = m_goal_entry L)" and "goal_defined L"
    and "\<forall>a \<in> set acts. action_defined L a \<and>
           (ce = m_goal_entry L \<and> transition_valid L pst (m_goal_entry L) a \<longrightarrow>
              (\<exists>c e. anglesToCoord L (last a) = Some c \<and> getHashEntry L c = Some e))"
  shows "\<exists>r. GetTrueCost_loop pe ce pst ge acts (bc, L1) = Some r"
  using assms
proof (induction acts arbitrary: bc L1)
  case Nil
  then show ?case by simp
next
  case (Cons a rest)
  note ext = Cons.prems(1) and st = Cons.prems(2) and tb = Cons.prems(3) and ge = Cons.prems(4)
    and gd = Cons.prems(5)
  have ad: "a \<noteq> []" "length (last a) = num_joints (params L)" "fk_pose_ok L (last a)"
    and rd: "\<forall>a \<in> set rest. action_defined L a \<and>
           (ce = m_goal_entry L \<and> transition_valid L pst (m_goal_entry L) a \<longrightarrow>
              (\<exists>c e. anglesToCoord L (last a) = Some c \<and> getHashEntry L c = Some e))"
    and tv: "ce = m_goal_entry L \<Longrightarrow> transition_valid L pst (m_goal_entry L) a \<Longrightarrow>
              \<exists>c e. anglesToCoord L (last a) = Some c \<and> getHashEntry L c = Some e"
    using Cons.prems(6) by (auto simp: action_defined_def)
  obtain sc where sc0: "anglesToCoord L (last a) = Some sc"
    using Cons.prems(6) by (auto simp: action_defined_def)
  have sc: "anglesToCoord L1 (last a) = Some sc" using sc0 anglesToCoord_extends [OF ext] by simp
  have vb: "vector_back a = Some (last a)" using ad by (simp add: vector_back_def)
  have gd1: "\<And>L2. lattice_extends L L2 \<Longrightarrow> goal_defined L2"
    using gd goal_defined_extends by simp
  have n1: "\<And>L2. lattice_extends L L2 \<Longrightarrow> length (last a) = num_joints (params L2)"
    using ad(2) lattice_extends_fields(1) by simp
  note ih = Cons.IH [OF _ _ _ ge gd rd]
  from computePlanningFrameFK_defined [OF ad(2,3)] show ?case
  proof
    assume "computePlanningFrameFK L (last a) = Some None"
    then have "computePlanningFrameFK L1 (last a) = Some None"
      using computePlanningFrameFK_extends [OF ext] by simp
    then show ?thesis using vb sc ih [OF ext st tb] by simp
  next
    assume "\<exists>ps. computePlanningFrameFK L (last a) = Some (Some ps) \<and> length ps = 6"
    then obtain ps where ps0: "computePlanningFrameFK L (last a) = Some (Some ps)" and l6: "length ps = 6"
      by blast
    have ps: "computePlanningFrameFK L1 (last a) = Some (Some ps)"
      using ps0 computePlanningFrameFK_extends [OF ext] by simp
    have "\<exists>reaches L1a. (if ge then isGoal L1 (last a) ps
              else Some (sc = coord (m_states L1 ! ce), L1)) = Some (reaches, L1a)"
      using isGoal_defined [OF gd1 [OF ext] n1 [OF ext] l6] by (cases ge) auto
    then obtain reaches L1a where
      re: "(if ge then isGoal L1 (last a) ps
              else Some (sc = coord (m_states L1 ! ce), L1)) = Some (reaches, L1a)"
      by blast
    note rs = reach_step [OF ext st sc re ge]
    have ea: "lattice_extends L L1a" and sa: "m_states L1a = m_states L"
      and ta: "m_state_to_id L1a = m_state_to_id L"
      using rs tb by simp_all
    show ?thesis
    proof (cases reaches)
      case False
      then show ?thesis using vb sc ps re ih [OF ea sa ta, of bc] by simp
    next
      case True
      obtain ok d where ca: "checkAction L1a pst a = Some (ok, d)"
        using checkAction_defined [OF ad(1)] by blast
      show ?thesis
      proof (cases ok)
        case False
        then show ?thesis using vb sc ps re True ca ih [OF ea sa ta, of bc] by simp
      next
        case ok: True
        have "\<exists>se. (if ge then getHashEntry L1a sc else Some ce) = Some se"
        proof (cases ge)
          case False
          then show ?thesis by simp
        next
          case g: True
          then have ce: "ce = m_goal_entry L" using ge by simp
          have "case isGoal L (last a) ps of Some (b, Lg) \<Rightarrow> b | None \<Rightarrow> False"
            using rs True ce by simp
          moreover have "checkAction L pst a = Some (True, d)"
            using ca ok checkAction_extends [OF ea] by simp
          ultimately have "transition_valid L pst (m_goal_entry L) a"
            using vb ps0 by (simp add: transition_valid_def)
          from tv [OF ce this] obtain e where "getHashEntry L sc = Some e" using sc0 by auto
          then have "getHashEntry L1a sc = Some e" using getHashEntry_same [OF sa ta] by simp
          then show ?thesis using g by simp
        qed
        then obtain se where se: "(if ge then getHashEntry L1a sc else Some ce) = Some se" by blast
        from isGoal_defined [OF gd1 [OF ea] n1 [OF ea] l6] obtain b L2 where
          ig: "isGoal L1a (last a) ps = Some (b, L2)"
          by blast
        note ie = isGoal_extends [OF ig]
        have e2: "lattice_extends L L2" by (rule lattice_extends_trans [OF ea ie(1)])
        have s2: "m_states L2 = m_states L" "m_state_to_id L2 = m_state_to_id L"
          using ie sa ta by simp_all
        from ih [OF e2 s2] show ?thesis
          using vb sc ps re True ca ok se ig by (simp add: Let_def)
      qed
    qed
  qed
qed

lemma extractPath_goal_loop_defined:
  assumes "lattice_extends L L1" "m_states L1 = m_states L" "m_state_to_id L1 = m_state_to_id L"
    and "goal_defined L"
    and "\<forall>a \<in> set acts. action_defined L a \<and>
           (transition_valid L pst (m_goal_entry L) a \<longrightarrow>
              (\<exists>c e. anglesToCoord L (last a) = Some c \<and> getHashEntry L c = Some e))"
  shows "\<exists>r. extractPath_goal_loop pe pst acts (bc, bg, L1) = Some r"
  using assms
proof (induction acts arbitrary: bc bg L1)
  case Nil
  then show ?case by simp
next
  case (Cons a rest)
  note ext = Cons.prems(1) and st = Cons.prems(2) and tb = Cons.prems(3) and gd = Cons.prems(4)
  have ad: "a \<noteq> []" "length (last a) = num_joints (params L)" "fk_pose_ok L (last a)"
    and rd: "\<forall>a \<in> set rest. action_defined L a \<and>
           (transition_valid L pst (m_goal_entry L) a \<longrightarrow>
              (\<exists>c e. anglesToCoord L (last a) = Some c \<and> getHashEntry L c = Some e))"
    and tv: "transition_valid L pst (m_goal_entry L) a \<Longrightarrow>
              \<exists>c e. anglesToCoord L (last a) = Some c \<and> getHashEntry L c = Some e"
    using Cons.prems(5) by (auto simp: action_defined_def)
  have vb: "vector_back a = Some (last a)" using ad by (simp add: vector_back_def)
  note ih = Cons.IH [OF _ _ _ gd rd]
  from computePlanningFrameFK_defined [OF ad(2,3)] show ?case
  proof
    assume "computePlanningFrameFK L (last a) = Some None"
    then have "computePlanningFrameFK L1 (last a) = Some None"
      using computePlanningFrameFK_extends [OF ext] by simp
    then show ?thesis using vb ih [OF ext st tb] by simp
  next
    assume "\<exists>ps. computePlanningFrameFK L (last a) = Some (Some ps) \<and> length ps = 6"
    then obtain ps where ps0: "computePlanningFrameFK L (last a) = Some (Some ps)" and l6: "length ps = 6"
      by blast
    have ps: "computePlanningFrameFK L1 (last a) = Some (Some ps)"
      using ps0 computePlanningFrameFK_extends [OF ext] by simp
    have "goal_defined L1" "length (last a) = num_joints (params L1)"
      using gd ad(2) goal_defined_extends [OF ext] lattice_extends_fields(1) [OF ext] by simp_all
    from isGoal_defined [OF this l6] obtain g L1a where ig: "isGoal L1 (last a) ps = Some (g, L1a)"
      by blast
    note ie = isGoal_extends [OF ig]
    have ea: "lattice_extends L L1a" by (rule lattice_extends_trans [OF ext ie(1)])
    have sa: "m_states L1a = m_states L" and ta: "m_state_to_id L1a = m_state_to_id L"
      using ie st tb by simp_all
    show ?thesis
    proof (cases g)
      case False
      then show ?thesis using vb ps ig ih [OF ea sa ta, of bc bg] by simp
    next
      case True
      obtain ok d where ca: "checkAction L1a pst a = Some (ok, d)"
        using checkAction_defined [OF ad(1)] by blast
      show ?thesis
      proof (cases ok)
        case False
        then show ?thesis using vb ps ig True ca ih [OF ea sa ta, of bc bg] by simp
      next
        case ok: True
        obtain Lg where "isGoal L (last a) ps = Some (True, Lg)"
          using isGoal_transfer [OF ext ig] True by auto
        moreover have "checkAction L pst a = Some (True, d)"
          using ca ok checkAction_extends [OF ea] by simp
        ultimately have "transition_valid L pst (m_goal_entry L) a"
          using vb ps0 by (simp add: transition_valid_def)
        from tv [OF this] obtain sc e where sc0: "anglesToCoord L (last a) = Some sc"
          and e0: "getHashEntry L sc = Some e"
          by blast
        have sc: "anglesToCoord L1a (last a) = Some sc"
          using sc0 anglesToCoord_extends [OF ea] by simp
        have e: "getHashEntry L1a sc = Some e" using e0 getHashEntry_same [OF sa ta] by simp
        show ?thesis
          using vb ps ig True ca ok sc e ih [OF ea sa ta] by (simp add: Let_def)
      qed
    qed
  qed
qed

lemma extractPath_loop_defined:
  assumes "lattice_extends L L1" "m_states L1 = m_states L" "m_state_to_id L1 = m_state_to_id L"
    and "actionSpace L = Some ap" and "goal_defined L"
    and "prev = getGoalStateID L \<or> (0 \<le> prev \<and> prev < int (length (m_states L)))"
    and "path_defined L (prev # ids)"
  shows "\<exists>r. extractPath_loop ap prev ids (opath, L1) = Some r"
  using assms
proof (induction ids arbitrary: prev opath L1)
  case Nil
  then show ?case by auto
next
  case (Cons cur rest)
  note ext = Cons.prems(1) and st = Cons.prems(2) and tb = Cons.prems(3) and ap = Cons.prems(4)
    and gd = Cons.prems(5) and pr = Cons.prems(6) and pd = Cons.prems(7)
  have gid: "getGoalStateID L1 = getGoalStateID L" by (rule getGoalStateID_same [OF ext st])
  have pd': "path_defined L (cur # rest)" using pd by simp
  note ih = Cons.IH [OF _ _ _ ap gd _ pd']
  show ?case
  proof (cases "prev = getGoalStateID L")
    case True
    then show ?thesis using gid by auto
  next
    case png: False
    then have rng: "0 \<le> prev \<and> prev < int (length (m_states L1))" using pr st by simp
    show ?thesis
    proof (cases "cur = getGoalStateID L")
      case cg: True
      let ?pst = "state (m_states L1 ! nat prev)"
      show ?thesis
      proof (cases "ap ?pst")
        case None
        then show ?thesis using png cg gid rng by (auto simp: assert_that_def)
      next
        case (Some acts)
        have "goal_successors_defined L (nat prev)" using pd cg png by simp
        then have "\<forall>a \<in> set acts. action_defined L a \<and>
           (transition_valid L ?pst (m_goal_entry L) a \<longrightarrow>
              (\<exists>c e. anglesToCoord L (last a) = Some c \<and> getHashEntry L c = Some e))"
          using ap Some st by (simp add: goal_successors_defined_def enumerated_actions_def)
        from extractPath_goal_loop_defined [OF ext st tb gd this]
        obtain bc' bg' L' where
          gl: "extractPath_goal_loop (nat prev) ?pst acts (INT_MAX, None, L1) = Some (bc', bg', L')"
          by (metis prod_cases3)
        note sp = extractPath_goal_loop_spec [OF ext st tb gl]
        have e': "lattice_extends L L'" using lattice_extends_trans [OF ext] sp by blast
        have s': "m_states L' = m_states L" "m_state_to_id L' = m_state_to_id L" using sp by simp_all
        show ?thesis
        proof (cases bg')
          case None
          then show ?thesis using png cg gid rng Some gl by (auto simp: assert_that_def)
        next
          case (Some b)
          have "cur = getGoalStateID L \<or> (0 \<le> cur \<and> cur < int (length (m_states L)))"
            using cg by simp
          from ih [OF e' s' this] show ?thesis
            using png cg gid rng \<open>ap ?pst = Some acts\<close> gl Some by (auto simp: assert_that_def)
        qed
      qed
    next
      case cng: False
      show ?thesis
      proof (cases "StateID2Angles L1 cur")
        case None
        then show ?thesis using png cng gid by auto
      next
        case (Some cs)
        then have "cur = getGoalStateID L \<or> (0 \<le> cur \<and> cur < int (length (m_states L)))"
          using st by (auto simp: StateID2Angles_def split: if_splits)
        from ih [OF ext st tb this] show ?thesis
          using png cng gid Some by auto
      qed
    qed
  qed
qed

lemma GetSuccs_defined:
  assumes inv: "lattice_inv L" and d: "expansion_defined L state_id"
  shows "\<exists>succs costs L'. GetSuccs L state_id = Some (succs, costs, L')"
proof (cases "actionSpace L")
  case None
  then show ?thesis using d by (simp add: GetSuccs_def expansion_defined_def assert_that_def)
next
  case (Some ap)
  let ?pst = "state (m_states L ! nat state_id)"
  show ?thesis
  proof (cases "ap ?pst")
    case None
    then show ?thesis using d Some
      by (simp add: GetSuccs_def expansion_defined_def assert_that_def)
  next
    case acts: (Some acts)
    have "goal_defined L" "\<forall>a \<in> set acts. action_defined L a"
      using d Some acts by (simp_all add: expansion_defined_def enumerated_actions_def)
    from GetSuccs_loop_defined [OF inv this] obtain s c Lx where
      "GetSuccs_loop (nat state_id) ?pst acts ([], [], L) = Some (s, c, Lx)"
      by (metis prod_cases3)
    then show ?thesis using d Some acts
      by (simp add: GetSuccs_def expansion_defined_def assert_that_def)
  qed
qed

lemma GetLazySuccs_defined:
  assumes inv: "lattice_inv L" and d: "expansion_defined L state_id"
  shows "\<exists>r. GetLazySuccs L state_id = Some r"
proof (cases "actionSpace L")
  case None
  then show ?thesis using d by (simp add: GetLazySuccs_def expansion_defined_def assert_that_def)
next
  case (Some ap)
  let ?pst = "state (m_states L ! nat state_id)"
  show ?thesis
  proof (cases "ap ?pst")
    case None
    then show ?thesis using d Some
      by (simp add: GetLazySuccs_def expansion_defined_def assert_that_def)
  next
    case acts: (Some acts)
    have "goal_defined L" "\<forall>a \<in> set acts. action_defined L a"
      using d Some acts by (simp_all add: expansion_defined_def enumerated_actions_def)
    from GetLazySuccs_loop_defined [OF inv this] obtain s c t Lx where
      "GetLazySuccs_loop (nat state_id) acts ([], [], [], L) = Some (s, c, t, Lx)"
      by (metis prod_cases4)
    then show ?thesis using d Some acts
      by (simp add: GetLazySuccs_def expansion_defined_def assert_that_def)
  qed
qed

lemma GetTrueCost_defined:
  assumes d: "true_cost_defined L parentID childID"
  shows "\<exists>r L'. GetTrueCost L parentID childID = Some (r, L')"
proof (cases "actionSpace L")
  case None
  then show ?thesis using d by (simp add: GetTrueCost_def true_cost_defined_def assert_that_def)
next
  case (Some ap)
  let ?pst = "state (m_states L ! nat parentID)"
  show ?thesis
  proof (cases "ap ?pst")
    case None
    then show ?thesis using d Some
      by (simp add: GetTrueCost_def true_cost_defined_def assert_that_def)
  next
    case acts: (Some acts)
    have gd: "goal_defined L" using d by (simp add: true_cost_defined_def)
    have "\<forall>a \<in> set acts. action_defined L a \<and>
           (nat childID = m_goal_entry L \<and> transition_valid L ?pst (m_goal_entry L) a \<longrightarrow>
              (\<exists>c e. anglesToCoord L (last a) = Some c \<and> getHashEntry L c = Some e))"
      using d Some acts by (simp add: true_cost_defined_def enumerated_actions_def)
    from GetTrueCost_loop_defined [OF lattice_extends_refl refl refl refl gd this]
    obtain b Lx where
      "GetTrueCost_loop (nat parentID) (nat childID) ?pst (nat childID = m_goal_entry L) acts
         (INT_MAX, L) = Some (b, Lx)"
      by (metis prod.exhaust)
    then show ?thesis using d Some acts
      by (simp add: GetTrueCost_def true_cost_defined_def assert_that_def Let_def)
  qed
qed

lemma extractPath_defined:
  assumes d: "extraction_defined L idpath"
  shows "\<exists>b path L'. extractPath L idpath path0 = Some (b, path, L')"
proof (cases "length idpath = 1")
  case True
  then show ?thesis by (auto simp: extractPath_def Let_def split: option.splits)
next
  case False
  obtain id0 ids where ids: "idpath = id0 # ids" using d by (cases idpath) (auto simp: extraction_defined_def)
  have n0: "nth_opt idpath 0 = Some id0" using ids by (simp add: nth_opt_def)
  show ?thesis
  proof (cases "id0 = getGoalStateID L \<or> StateID2Angles L id0 = None \<or> actionSpace L = None")
    case True
    then show ?thesis using False n0 by (auto simp: extractPath_def split: option.splits)
  next
    case ok: False
    then obtain a ap where a: "StateID2Angles L id0 = Some a" and ap: "actionSpace L = Some ap"
      by auto
    have rng: "id0 = getGoalStateID L \<or> (0 \<le> id0 \<and> id0 < int (length (m_states L)))"
      using a by (auto simp: StateID2Angles_def split: if_splits)
    have gd: "goal_defined L" and pd: "path_defined L (id0 # ids)"
      using d ids by (simp_all add: extraction_defined_def)
    from extractPath_loop_defined [OF lattice_extends_refl refl refl ap gd rng pd]
    obtain b p Lx where "extractPath_loop ap id0 ids ([a], L) = Some (b, p, Lx)"
      by (metis prod_cases3)
    then show ?thesis using False n0 ok a ap ids by (auto simp: extractPath_def)
  qed
qed

lemma ex_action_defined: "action_defined ex_lattice_s [[1, 0]]"
  by (auto simp: action_defined_def fk_pose_ok_def ex_lattice_s_def ex_lattice_g_def
      ex_lattice_explicit ex_eval)

lemma ex_goal_defined: "goal_defined ex_lattice_s"
  by (simp add: goal_defined_def ex_lattice_s_def ex_lattice_g_def ex_lattice_explicit)

lemma ex_expansion_defined: "expansion_defined ex_lattice_s 1"
  using ex_action_defined ex_goal_defined
  by (simp add: expansion_defined_def enumerated_actions_def ex_lattice_s_def ex_lattice_g_def
      ex_lattice_explicit ex_actions_def ex_params_def)

lemmas ex_x_eval = ex_lattice_x_def ex_lattice_s_def ex_lattice_g_def ex_lattice_explicit
  ex_params_def ex_actions_def ex_eval

lemma ex_x_true_cost_defined: "true_cost_defined ex_lattice_x 1 0"
  by (auto simp: true_cost_defined_def goal_defined_def action_defined_def fk_pose_ok_def
      enumerated_actions_def getHashEntry_def ex_x_eval)

lemma ex_x_extraction_defined: "extraction_defined ex_lattice_x [1, 0]"
  by (auto simp: extraction_defined_def goal_successors_defined_def goal_defined_def
      action_defined_def fk_pose_ok_def enumerated_actions_def getHashEntry_def getGoalStateID_def
      ex_x_eval)

subsection \<open>What the calls return\<close>

lemma GetSuccs_returned_edges:
  assumes inv: "lattice_inv L" and ne: "state_id \<noteq> getGoalStateID L"
    and r: "GetSuccs L state_id = Some (succs, costs, L')"
  shows "list_all2 (edge_label L L')
           (filter (edge_generated L (state (m_states L ! nat state_id)))
              (enumerated_actions L (state (m_states L ! nat state_id)))) succs \<and>
         length costs = length succs"
proof (cases "actionSpace L")
  case None
  then show ?thesis using r
    by (auto simp: GetSuccs_def enumerated_actions_def assert_that_def split: if_splits)
next
  case (Some ap)
  let ?pst = "state (m_states L ! nat state_id)"
  show ?thesis
  proof (cases "ap ?pst")
    case None
    then show ?thesis using r Some ne
      by (auto simp: GetSuccs_def enumerated_actions_def assert_that_def getGoalStateID_def
          split: if_splits)
  next
    case acts: (Some acts)
    from r Some ne acts obtain s c Lx where
      loop: "GetSuccs_loop (nat state_id) ?pst acts ([], [], L) = Some (s, c, Lx)"
      and res: "succs = s" "costs = c"
        "L' = Lx\<lparr>m_expanded_states := m_expanded_states Lx @ [state_id]\<rparr>"
      by (auto simp: GetSuccs_def assert_that_def getGoalStateID_def bind_eq_Some_conv Let_def
          split: if_splits)
    from GetSuccs_loop_spec [OF inv lattice_extends_refl loop]
    have invx: "lattice_inv Lx" and len: "length c = length s"
      and lab: "list_all2 (edge_label L Lx) (filter (edge_generated L ?pst) acts) s"
      by auto
    have ext: "lattice_extends Lx L'"
      unfolding res(3) by (simp add: lattice_extends_def getHashEntry_def)
    have "list_all2 (edge_label L L') (filter (edge_generated L ?pst) acts) s"
      using lab edge_label_mono [OF _ invx ext] by (rule list_all2_mono)
    then show ?thesis
      using len res(1,2) Some acts by (simp add: enumerated_actions_def)
  qed
qed

lemma GetTrueCost_returned_value:
  assumes r: "GetTrueCost L parentID childID = Some (r, L')"
    and cm: "cost_multiplier (params L) < INT_MAX"
  shows "r = (let Q = filter (transition_valid L (state (m_states L ! nat parentID)) (nat childID))
                        (enumerated_actions L (state (m_states L ! nat parentID)))
              in if Q = [] then - 1
                 else Min (set (map (\<lambda>a. cost L (nat parentID) (nat childID)
                                            (nat childID = m_goal_entry L)) Q)))"
proof -
  let ?pst = "state (m_states L ! nat parentID)"
  let ?Q = "filter (transition_valid L ?pst (nat childID)) (enumerated_actions L ?pst)"
  have m: "?Q \<noteq> [] \<Longrightarrow> Min (set (map (\<lambda>a. cost L (nat parentID) (nat childID)
                                            (nat childID = m_goal_entry L)) ?Q))
             = cost_multiplier (params L)"
  proof -
    assume "?Q \<noteq> []"
    then have "set (map (\<lambda>a. cost L (nat parentID) (nat childID) (nat childID = m_goal_entry L)) ?Q)
       = {cost_multiplier (params L)}"
      by (cases ?Q) (auto simp: cost_def)
    then show ?thesis by simp
  qed
  show ?thesis
  proof (cases "actionSpace L")
    case None
    then show ?thesis using r
      by (auto simp: GetTrueCost_def enumerated_actions_def assert_that_def Let_def split: if_splits)
  next
    case (Some ap)
    show ?thesis
    proof (cases "ap ?pst")
      case None
      then show ?thesis using r Some
        by (auto simp: GetTrueCost_def enumerated_actions_def assert_that_def Let_def split: if_splits)
    next
      case acts: (Some acts)
      from r Some acts obtain best Lx where
        loop: "GetTrueCost_loop (nat parentID) (nat childID) ?pst (nat childID = m_goal_entry L) acts
                 (INT_MAX, L) = Some (best, Lx)"
        and res: "r = (if best \<noteq> INT_MAX then best else - 1)"
        by (auto simp: GetTrueCost_def assert_that_def bind_eq_Some_conv Let_def split: if_splits)
      from GetTrueCost_loop_spec [OF lattice_extends_refl refl refl loop]
      have "best = (if filter (transition_valid L ?pst (nat childID)) acts = [] then INT_MAX
                    else min INT_MAX (cost_multiplier (params L)))"
        by simp
      moreover have "enumerated_actions L ?pst = acts"
        using Some acts by (simp add: enumerated_actions_def)
      ultimately show ?thesis
        using res cm m by (auto simp: Let_def min_def)
    qed
  qed
qed

lemma extractPath_returned_goal_point:
  assumes r: "extractPath L idpath path0 = Some (True, path, L')"
    and len: "2 \<le> length idpath" and i: "0 < i" "i < length idpath"
    and g: "idpath ! i = getGoalStateID L"
  shows "length path = length idpath \<and> goal_resynthesis L (nat (idpath ! (i - 1))) (path ! i)"
proof -
  from len have n1: "length idpath \<noteq> 1" and ne: "idpath \<noteq> []" by auto
  from r n1 len obtain a ap where
    ap: "actionSpace L = Some ap"
    and loop: "extractPath_loop ap (idpath ! 0) (tl idpath) ([a], L) = Some (True, path, L')"
    by (auto simp: extractPath_def nth_opt_def split: if_splits option.splits Option.bind_splits)
  note sp = extractPath_loop_spec [OF lattice_extends_refl refl refl ap loop]
  obtain j where j: "i = Suc j" using i(1) by (cases i) auto
  have l: "length path = length idpath" using sp ne by simp
  have jl: "j < length (tl idpath)" using i(2) j by simp
  have "tl idpath ! j = getGoalStateID L" using g j jl by (simp add: nth_tl)
  then have "goal_resynthesis L (nat ((idpath ! 0 # tl idpath) ! j)) (path ! (length [a] + j))"
    using sp jl by blast
  moreover have "idpath ! 0 # tl idpath = idpath" using ne by (cases idpath) auto
  ultimately show ?thesis using l j by simp
qed

lemma GetLazySuccs_returned_states:
  assumes inv: "lattice_inv L"
    and r: "GetLazySuccs L SourceStateID = Some (SuccIDV, CostV, isTrueCost, L')"
  shows "\<exists>ext. m_states L' = m_states L @ ext \<and> (\<forall>x \<in> set ext. dist_s x = 0) \<and>
           (\<forall>parentID childID c L''. GetTrueCost L' parentID childID = Some (c, L'') \<longrightarrow>
              m_states L'' = m_states L @ ext)"
proof -
  have "\<exists>ext. m_states L' = m_states L @ ext \<and> (\<forall>x \<in> set ext. dist_s x = 0)"
  proof (cases "actionSpace L")
    case None
    then show ?thesis using r by (auto simp: GetLazySuccs_def assert_that_def split: if_splits)
  next
    case (Some ap)
    show ?thesis
    proof (cases "SourceStateID = stateID (m_states L ! m_goal_entry L)")
      case True
      then show ?thesis using r Some
        by (auto simp: GetLazySuccs_def assert_that_def split: if_splits)
    next
      case ng: False
      show ?thesis
      proof (cases "ap (state (m_states L ! nat SourceStateID))")
        case None
        then show ?thesis using r Some ng
          by (auto simp: GetLazySuccs_def assert_that_def Let_def split: if_splits)
      next
        case acts: (Some acts)
        from r Some ng acts obtain s c t Lx where
          loop: "GetLazySuccs_loop (nat SourceStateID) acts ([], [], [], L) = Some (s, c, t, Lx)"
          and res: "L' = Lx\<lparr>m_expanded_states := m_expanded_states Lx @ [SourceStateID]\<rparr>"
          by (auto simp: GetLazySuccs_def assert_that_def bind_eq_Some_conv Let_def
              split: if_splits)
        from GetLazySuccs_loop_spec [OF inv loop] res show ?thesis by auto
      qed
    qed
  qed
  then obtain ext where "m_states L' = m_states L @ ext" "\<forall>x \<in> set ext. dist_s x = 0" by blast
  then show ?thesis using GetTrueCost_states [of L'] by (intro exI [of _ ext]) auto
qed

subsection \<open>After an expansion\<close>

text \<open>
  \<open>GetSuccs\<close> keeps the invariant and only extends the lattice, and it leaves in the
  table a state for the destination of every valid transition from the expanded state to
  the goal: after it, \<open>GetTrueCost\<close> to the goal and \<open>extractPath\<close> on the path from
  the expanded state to the goal return.
\<close>

lemma GetSuccs_extends:
  assumes inv: "lattice_inv L" and r: "GetSuccs L state_id = Some (succs, costs, L')"
  shows "lattice_inv L' \<and> lattice_extends L L'"
proof -
  have e: "\<And>Lx x. lattice_inv Lx \<Longrightarrow> lattice_extends L Lx \<Longrightarrow>
     lattice_inv (Lx\<lparr>m_expanded_states := x\<rparr>) \<and> lattice_extends L (Lx\<lparr>m_expanded_states := x\<rparr>)"
  proof -
    fix Lx x assume i: "lattice_inv Lx" and ex: "lattice_extends L Lx"
    have 1: "lattice_inv (Lx\<lparr>m_expanded_states := x\<rparr>)"
      using i by (simp add: lattice_inv_def getHashEntry_def)
    have "lattice_extends Lx (Lx\<lparr>m_expanded_states := x\<rparr>)"
      by (simp add: lattice_extends_def getHashEntry_def)
    from lattice_extends_trans [OF ex this] 1
    show "lattice_inv (Lx\<lparr>m_expanded_states := x\<rparr>) \<and> lattice_extends L (Lx\<lparr>m_expanded_states := x\<rparr>)"
      by simp
  qed
  show ?thesis
  proof (cases "actionSpace L")
    case None
    then show ?thesis using r inv
      by (auto simp: GetSuccs_def assert_that_def lattice_extends_refl split: if_splits)
  next
    case (Some ap)
    show ?thesis
    proof (cases "state_id = stateID (m_states L ! m_goal_entry L)")
      case True
      then show ?thesis using r inv Some
        by (auto simp: GetSuccs_def assert_that_def lattice_extends_refl split: if_splits)
    next
      case ng: False
      show ?thesis
      proof (cases "ap (state (m_states L ! nat state_id))")
        case None
        then show ?thesis using r inv Some ng
          by (auto simp: GetSuccs_def assert_that_def lattice_extends_refl Let_def split: if_splits)
      next
        case acts: (Some acts)
        from r Some ng acts obtain s c Lx where
          loop: "GetSuccs_loop (nat state_id) (state (m_states L ! nat state_id)) acts ([], [], L)
                   = Some (s, c, Lx)"
          and res: "L' = Lx\<lparr>m_expanded_states := m_expanded_states Lx @ [state_id]\<rparr>"
          by (auto simp: GetSuccs_def assert_that_def bind_eq_Some_conv Let_def split: if_splits)
        from GetSuccs_loop_spec [OF inv lattice_extends_refl loop]
        have "lattice_inv Lx" "lattice_extends L Lx" by simp_all
        from e [OF this] show ?thesis unfolding res .
      qed
    qed
  qed
qed

lemma list_all2_member:
  "list_all2 P xs ys \<Longrightarrow> x \<in> set xs \<Longrightarrow> \<exists>y. P x y"
  by (induction rule: list_all2_induct) auto

lemma GetSuccs_goal_successors:
  assumes inv: "lattice_inv L" and ne: "state_id \<noteq> getGoalStateID L"
    and d: "expansion_defined L state_id"
    and r: "GetSuccs L state_id = Some (succs, costs, L')"
  shows "goal_successors_defined L' (nat state_id)"
proof -
  let ?pst = "state (m_states L ! nat state_id)"
  have ext: "lattice_extends L L'" using GetSuccs_extends [OF inv r] by simp
  have rng: "nat state_id < length (m_states L)" using d by (auto simp: expansion_defined_def)
  have st: "m_states L' ! nat state_id = m_states L ! nat state_id"
    by (rule lattice_extends_nth [OF ext rng])
  have en: "enumerated_actions L' ?pst = enumerated_actions L ?pst"
    unfolding enumerated_actions_def lattice_extends_fields(4) [OF ext] by (rule refl)
  have lab: "list_all2 (edge_label L L') (filter (edge_generated L ?pst) (enumerated_actions L ?pst)) succs"
    using GetSuccs_returned_edges [OF inv ne r] by simp
  have "\<forall>a \<in> set (enumerated_actions L ?pst).
          action_defined L' a \<and>
          (transition_valid L' ?pst (m_goal_entry L') a \<longrightarrow>
             (\<exists>c e. anglesToCoord L' (last a) = Some c \<and> getHashEntry L' c = Some e))"
  proof (intro ballI conjI impI)
    fix a assume a: "a \<in> set (enumerated_actions L ?pst)"
    then show "action_defined L' a"
      using d action_defined_extends [OF ext] by (simp add: expansion_defined_def)
    assume tv: "transition_valid L' ?pst (m_goal_entry L') a"
    then have "edge_generated L ?pst a"
      unfolding transition_valid_def edge_generated_def computePlanningFrameFK_extends [OF ext]
        checkAction_extends [OF ext]
      by (auto split: option.splits)
    then have "a \<in> set (filter (edge_generated L ?pst) (enumerated_actions L ?pst))"
      using a by simp
    from list_all2_member [OF lab this] obtain sid where "edge_label L L' a sid" by blast
    then obtain w c e where "vector_back a = Some w" "anglesToCoord L w = Some c"
      "getHashEntry L' c = Some e"
      unfolding edge_label_def by blast
    then show "\<exists>c e. anglesToCoord L' (last a) = Some c \<and> getHashEntry L' c = Some e"
      using anglesToCoord_extends [OF ext]
      by (auto simp: vector_back_def split: if_splits)
  qed
  then show ?thesis
    unfolding goal_successors_defined_def st en by simp
qed


lemma GetSuccs_then_GetTrueCost_returns:
  assumes inv: "lattice_inv L" and ne: "state_id \<noteq> getGoalStateID L"
    and d: "expansion_defined L state_id"
    and r: "GetSuccs L state_id = Some (succs, costs, L')"
  shows "true_cost_defined L' state_id (getGoalStateID L')"
    and "\<exists>c L''. GetTrueCost L' state_id (getGoalStateID L') = Some (c, L'')"
proof -
  have inv': "lattice_inv L'" and ext: "lattice_extends L L'"
    using GetSuccs_extends [OF inv r] by simp_all
  have rng: "0 \<le> state_id" "nat state_id < length (m_states L)"
    and cl: "num_joints (params L) \<le> length (coord (m_states L ! nat state_id))"
    and gd: "goal_defined L"
    using d by (auto simp: expansion_defined_def)
  have st: "m_states L' ! nat state_id = m_states L ! nat state_id"
    by (rule lattice_extends_nth [OF ext rng(2)])
  have p: "params L' = params L" by (rule lattice_extends_fields(1) [OF ext])
  have gid: "getGoalStateID L' = int (m_goal_entry L')" by (rule inv_goal_id [OF inv'])
  have ge: "m_goal_entry L' < length (m_states L')"
    and gc: "coord (m_states L' ! m_goal_entry L') = replicate (num_joints (params L')) 0"
    using inv' by (simp_all add: lattice_inv_def)
  have gs: "goal_successors_defined L' (nat state_id)"
    by (rule GetSuccs_goal_successors [OF inv ne d r])
  show "true_cost_defined L' state_id (getGoalStateID L')"
    unfolding true_cost_defined_def gid
    using rng lattice_extends_length [OF ext] cl ge gc gd goal_defined_extends [OF ext] gs
    by (simp add: st p goal_successors_defined_def)
  then show "\<exists>c L''. GetTrueCost L' state_id (getGoalStateID L') = Some (c, L'')"
    by (rule GetTrueCost_defined)
qed

lemma GetSuccs_then_extractPath_returns:
  assumes inv: "lattice_inv L" and ne: "state_id \<noteq> getGoalStateID L"
    and d: "expansion_defined L state_id"
    and r: "GetSuccs L state_id = Some (succs, costs, L')"
  shows "extraction_defined L' [state_id, getGoalStateID L']"
    and "\<exists>b path L''. extractPath L' [state_id, getGoalStateID L'] path0 = Some (b, path, L'')"
proof -
  have ext: "lattice_extends L L'" using GetSuccs_extends [OF inv r] by simp
  have gd: "goal_defined L" using d by (auto simp: expansion_defined_def)
  have gs: "goal_successors_defined L' (nat state_id)"
    by (rule GetSuccs_goal_successors [OF inv ne d r])
  show "extraction_defined L' [state_id, getGoalStateID L']"
    using gs gd goal_defined_extends [OF ext] by (simp add: extraction_defined_def)
  then show "\<exists>b path L''. extractPath L' [state_id, getGoalStateID L'] path0 = Some (b, path, L'')"
    by (rule extractPath_defined)
qed

subsection \<open>Exact arithmetic of the round trip\<close>

text \<open>
  With the joint positions as real numbers, for a lattice whose discretisation is well
  formed and a configuration \<open>q\<close> with one position per joint, every limited joint
  within its limits: \<open>anglesToCoord\<close> returns a coordinate, \<open>coordToAngles\<close> returns a
  configuration for it, and each of its components differs from that of \<open>q\<close> by at most
  half the joint's resolution (for a continuous joint: up to a multiple of \<open>2\<pi>\<close>). The
  bound is attained at the boundary of a bin; this says nothing about which bin the
  rounding of the \<^verbatim>\<open>double\<close> operations selects there.
\<close>

lemma coord_roundtrip_exact:
  assumes ok: "discretization_ok L" and len: "length q = num_joints (params L)"
    and lim: "within_limits L q"
  shows "\<exists>c q'. anglesToCoord L q = Some c \<and> coordToAngles L c = Some q' \<and> roundtrip_close L q q'"
proof -
  have "\<forall>i < length q. \<exists>c a'. anglesToCoord_joint L i (q ! i) = Some c \<and>
          coordToAngles_joint L i c = Some a' \<and>
          (if m_continuous L ! i
           then \<exists>k :: int. \<bar>a' - q ! i + 2 * pi * of_int k\<bar> \<le> coord_delta (params L) i / 2
           else \<bar>a' - q ! i\<bar> \<le> coord_delta (params L) i / 2)"
  proof (intro allI impI)
    fix i assume i: "i < length q"
    show "\<exists>c a'. anglesToCoord_joint L i (q ! i) = Some c \<and>
          coordToAngles_joint L i c = Some a' \<and>
          (if m_continuous L ! i
           then \<exists>k :: int. \<bar>a' - q ! i + 2 * pi * of_int k\<bar> \<le> coord_delta (params L) i / 2
           else \<bar>a' - q ! i\<bar> \<le> coord_delta (params L) i / 2)"
    proof (cases "m_continuous L ! i")
      case True
      then show ?thesis using joint_roundtrip_continuous [OF ok, of i "q ! i"] i len by simp
    next
      case False
      then show ?thesis
        using joint_roundtrip_limited [OF ok, of i "q ! i"] i len lim
        by (simp add: within_limits_def)
    qed
  qed
  then obtain f g where fg: "\<forall>i < length q. anglesToCoord_joint L i (q ! i) = Some (f i) \<and>
          coordToAngles_joint L i (f i) = Some (g i) \<and>
          (if m_continuous L ! i
           then \<exists>k :: int. \<bar>g i - q ! i + 2 * pi * of_int k\<bar> \<le> coord_delta (params L) i / 2
           else \<bar>g i - q ! i\<bar> \<le> coord_delta (params L) i / 2)"
    by metis
  let ?c = "map f [0..<length q]" and ?q' = "map g [0..<length q]"
  have 1: "anglesToCoord L q = Some ?c"
    using fg len by (simp add: anglesToCoord_def assert_that_def anglesToCoord_loop_Some)
  have 2: "coordToAngles L ?c = Some ?q'"
    using fg by (simp add: coordToAngles_def coordToAngles_loop_Some)
  have 3: "roundtrip_close L q ?q'"
    unfolding roundtrip_close_def
  proof (intro conjI allI impI)
    show "length ?q' = length q" by simp
    fix i assume i: "i < length q"
    then have gi: "?q' ! i = g i" by simp
    show "if m_continuous L ! i
        then \<exists>k :: int. \<bar>?q' ! i - q ! i + 2 * pi * of_int k\<bar> \<le> coord_delta (params L) i / 2
        else \<bar>?q' ! i - q ! i\<bar> \<le> coord_delta (params L) i / 2"
      unfolding gi using fg i by blast
  qed
  show ?thesis using 1 2 3 by blast
qed

subsection \<open>What setStart returns\<close>

text \<open>
  For a configuration \<open>q\<close> with at most as many positions as the lattice has joints,
  \<open>setStart\<close> returns false and leaves the lattice unchanged when \<open>q\<close> has fewer
  positions, when the forward-kinematics interface is absent or fails on \<open>q\<close>, when the
  robot model's joint-limit check rejects \<open>q\<close>, or when the collision checker reports
  \<open>q\<close> invalid; otherwise it returns true, and the new lattice is the result of
  \<open>getOrCreateState\<close> for the coordinate of \<open>q\<close>, with the returned entry as start
  entry.
\<close>

lemma setStart_returns:
  assumes inv: "lattice_inv L" and len: "length q \<le> num_joints (params L)"
    and fkwf: "fk_pose_ok L q" and co: "coord_defined L q"
  shows "if length q < num_joints (params L) \<or> m_fk_iface L = None \<or>
            (\<exists>fk. m_fk_iface L = Some fk \<and> fk q = None) \<or>
            \<not> checkJointLimits (robot L) q \<or> \<not> fst (isStateValid (collisionChecker L) q)
         then setStart L q = Some (False, L)
         else \<exists>c ps e L1.
                anglesToCoord L q = Some c \<and> computePlanningFrameFK L q = Some (Some ps) \<and>
                getOrCreateState L c q (snd (isStateValid (collisionChecker L) q))
                  (worldToGrid (m_grid L) (ps ! 0) (ps ! 1) (ps ! 2)) = (e, L1) \<and>
                setStart L q = Some (True, L1\<lparr>m_start_entry := Some e\<rparr>) \<and>
                getHashEntry L1 c = Some e \<and> coord (m_states L1 ! e) = c \<and>
                (getHashEntry L c = None \<longrightarrow>
                   state (m_states L1 ! e) = q \<and>
                   xyz (m_states L1 ! e) = worldToGrid (m_grid L) (ps ! 0) (ps ! 1) (ps ! 2) \<and>
                   dist_s (m_states L1 ! e) = snd (isStateValid (collisionChecker L) q)) \<and>
                lattice_inv (L1\<lparr>m_start_entry := Some e\<rparr>)"
proof (cases "length q < num_joints (params L)")
  case True
  then show ?thesis by (simp add: setStart_def)
next
  case False
  then have n: "length q = num_joints (params L)" using len by simp
  then obtain c where c: "anglesToCoord L q = Some c" using co by (auto simp: coord_defined_def)
  show ?thesis
  proof (cases "m_fk_iface L")
    case None
    then show ?thesis using n by (simp add: setStart_def computePlanningFrameFK_def assert_that_def)
  next
    case (Some fk)
    note fk = Some
    show ?thesis
    proof (cases "fk q")
      case None
      then show ?thesis using n fk
        by (simp add: setStart_def computePlanningFrameFK_def assert_that_def)
    next
      case (Some ps0)
      then have l6: "length ps0 = 6" using fkwf fk by (auto simp: fk_pose_ok_def)
      obtain vx vy vz where v: "tipoff_translation (ps0 ! 0, ps0 ! 1, ps0 ! 2) (ps0 ! 3) (ps0 ! 4)
          (ps0 ! 5) (xyz_offset (m_goal L)) = (vx, vy, vz)"
        by (cases "tipoff_translation (ps0 ! 0, ps0 ! 1, ps0 ! 2) (ps0 ! 3) (ps0 ! 4)
          (ps0 ! 5) (xyz_offset (m_goal L))") auto
      let ?ps = "ps0[0 := vx, 1 := vy, 2 := vz]"
      have cfk: "computePlanningFrameFK L q = Some (Some ?ps)"
        using n fk Some l6 v by (simp add: computePlanningFrameFK_def assert_that_def)
      show ?thesis
      proof (cases "checkJointLimits (robot L) q \<and> fst (isStateValid (collisionChecker L) q)")
        case False
        then show ?thesis using n fk Some cfk
          by (auto simp: setStart_def split: prod.splits)
      next
        case True
        obtain d where isv: "isStateValid (collisionChecker L) q = (True, d)"
          using True by (cases "isStateValid (collisionChecker L) q") auto
        let ?cell = "worldToGrid (m_grid L) (?ps ! 0) (?ps ! 1) (?ps ! 2)"
        obtain e L1 where g: "getOrCreateState L c q d ?cell = (e, L1)"
          by (cases "getOrCreateState L c q d ?cell") auto
        note gp = getOrCreateState_props [OF inv g]
        have r: "setStart L q = Some (True, L1\<lparr>m_start_entry := Some e\<rparr>)"
          using n True cfk c l6 g
          by (simp add: setStart_def assert_that_def isv)
        have i': "lattice_inv (L1\<lparr>m_start_entry := Some e\<rparr>)"
          using gp by (intro start_entry_inv) simp_all
        have "\<exists>c ps e L1.
                anglesToCoord L q = Some c \<and> computePlanningFrameFK L q = Some (Some ps) \<and>
                getOrCreateState L c q (snd (isStateValid (collisionChecker L) q))
                  (worldToGrid (m_grid L) (ps ! 0) (ps ! 1) (ps ! 2)) = (e, L1) \<and>
                setStart L q = Some (True, L1\<lparr>m_start_entry := Some e\<rparr>) \<and>
                getHashEntry L1 c = Some e \<and> coord (m_states L1 ! e) = c \<and>
                (getHashEntry L c = None \<longrightarrow>
                   state (m_states L1 ! e) = q \<and>
                   xyz (m_states L1 ! e) = worldToGrid (m_grid L) (ps ! 0) (ps ! 1) (ps ! 2) \<and>
                   dist_s (m_states L1 ! e) = snd (isStateValid (collisionChecker L) q)) \<and>
                lattice_inv (L1\<lparr>m_start_entry := Some e\<rparr>)"
          unfolding isv snd_conv
          using c cfk g r [unfolded isv] gp i' createHashEntry_entry [OF inv _ g]
          by (intro exI [of _ c] exI [of _ ?ps] exI [of _ e] exI [of _ L1]) simp
        then show ?thesis using True fk Some n by simp
      qed
    qed
  qed
qed

subsection \<open>The lattices with the all-zeros destination\<close>

lemmas ex_z_eval = ex_lattice_z0_def ex_lattice_zg_def ex_lattice_z_def ex_lattice_wg_def
  ex_lattice_w_def ex_xyz_goal_w_def ex_actions_z_def ex_lattice_s_def ex_lattice_g_def
  ex_xyz_goal_def ex_lattice_explicit setActionSpace_def

lemma ex_lattice_z0_explicit: "ex_lattice_z0 = ex_lattice\<lparr>actionSpace := Some ex_actions_z\<rparr>"
  by (simp add: ex_lattice_z0_def ex_lattice_def setActionSpace_def)

section \<open>The claims\<close>

subsection \<open>The goal entry is absorbing\<close>

text \<open>
  Claim C9. On every lattice that satisfies the invariant of the state table, \<open>GetSuccs\<close>
  called with the state ID of the reserved goal entry returns an empty successor list and
  an empty cost list, and leaves the lattice as it was.
\<close>

theorem GetSuccs_goal_absorbing:
  "lattice_inv L \<Longrightarrow> GetSuccs L (getGoalStateID L) = Some ([], [], L)"
  by (auto simp: GetSuccs_def getGoalStateID_def lattice_inv_def assert_that_def split: option.splits)

theorem GetSuccs_goal_absorbing_witness:
  "lattice_inv ex_lattice \<and> GetSuccs ex_lattice (getGoalStateID ex_lattice) = Some ([], [], ex_lattice)"
  using GetSuccs_goal_absorbing [OF ex_lattice_inv] ex_lattice_inv by simp

subsection \<open>The goal entry and the table\<close>

text \<open>
  Claim C8 says that the table does not find the reserved goal entry under the all-zeros
  coordinate. The constructor creates the goal entry with \<open>createHashEntry\<close>, which
  registers it: on the lattice the constructor returns, for any collaborators, the lookup
  of the all-zeros coordinate returns the reserved goal entry.
\<close>

theorem goal_entry_found_in_table:
  "getHashEntry (ManipLattice_ctor r c p g g0) (replicate (num_joints p) 0)
     = Some (m_goal_entry (ManipLattice_ctor r c p g g0))"
  by (simp add: ManipLattice_ctor_def createHashEntry_def getHashEntry_def Let_def)

subsection \<open>A joint-configuration goal\<close>

text \<open>
  Claim C4 says that \<open>setGoal\<close> with a \<^verbatim>\<open>JOINT_STATE_GOAL\<close> returns true whenever
  the forward kinematics of the target succeeds. \<open>setGoalConfiguration\<close> hands the pose
  of \<open>computePlanningFrameFK\<close>, which has 6 elements, to \<open>setGoalPosition\<close>, which
  rejects every goal that does not have 7: whenever the forward kinematics of the target
  succeeds, \<open>setGoal\<close> returns false and the lattice is unchanged.
\<close>

theorem setGoal_joint_states_returns_false:
  assumes "goal_type g = JOINT_STATE_GOAL"
    and "computePlanningFrameFK L (angles g) = Some (Some ps)"
  shows "setGoal gt_of_int L g = Some (False, L)"
proof -
  have "length ps = 6" using computePlanningFrameFK_Some [OF assms(2)] by simp
  then have "setGoalPosition gt_of_int L [ps] (replicate 1 (replicate 3 0.0)) (replicate 1 (replicate 6 0.05))
     = Some (False, L)"
    by (simp add: setGoalPosition_def)
  then show ?thesis
    using assms by (simp add: setGoal_def setGoalConfiguration_def)
qed

theorem setGoal_joint_states_returns_false_witness:
  "goal_type ex_joint_goal = JOINT_STATE_GOAL \<and>
   computePlanningFrameFK ex_lattice (angles ex_joint_goal) = Some (Some [1, 0, 0, 0, 0, 0]) \<and>
   setGoal ex_gt_of_int ex_lattice ex_joint_goal = Some (False, ex_lattice)"
proof -
  have 1: "goal_type ex_joint_goal = JOINT_STATE_GOAL" by (simp add: ex_joint_goal_def)
  have 2: "computePlanningFrameFK ex_lattice (angles ex_joint_goal) = Some (Some [1, 0, 0, 0, 0, 0])"
    by (simp add: ex_joint_goal_def ex_fk)
  show ?thesis using setGoal_joint_states_returns_false [OF 1 2, of ex_gt_of_int] 1 2 by simp
qed

subsection \<open>Successor edges\<close>

text \<open>
  Claim C1 says that \<open>GetSuccs\<close> reports a successor whose destination satisfies
  \<open>isGoal\<close> with the ID of the reserved goal entry, never with the ID of the concrete
  state of the destination's coordinate, and every other successor with the ID of its
  concrete state. The constructor registers the reserved goal entry in the table under the
  all-zeros coordinate (the defect of claim C8), so \<open>getOrCreateState\<close> returns the goal
  entry for a destination in that bin. On the lattice after \<open>setGoal\<close> at \<open>(1, 0, 0)\<close>
  and \<open>setStart\<close> at \<open>[0, 0]\<close>, the action to \<open>[-4, -4]\<close> passes \<open>checkAction\<close>, its
  destination does not satisfy \<open>isGoal\<close>, and \<open>GetSuccs\<close> reports it with the ID 0 of
  the reserved goal entry. With the goal at \<open>(-4, -4, 0)\<close> the destination satisfies
  \<open>isGoal\<close>, and the ID reported is the ID of the state that the table holds for its
  coordinate.
\<close>

theorem GetSuccs_labels_at_zero_coordinate:
  "setGoal ex_gt_of_int ex_lattice_z0 ex_xyz_goal = Some (True, ex_lattice_zg) \<and>
   setStart ex_lattice_zg [0, 0] = Some (True, ex_lattice_z) \<and>
   getGoalStateID ex_lattice_z = 0 \<and>
   enumerated_actions ex_lattice_z (state (m_states ex_lattice_z ! 1)) = [[[- 4, - 4]]] \<and>
   checkAction ex_lattice_z (state (m_states ex_lattice_z ! 1)) [[- 4, - 4]] = Some (True, 1) \<and>
   computePlanningFrameFK ex_lattice_z [- 4, - 4] = Some (Some [- 4, - 4, 0, 0, 0, 0]) \<and>
   isGoal ex_lattice_z [- 4, - 4] [- 4, - 4, 0, 0, 0, 0] = Some (False, ex_lattice_z) \<and>
   GetSuccs ex_lattice_z 1 = Some ([0], [1000], ex_lattice_z\<lparr>m_expanded_states := [1]\<rparr>) \<and>
   setGoal ex_gt_of_int ex_lattice_z0 ex_xyz_goal_w = Some (True, ex_lattice_wg) \<and>
   setStart ex_lattice_wg [0, 0] = Some (True, ex_lattice_w) \<and>
   getGoalStateID ex_lattice_w = 0 \<and>
   enumerated_actions ex_lattice_w (state (m_states ex_lattice_w ! 1)) = [[[- 4, - 4]]] \<and>
   isGoal ex_lattice_w [- 4, - 4] [- 4, - 4, 0, 0, 0, 0] = Some (True, ex_lattice_w) \<and>
   GetSuccs ex_lattice_w 1 = Some ([0], [1000], ex_lattice_w\<lparr>m_expanded_states := [1]\<rparr>) \<and>
   anglesToCoord ex_lattice_w [- 4, - 4] = Some [0, 0] \<and>
   getHashEntry (ex_lattice_w\<lparr>m_expanded_states := [1]\<rparr>) [0, 0] = Some 0 \<and>
   stateID (m_states (ex_lattice_w\<lparr>m_expanded_states := [1]\<rparr>) ! 0) = 0"
proof -
  have 1: "setGoal ex_gt_of_int ex_lattice_z0 ex_xyz_goal = Some (True, ex_lattice_zg)"
    "setGoal ex_gt_of_int ex_lattice_z0 ex_xyz_goal_w = Some (True, ex_lattice_wg)"
    by (simp_all add: setGoal_def setGoalPosition_def ex_lattice_z0_explicit ex_z_eval
        getTargetOffsetPose_def zero_coord_def ex_gt_of_int_def replicate_2 ex_eval)
  have 2: "setStart ex_lattice_zg [0, 0] = Some (True, ex_lattice_z)"
    "setStart ex_lattice_wg [0, 0] = Some (True, ex_lattice_w)"
    by (simp_all add: setStart_def ex_z_eval ex_eval)
  have 3: "getGoalStateID ex_lattice_z = 0" "getGoalStateID ex_lattice_w = 0"
    "enumerated_actions ex_lattice_z (state (m_states ex_lattice_z ! 1)) = [[[- 4, - 4]]]"
    "enumerated_actions ex_lattice_w (state (m_states ex_lattice_w ! 1)) = [[[- 4, - 4]]]"
    by (simp_all add: getGoalStateID_def enumerated_actions_def ex_z_eval)
  have 4: "checkAction ex_lattice_z (state (m_states ex_lattice_z ! 1)) [[- 4, - 4]] = Some (True, 1)"
    "computePlanningFrameFK ex_lattice_z [- 4, - 4] = Some (Some [- 4, - 4, 0, 0, 0, 0])"
    "isGoal ex_lattice_z [- 4, - 4] [- 4, - 4, 0, 0, 0, 0] = Some (False, ex_lattice_z)"
    "isGoal ex_lattice_w [- 4, - 4] [- 4, - 4, 0, 0, 0, 0] = Some (True, ex_lattice_w)"
    "anglesToCoord ex_lattice_w [- 4, - 4] = Some [0, 0]"
    by (simp_all add: ex_z_eval ex_eval)
  have 5: "GetSuccs ex_lattice_z 1 = Some ([0], [1000], ex_lattice_z\<lparr>m_expanded_states := [1]\<rparr>)"
    "GetSuccs ex_lattice_w 1 = Some ([0], [1000], ex_lattice_w\<lparr>m_expanded_states := [1]\<rparr>)"
    by (simp_all add: GetSuccs_def ex_z_eval ex_eval)
  have 6: "getHashEntry (ex_lattice_w\<lparr>m_expanded_states := [1]\<rparr>) [0, 0] = Some 0"
    "stateID (m_states (ex_lattice_w\<lparr>m_expanded_states := [1]\<rparr>) ! 0) = 0"
    by (simp_all add: getHashEntry_def ex_z_eval)
  show ?thesis using 1 2 3 4 5 6 by (intro conjI) assumption+
qed

subsection \<open>The true cost of a transition\<close>

text \<open>
  Claim C2, amended. With a cost multiplier below \<^verbatim>\<open>INT_MAX\<close>: \<open>GetTrueCost\<close>
  returns whenever the query is defined; and whenever it returns, its result is the
  minimum edge cost over the enumerated actions of the parent whose destination has a
  forward-kinematics pose, which reach the child and which pass \<open>checkAction\<close>, and
  \<open>-1\<close> when there is none (also when the action space is absent or fails). As stated
  the claim fails: \<open>GetTrueCost\<close> skips an action whose destination has no
  forward-kinematics pose, even when its coordinate is the child's and it passes
  \<open>checkAction\<close>; the last theorem is such a lattice, reached by \<open>setStart\<close>.
\<close>

theorem GetTrueCost_value:
  assumes cm: "cost_multiplier (params L) < INT_MAX"
  shows "(true_cost_defined L parentID childID \<longrightarrow>
            (\<exists>r L'. GetTrueCost L parentID childID = Some (r, L'))) \<and>
         (\<forall>r L'. GetTrueCost L parentID childID = Some (r, L') \<longrightarrow>
            r = (let Q = filter (transition_valid L (state (m_states L ! nat parentID)) (nat childID))
                           (enumerated_actions L (state (m_states L ! nat parentID)))
                 in if Q = [] then - 1
                    else Min (set (map (\<lambda>a. cost L (nat parentID) (nat childID)
                                               (nat childID = m_goal_entry L)) Q))))"
  using GetTrueCost_defined [of L parentID childID] GetTrueCost_returned_value [OF _ cm, of parentID childID]
  by blast


theorem GetTrueCost_value_witness:
  "cost_multiplier (params ex_lattice_x) < INT_MAX \<and>
   true_cost_defined ex_lattice_x 1 0 \<and>
   GetTrueCost ex_lattice_x 1 0 = Some (1000, ex_lattice_x) \<and>
   filter (transition_valid ex_lattice_x (state (m_states ex_lattice_x ! nat 1)) (nat 0))
     (enumerated_actions ex_lattice_x (state (m_states ex_lattice_x ! nat 1))) = [[[1, 0]]] \<and>
   (1000 :: int) =
     (let Q = filter (transition_valid ex_lattice_x (state (m_states ex_lattice_x ! nat 1)) (nat 0))
                (enumerated_actions ex_lattice_x (state (m_states ex_lattice_x ! nat 1)))
      in if Q = [] then - 1
         else Min (set (map (\<lambda>a. cost ex_lattice_x (nat 1) (nat 0) (nat 0 = m_goal_entry ex_lattice_x)) Q)))"
proof -
  have 1: "GetTrueCost ex_lattice_x 1 0 = Some (1000, ex_lattice_x)"
    by (simp add: GetTrueCost_def ex_lattice_x_def ex_lattice_s_def ex_lattice_g_def
        ex_lattice_explicit ex_eval)
  have 2: "cost_multiplier (params ex_lattice_x) < INT_MAX"
    by (simp add: ex_lattice_x_def ex_lattice_s_def ex_lattice_g_def ex_lattice_explicit
        ex_params_def INT_MAX_def)
  have 3: "filter (transition_valid ex_lattice_x (state (m_states ex_lattice_x ! nat 1)) (nat 0))
     (enumerated_actions ex_lattice_x (state (m_states ex_lattice_x ! nat 1))) = [[[1, 0]]]"
    by (simp add: transition_valid_def enumerated_actions_def ex_lattice_x_def ex_lattice_s_def
        ex_lattice_g_def ex_lattice_explicit ex_eval)
  show ?thesis
    using GetTrueCost_value [OF 2, THEN conjunct2, rule_format, OF 1] 1 2 3 ex_x_true_cost_defined
    by simp
qed


theorem GetTrueCost_skips_failed_fk:
  "enumerated_actions ex_lattice_p (state (m_states ex_lattice_p ! 1)) = [[[1 / 4, 0]]] \<and>
   anglesToCoord ex_lattice_p (last [[1 / 4, 0]]) = Some (coord (m_states ex_lattice_p ! 1)) \<and>
   checkAction ex_lattice_p (state (m_states ex_lattice_p ! 1)) [[1 / 4, 0]] = Some (True, 1) \<and>
   1 \<noteq> m_goal_entry ex_lattice_p \<and>
   cost ex_lattice_p 1 1 False = 1000 \<and>
   GetTrueCost ex_lattice_p 1 1 = Some (- 1, ex_lattice_p)"
  by (simp add: GetTrueCost_def enumerated_actions_def cost_def ex_params_def ex_p_eval)

subsection \<open>The goal point of an extracted path\<close>

text \<open>
  Claim C3 says that at a position that holds the reserved goal ID \<open>extractPath\<close> emits
  the last waypoint of the minimum-cost action from the previous state whose destination
  satisfies \<open>isGoal\<close> and which passes \<open>checkAction\<close>. The source looks the
  destination's coordinate up in the table and emits the configuration stored in the
  state it finds, which is the configuration the state was created from. On the lattice
  after \<open>setGoal\<close> at \<open>(1/4, 0, 0)\<close>, \<open>setStart\<close> at \<open>[0, 0]\<close> and the expansion of
  the start state, the goal destination \<open>[1/4, 0]\<close> lies in the bin of the start state:
  \<open>GetSuccs\<close> reports the goal ID for it, and \<open>extractPath\<close> on the path from the
  start to the goal returns true and emits the start configuration \<open>[0, 0]\<close>, which is
  not the last waypoint of the action and does not satisfy \<open>isGoal\<close>.
\<close>

theorem extractPath_emits_stored_state:
  "setGoal ex_gt_of_int (setActionSpace ex_lattice ex_actions_q) ex_xyz_goal_q
     = Some (True, ex_lattice_q0\<lparr>m_start_entry := None, m_states := m_states ex_lattice,
                                 m_state_to_id := m_state_to_id ex_lattice\<rparr>) \<and>
   setStart (ex_lattice_q0\<lparr>m_start_entry := None, m_states := m_states ex_lattice,
                            m_state_to_id := m_state_to_id ex_lattice\<rparr>) [0, 0]
     = Some (True, ex_lattice_q0) \<and>
   GetSuccs ex_lattice_q0 1 = Some ([0], [1000], ex_lattice_q) \<and>
   getGoalStateID ex_lattice_q = 0 \<and>
   enumerated_actions ex_lattice_q (state (m_states ex_lattice_q ! 1)) = [[[1 / 4, 0]]] \<and>
   transition_valid ex_lattice_q (state (m_states ex_lattice_q ! 1)) (m_goal_entry ex_lattice_q)
     [[1 / 4, 0]] \<and>
   isGoal ex_lattice_q [1 / 4, 0] [1 / 4, 0, 0, 0, 0, 0] = Some (True, ex_lattice_q) \<and>
   extractPath ex_lattice_q [1, 0] [] = Some (True, [[0, 0], [0, 0]], ex_lattice_q) \<and>
   [[0, 0], [0, 0]] ! 1 \<noteq> last [[1 / 4, 0 :: real]] \<and>
   computePlanningFrameFK ex_lattice_q [0, 0] = Some (Some [0, 0, 0, 0, 0, 0]) \<and>
   isGoal ex_lattice_q [0, 0] [0, 0, 0, 0, 0, 0] = Some (False, ex_lattice_q)"
proof -
  have 1: "GetSuccs ex_lattice_q0 1 = Some ([0], [1000], ex_lattice_q) \<and>
   getGoalStateID ex_lattice_q = 0 \<and>
   enumerated_actions ex_lattice_q (state (m_states ex_lattice_q ! 1)) = [[[1 / 4, 0]]] \<and>
   transition_valid ex_lattice_q (state (m_states ex_lattice_q ! 1)) (m_goal_entry ex_lattice_q)
     [[1 / 4, 0]] \<and>
   extractPath ex_lattice_q [1, 0] [] = Some (True, [[0, 0], [0, 0]], ex_lattice_q) \<and>
   [[0, 0], [0, 0]] ! 1 \<noteq> last [[1 / 4, 0 :: real]]"
    by (simp add: GetSuccs_def extractPath_def getGoalStateID_def getStartStateID_def
      StateID2Angles_def enumerated_actions_def transition_valid_def
      ex_lattice_q_def ex_lattice_q0_def ex_lattice_explicit ex_actions_q_def ex_eval)
  have 2: "isGoal ex_lattice_q [1 / 4, 0] [1 / 4, 0, 0, 0, 0, 0] = Some (True, ex_lattice_q)"
    "computePlanningFrameFK ex_lattice_q [0, 0] = Some (Some [0, 0, 0, 0, 0, 0])"
    "isGoal ex_lattice_q [0, 0] [0, 0, 0, 0, 0, 0] = Some (False, ex_lattice_q)"
    by (simp_all add: ex_lattice_q_def ex_lattice_q0_def ex_lattice_explicit ex_eval)
  show ?thesis using 1 2 ex_q_reached by blast
qed

subsection \<open>States created by the lazy expansion\<close>

text \<open>
  Claim C10. On a lattice that satisfies the invariant of the state table, \<open>GetLazySuccs\<close>
  returns whenever the expansion is defined; and whenever it returns, the states of the
  lattice are the states it had, unchanged, followed by the states the call created, and
  each created state has the distance 0; and whenever \<open>GetTrueCost\<close> returns on the
  resulting lattice, for any parent and child, the states, and so their distances, are
  still the same.
\<close>

theorem lazy_states_have_zero_distance:
  assumes inv: "lattice_inv L"
  shows "(expansion_defined L SourceStateID \<longrightarrow> (\<exists>r. GetLazySuccs L SourceStateID = Some r)) \<and>
         (\<forall>SuccIDV CostV isTrueCost L'.
            GetLazySuccs L SourceStateID = Some (SuccIDV, CostV, isTrueCost, L') \<longrightarrow>
            (\<exists>ext. m_states L' = m_states L @ ext \<and> (\<forall>x \<in> set ext. dist_s x = 0) \<and>
               (\<forall>parentID childID c L''. GetTrueCost L' parentID childID = Some (c, L'') \<longrightarrow>
                  m_states L'' = m_states L @ ext)))"
  using GetLazySuccs_defined [OF inv, of SourceStateID]
    GetLazySuccs_returned_states [OF inv, of SourceStateID]
  by blast


theorem lazy_states_have_zero_distance_witness:
  "lattice_inv ex_lattice_s \<and> expansion_defined ex_lattice_s 1 \<and>
   GetLazySuccs ex_lattice_s 1 = Some ([0], [1000], [False], ex_lattice_lz) \<and>
   (\<exists>ext. m_states ex_lattice_lz = m_states ex_lattice_s @ ext \<and> (\<forall>x \<in> set ext. dist_s x = 0) \<and>
      (\<forall>parentID childID c L''. GetTrueCost ex_lattice_lz parentID childID = Some (c, L'') \<longrightarrow>
         m_states L'' = m_states ex_lattice_s @ ext)) \<and>
   GetTrueCost ex_lattice_lz 1 0 = Some (1000, ex_lattice_lz) \<and>
   length (m_states ex_lattice_lz) = Suc (length (m_states ex_lattice_s)) \<and>
   dist_s (m_states ex_lattice_lz ! 2) = 0"
proof -
  have 1: "GetTrueCost ex_lattice_lz 1 0 = Some (1000, ex_lattice_lz)"
    by (simp add: GetTrueCost_def ex_lattice_lz_def ex_lattice_s_def ex_lattice_g_def
        ex_lattice_explicit ex_eval)
  have 2: "length (m_states ex_lattice_lz) = Suc (length (m_states ex_lattice_s))"
    "dist_s (m_states ex_lattice_lz ! 2) = 0"
    by (simp_all add: ex_lattice_lz_def ex_lattice_s_def)
  show ?thesis
    using lazy_states_have_zero_distance [OF ex_lattice_s_inv, THEN conjunct2, rule_format,
        OF ex_GetLazySuccs]
      ex_lattice_s_inv ex_GetLazySuccs 1 2 ex_expansion_defined
    by simp
qed


subsection \<open>Setting the start\<close>

text \<open>
  Claim C7 says that \<open>setStart\<close> returns false for a configuration with fewer positions
  than the lattice has joints, and otherwise, when the forward kinematics succeeds, the
  joints are within their bounds and the configuration is valid, computes the coordinate,
  obtains or inserts the state and returns true. The size check of \<open>setStart\<close> rejects
  only a configuration that is too short, while \<open>computePlanningFrameFK\<close> and
  \<open>anglesToCoord\<close> assert that it has exactly one position per joint, and the loop of
  \<open>anglesToCoord\<close> reads the per-joint vectors at every index of the configuration. For
  the configuration \<open>[0, 0, 0]\<close> on the lattice of two joints, which every collaborator
  accepts, the size check passes, the assertion of \<open>computePlanningFrameFK\<close> fails, the
  loop of \<open>anglesToCoord\<close> reads outside the vectors, and \<open>setStart\<close> does not return.
\<close>

theorem setStart_longer_configuration:
  "\<not> length [0, 0, 0 :: real] < num_joints (params ex_lattice_g) \<and>
   map_option (\<lambda>fk. fk [0, 0, 0]) (m_fk_iface ex_lattice_g) = Some (Some [0, 0, 0, 0, 0, 0]) \<and>
   checkJointLimits (robot ex_lattice_g) [0, 0, 0] \<and>
   fst (isStateValid (collisionChecker ex_lattice_g) [0, 0, 0]) \<and>
   computePlanningFrameFK ex_lattice_g [0, 0, 0] = None \<and>
   anglesToCoord_loop ex_lattice_g 0 [0, 0, 0] = None \<and>
   setStart ex_lattice_g [0, 0, 0] = None"
  by (simp add: setStart_def ex_lattice_g_def ex_lattice_explicit ex_eval)

subsection \<open>The pose goal\<close>

text \<open>
  Claim C5 says that under a pose goal \<open>isGoal\<close> holds exactly when the position is
  within the tolerances and the rotation error, computed with the absolute value of the
  dot product of the two quaternions, is within the first rotation tolerance. The source
  takes \<^verbatim>\<open>acos\<close> of the dot product itself. With the goal yaw \<open>-2\<pi>/3\<close> and a pose at the
  goal position with yaw \<open>2\<pi>/3\<close> the dot product is \<open>-1/2\<close>, the angle of the source is
  \<open>normalize (4\<pi>/3) = -2\<pi>/3\<close>, below every positive tolerance, and \<open>isGoal\<close> returns
  true; the rotation error of the claim is \<open>2\<pi>/3\<close>, far above the tolerance \<open>0.05\<close>.
\<close>

theorem isGoal_accepts_opposite_yaw:
  "isGoal ex_lattice_r [0, 0] [0, 0, 0, 0, 0, 2 * pi / 3]
     = Some (True, ex_lattice_r\<lparr>m_near_goal := True\<rparr>) \<and>
   rotation_error_spec [0, 0, 0, 0, 0, 2 * pi / 3] (tgt_off_pose (m_goal ex_lattice_r)) = 2 * pi / 3 \<and>
   \<not> rotation_error_spec [0, 0, 0, 0, 0, 2 * pi / 3] (tgt_off_pose (m_goal ex_lattice_r))
       \<le> fst (rpy_tolerance (m_goal ex_lattice_r))"
proof -
  have g: "m_goal ex_lattice_r =
     \<lparr>goal_type = XYZ_RPY_GOAL, pose = [0, 0, 0, 0, 0, - (2 * pi / 3), 1],
      tgt_off_pose = [0, 0, 0, 0, 0, - (2 * pi / 3)],
      xyz_offset = (0, 0, 0), xyz_tolerance = (1 / 100, 1 / 100, 1 / 100),
      rpy_tolerance = (1 / 20, 1 / 20, 1 / 20), angles = [], angle_tolerances = [],
      goal_xyz = (0, 0, 0)\<rparr>"
    by (simp add: ex_lattice_r_def)
  have p: "- 3 < 40 * pi" using pi_ge_two by linarith
  have 1: "isGoal ex_lattice_r [0, 0] [0, 0, 0, 0, 0, 2 * pi / 3]
     = Some (True, ex_lattice_r\<lparr>m_near_goal := True\<rparr>)"
    using p by (simp add: isGoal_def g assert_that_def Let_def ex_dot ex_theta_code)
  have 2: "rotation_error_spec [0, 0, 0, 0, 0, 2 * pi / 3] (tgt_off_pose (m_goal ex_lattice_r))
             = 2 * pi / 3"
    by (simp add: rotation_error_spec_def g ex_dot ex_theta_spec)
  have "(1 :: real) / 20 < 2 * pi / 3" using pi_ge_two by linarith
  then show ?thesis using 1 2 by (simp add: g)
qed

end
